theory Spec2Isabelle
  imports Complex_Main "HOL-Library.AList" "HOL-Library.Option_ord" "HOL-Library.Log_Nat"
begin

section \<open>Python values, exceptions and dictionaries\<close>

text \<open>
  The program is \<^verbatim>\<open>year_in_review.py\<close>. Its functions are embedded as HOL functions.
  Every exception the source can raise is a value of \<open>error\<close>; a function that can
  raise returns \<open>error + 'a\<close> with \<open>Inl\<close> for the exception.
  \<open>FailedAPIRequest\<close> carries the url, the expected status code, the received status
  code and the raw body that the source formats into its message;
  \<open>RequestException\<close> is what \<^verbatim>\<open>requests.get\<close> raises when it gets no response.
\<close>

datatype error =
    FailedAPIRequest string int int string
  | AttributeError
  | TypeError
  | KeyError
  | IndexError
  | ValueError
  | ZeroDivisionError
  | OverflowError
  | RequestException

text \<open>
  An attribute of a Python object: never assigned (reading it raises AttributeError),
  assigned \<^verbatim>\<open>None\<close>, or assigned a value.
\<close>

datatype 'a attr = Unset | PyNone | Val 'a

text \<open>
  A \<^verbatim>\<open>dict\<close> is an association list in insertion order: assigning to a key that
  is present keeps its position, assigning to a new key appends it
  (\<open>AList.update\<close>). The order matters for ties in \<^verbatim>\<open>nlargest\<close> and \<^verbatim>\<open>max\<close>.
\<close>

type_synonym ('k, 'v) dict = "('k \<times> 'v) list"

definition dict_contains :: "('k, 'v) dict \<Rightarrow> 'k \<Rightarrow> bool" where
  "dict_contains d k = (map_of d k \<noteq> None)"

definition dict_set :: "'k \<Rightarrow> 'v \<Rightarrow> ('k, 'v) dict \<Rightarrow> ('k, 'v) dict" where
  "dict_set k v d = AList.update k v d"

text \<open>\<^verbatim>\<open>d[k]\<close>: KeyError when the key is missing.\<close>

definition dict_getitem :: "('k, 'v) dict \<Rightarrow> 'k \<Rightarrow> error + 'v" where
  "dict_getitem d k = (case map_of d k of None \<Rightarrow> Inl KeyError | Some v \<Rightarrow> Inr v)"

text \<open>
  \<^verbatim>\<open>d[k] += obj.attribute\<close> for an integer total: Python reads \<^verbatim>\<open>d[k]\<close> first
  (KeyError), then the attribute (AttributeError), then adds (TypeError on \<^verbatim>\<open>None\<close>),
  then stores.
\<close>

definition dict_iadd :: "('k, int) dict \<Rightarrow> 'k \<Rightarrow> int attr \<Rightarrow> error + ('k, int) dict" where
  "dict_iadd d k a =
     (case map_of d k of
        None \<Rightarrow> Inl KeyError
      | Some v \<Rightarrow>
          (case a of
             Unset \<Rightarrow> Inl AttributeError
           | PyNone \<Rightarrow> Inl TypeError
           | Val r \<Rightarrow> Inr (dict_set k (v + r) d)))"

text \<open>\<^verbatim>\<open>for x in obj.attribute\<close>: the attribute must exist and must not be \<^verbatim>\<open>None\<close>.\<close>

definition iter_attr :: "'a list attr \<Rightarrow> error + 'a list" where
  "iter_attr a =
     (case a of Unset \<Rightarrow> Inl AttributeError | PyNone \<Rightarrow> Inl TypeError | Val xs \<Rightarrow> Inr xs)"

text \<open>\<^verbatim>\<open>xs[i]\<close> on a list, with Python's negative indices.\<close>

definition py_index :: "'a list \<Rightarrow> int \<Rightarrow> error + 'a" where
  "py_index xs i =
     (if 0 \<le> i \<and> i < int (length xs) then Inr (xs ! nat i)
      else if i < 0 \<and> - int (length xs) \<le> i then Inr (xs ! nat (int (length xs) + i))
      else Inl IndexError)"

section \<open>Dates\<close>

text \<open>
  \<^verbatim>\<open>datetime(year, month, day)\<close> with the time at midnight. The constructor first
  converts its arguments to C integers of 32 bits and raises OverflowError when one does
  not fit; then it checks the fields as CPython does and raises ValueError.
  \<open>weekday\<close> is CPython's \<^verbatim>\<open>(toordinal() + 6) % 7\<close>, Monday being 0.
\<close>

record datetime =
  year :: int
  month :: int
  day :: int

definition is_leap :: "int \<Rightarrow> bool" where
  "is_leap y = (y mod 4 = 0 \<and> (y mod 100 \<noteq> 0 \<or> y mod 400 = 0))"

definition month_lengths :: "int list" where
  "month_lengths = [31, 28, 31, 30, 31, 30, 31, 31, 30, 31, 30, 31]"

definition days_in_month :: "int \<Rightarrow> int \<Rightarrow> int" where
  "days_in_month y m =
     (if m = 2 \<and> is_leap y then 29
      else if 1 \<le> m \<and> m \<le> 12 then month_lengths ! nat (m - 1) else 0)"

definition days_before_year :: "int \<Rightarrow> int" where
  "days_before_year y =
     (let y1 = y - 1 in y1 * 365 + y1 div 4 - y1 div 100 + y1 div 400)"

definition days_before_month :: "int \<Rightarrow> int \<Rightarrow> int" where
  "days_before_month y m =
     sum_list (take (nat (m - 1)) month_lengths) + (if m > 2 \<and> is_leap y then 1 else 0)"

definition toordinal :: "datetime \<Rightarrow> int" where
  "toordinal d = days_before_year (year d) + days_before_month (year d) (month d) + day d"

definition weekday :: "datetime \<Rightarrow> int" where
  "weekday d = (toordinal d + 6) mod 7"

definition valid_date :: "datetime \<Rightarrow> bool" where
  "valid_date d =
     (1 \<le> year d \<and> year d \<le> 9999 \<and> 1 \<le> month d \<and> month d \<le> 12 \<and>
      1 \<le> day d \<and> day d \<le> days_in_month (year d) (month d))"

definition c_int :: "int \<Rightarrow> bool" where
  "c_int i = (- 2147483648 \<le> i \<and> i \<le> 2147483647)"

definition py_datetime :: "int \<Rightarrow> int \<Rightarrow> int \<Rightarrow> error + datetime" where
  "py_datetime y m d =
     (if c_int y \<and> c_int m \<and> c_int d then
        (let dt = \<lparr>year = y, month = m, day = d\<rparr>
         in if valid_date dt then Inr dt else Inl ValueError)
      else Inl OverflowError)"

text \<open>\<^verbatim>\<open>calendar.month_name\<close> and \<^verbatim>\<open>calendar.day_name\<close> in the default (English) locale.\<close>

definition month_name :: "string list" where
  "month_name = ['''', ''January'', ''February'', ''March'', ''April'', ''May'', ''June'',
     ''July'', ''August'', ''September'', ''October'', ''November'', ''December'']"

definition day_name :: "string list" where
  "day_name = [''Monday'', ''Tuesday'', ''Wednesday'', ''Thursday'', ''Friday'',
     ''Saturday'', ''Sunday'']"

section \<open>Content and watched content\<close>

text \<open>
  A \<^verbatim>\<open>Content\<close> object (\<^verbatim>\<open>Movie\<close> or \<^verbatim>\<open>SeriesEpisode\<close>) is the record of its attributes.
  \<open>pruction_companies\<close> is the attribute the constructor's \<^verbatim>\<open>else\<close> branch assigns
  (line 122 of the source) where the other branch assigns \<open>production_companies\<close>.
  Ratings are Python floats; they are modelled as exact rationals.
\<close>

record content =
  tmdb_id :: "string attr"
  title :: "string attr"
  genres :: "string list attr"
  is_movie :: "bool attr"
  is_series :: "bool attr"
  actors :: "string list attr"
  directors :: "string list attr"
  production_companies :: "string list attr"
  pruction_companies :: "string list attr"
  release_date :: "datetime attr"
  runtime :: "int attr"
  show_id :: "string attr"
  season :: "string attr"
  episode :: "string attr"

record watched_content =
  content :: content
  platform :: string
  date :: datetime
  rating :: rat

definition TOP_N :: nat where "TOP_N = 20"
definition MIN_THRESHOLD :: int where "MIN_THRESHOLD = 5"
definition MIN_THRESHOLD_FOR_DIRECTORS :: int where "MIN_THRESHOLD_FOR_DIRECTORS = 2"
definition MAX_CAST :: nat where "MAX_CAST = 15"
definition MAX_DIRECTORS :: nat where "MAX_DIRECTORS = 2"
definition STATUS_CODE_OK :: int where "STATUS_CODE_OK = 200"

section \<open>Category totals\<close>

text \<open>
  \<^verbatim>\<open>get_amount_of_movies_and_series_watched\<close>: the loop over the collection with its
  four counters; the result is the four numbers the function prints.
  \<^verbatim>\<open>if c.content.is_movie\<close> tests truthiness, so \<^verbatim>\<open>None\<close> counts as a series.
\<close>

fun amount_loop ::
  "watched_content list \<Rightarrow> int \<times> int \<times> int \<times> int \<Rightarrow> error + (int \<times> int \<times> int \<times> int)" where
  "amount_loop [] acc = Inr acc"
| "amount_loop (c # cs) (movie_counter, movie_minutes, series_counter, series_minutes) =
     (case is_movie (content c) of
        Unset \<Rightarrow> Inl AttributeError
      | Val True \<Rightarrow>
          (case runtime (content c) of
             Unset \<Rightarrow> Inl AttributeError
           | PyNone \<Rightarrow> Inl TypeError
           | Val r \<Rightarrow>
               amount_loop cs (movie_counter + 1, movie_minutes + r, series_counter, series_minutes))
      | _ \<Rightarrow>
          (case runtime (content c) of
             Unset \<Rightarrow> Inl AttributeError
           | PyNone \<Rightarrow> Inl TypeError
           | Val r \<Rightarrow>
               amount_loop cs (movie_counter, movie_minutes, series_counter + 1, series_minutes + r)))"

definition get_amount_of_movies_and_series_watched ::
  "watched_content list \<Rightarrow> error + (int \<times> int \<times> int \<times> int)" where
  "get_amount_of_movies_and_series_watched watched = amount_loop watched (0, 0, 0, 0)"

section \<open>Ranking reports\<close>

text \<open>
  \<^verbatim>\<open>heapq.nlargest(n, iterable, key)\<close> returns what
  \<^verbatim>\<open>sorted(iterable, key=key, reverse=True)[:n]\<close> returns: the elements in descending
  order of their keys, elements with equal keys in their original order, cut after \<open>n\<close>.
  \<open>sorted_reverse\<close> is that stable descending sort, by insertion from the right.
\<close>

fun insert_desc :: "('a \<Rightarrow> 'b::linorder) \<Rightarrow> 'a \<Rightarrow> 'a list \<Rightarrow> 'a list" where
  "insert_desc key x [] = [x]"
| "insert_desc key x (y # ys) =
     (if key x < key y then y # insert_desc key x ys else x # y # ys)"

definition sorted_reverse :: "('a \<Rightarrow> 'b::linorder) \<Rightarrow> 'a list \<Rightarrow> 'a list" where
  "sorted_reverse key xs = foldr (insert_desc key) xs []"

definition nlargest :: "nat \<Rightarrow> 'a list \<Rightarrow> ('a \<Rightarrow> 'b::linorder) \<Rightarrow> 'a list" where
  "nlargest n xs key = take n (sorted_reverse key xs)"

text \<open>
  The printing loop \<^verbatim>\<open>for x in nlargest(TOP_N, scores, key = scores.get): print(x, scores[x])\<close>:
  the report is the list of the printed (label, value) pairs. Iterating a dict yields
  its keys; \<^verbatim>\<open>scores.get\<close> is \<open>map_of scores\<close>.
\<close>

fun report_entries :: "('k, 'v) dict \<Rightarrow> 'k list \<Rightarrow> error + ('k \<times> 'v) list" where
  "report_entries scores [] = Inr []"
| "report_entries scores (x # xs) =
     (case dict_getitem scores x of
        Inl e \<Rightarrow> Inl e
      | Inr v \<Rightarrow>
          (case report_entries scores xs of
             Inl e \<Rightarrow> Inl e
           | Inr out \<Rightarrow> Inr ((x, v) # out)))"

definition top_n_report :: "('k, 'v::linorder) dict \<Rightarrow> error + ('k \<times> 'v) list" where
  "top_n_report scores = report_entries scores (nlargest TOP_N (map fst scores) (map_of scores))"

subsection \<open>Most watched: totals of runtime\<close>

text \<open>
  \<^verbatim>\<open>get_most_watched_genres\<close>, \<^verbatim>\<open>get_most_watched_actors\<close>,
  \<^verbatim>\<open>get_most_watched_production_companies\<close> and \<^verbatim>\<open>get_most_watched_directors\<close> are the
  same code over four attributes of the content; \<open>field\<close> is the attribute.
  The inner loop is \<open>add_runtime\<close>, the outer loop \<open>watched_scores\<close>.
\<close>

fun add_runtime :: "'k list \<Rightarrow> int attr \<Rightarrow> ('k, int) dict \<Rightarrow> error + ('k, int) dict" where
  "add_runtime [] rt scores = Inr scores"
| "add_runtime (k # ks) rt scores =
     (case dict_iadd (if dict_contains scores k then scores else dict_set k 0 scores) k rt of
        Inl e \<Rightarrow> Inl e
      | Inr scores' \<Rightarrow> add_runtime ks rt scores')"

fun watched_scores ::
  "(content \<Rightarrow> 'k list attr) \<Rightarrow> watched_content list \<Rightarrow> ('k, int) dict \<Rightarrow> error + ('k, int) dict" where
  "watched_scores field [] scores = Inr scores"
| "watched_scores field (c # cs) scores =
     (case iter_attr (field (content c)) of
        Inl e \<Rightarrow> Inl e
      | Inr ks \<Rightarrow>
          (case add_runtime ks (runtime (content c)) scores of
             Inl e \<Rightarrow> Inl e
           | Inr scores' \<Rightarrow> watched_scores field cs scores'))"

definition most_watched ::
  "(content \<Rightarrow> string list attr) \<Rightarrow> watched_content list \<Rightarrow> error + (string \<times> int) list" where
  "most_watched field watched =
     (case watched_scores field watched [] of
        Inl e \<Rightarrow> Inl e
      | Inr scores \<Rightarrow> top_n_report scores)"

definition get_most_watched_genres :: "watched_content list \<Rightarrow> error + (string \<times> int) list" where
  "get_most_watched_genres watched = most_watched genres watched"

definition get_most_watched_actors :: "watched_content list \<Rightarrow> error + (string \<times> int) list" where
  "get_most_watched_actors watched = most_watched actors watched"

definition get_most_watched_production_companies ::
  "watched_content list \<Rightarrow> error + (string \<times> int) list" where
  "get_most_watched_production_companies watched = most_watched production_companies watched"

definition get_most_watched_directors :: "watched_content list \<Rightarrow> error + (string \<times> int) list" where
  "get_most_watched_directors watched = most_watched directors watched"

subsection \<open>Most liked: average rating with a minimum sample\<close>

text \<open>
  \<^verbatim>\<open>get_most_liked_genres\<close>, \<^verbatim>\<open>get_most_liked_actors\<close>,
  \<^verbatim>\<open>get_most_liked_production_companies\<close> and \<^verbatim>\<open>get_most_liked_directors\<close>: the first
  loop fills \<^verbatim>\<open>ratings\<close> and \<^verbatim>\<open>amount_watched\<close>, the second loop goes through
  \<^verbatim>\<open>ratings.items()\<close>, skips the keys below the threshold and stores the average of
  the others in \<^verbatim>\<open>scores\<close>.
\<close>

fun add_rating ::
  "'k list \<Rightarrow> rat \<Rightarrow> ('k, rat) dict \<times> ('k, int) dict \<Rightarrow> error + (('k, rat) dict \<times> ('k, int) dict)" where
  "add_rating [] r acc = Inr acc"
| "add_rating (k # ks) r (ratings, amount_watched) =
     (let ratings1 = (if dict_contains ratings k then ratings else dict_set k 0 ratings);
          amount1 = (if dict_contains ratings k then amount_watched
                     else dict_set k 0 amount_watched)
      in case dict_getitem ratings1 k of
           Inl e \<Rightarrow> Inl e
         | Inr v \<Rightarrow>
             (case dict_getitem amount1 k of
                Inl e \<Rightarrow> Inl e
              | Inr n \<Rightarrow> add_rating ks r (dict_set k (v + r) ratings1, dict_set k (n + 1) amount1)))"

fun watched_ratings ::
  "(content \<Rightarrow> 'k list attr) \<Rightarrow> watched_content list \<Rightarrow> ('k, rat) dict \<times> ('k, int) dict \<Rightarrow>
     error + (('k, rat) dict \<times> ('k, int) dict)" where
  "watched_ratings field [] acc = Inr acc"
| "watched_ratings field (c # cs) acc =
     (case iter_attr (field (content c)) of
        Inl e \<Rightarrow> Inl e
      | Inr ks \<Rightarrow>
          (case add_rating ks (rating c) acc of
             Inl e \<Rightarrow> Inl e
           | Inr acc' \<Rightarrow> watched_ratings field cs acc'))"

fun threshold_scores ::
  "int \<Rightarrow> ('k \<times> rat) list \<Rightarrow> ('k, int) dict \<Rightarrow> ('k, rat) dict \<Rightarrow> error + ('k, rat) dict" where
  "threshold_scores t [] amount_watched scores = Inr scores"
| "threshold_scores t ((k, r) # items) amount_watched scores =
     (case dict_getitem amount_watched k of
        Inl e \<Rightarrow> Inl e
      | Inr n \<Rightarrow>
          if n < t then threshold_scores t items amount_watched scores
          else if n = 0 then Inl ZeroDivisionError
          else threshold_scores t items amount_watched (dict_set k (r / of_int n) scores))"

definition most_liked ::
  "int \<Rightarrow> (content \<Rightarrow> string list attr) \<Rightarrow> watched_content list \<Rightarrow> error + (string \<times> rat) list" where
  "most_liked t field watched =
     (case watched_ratings field watched ([], []) of
        Inl e \<Rightarrow> Inl e
      | Inr (ratings, amount_watched) \<Rightarrow>
          (case threshold_scores t ratings amount_watched [] of
             Inl e \<Rightarrow> Inl e
           | Inr scores \<Rightarrow> top_n_report scores))"

definition get_most_liked_genres :: "watched_content list \<Rightarrow> error + (string \<times> rat) list" where
  "get_most_liked_genres watched = most_liked MIN_THRESHOLD genres watched"

definition get_most_liked_actors :: "watched_content list \<Rightarrow> error + (string \<times> rat) list" where
  "get_most_liked_actors watched = most_liked MIN_THRESHOLD actors watched"

definition get_most_liked_production_companies ::
  "watched_content list \<Rightarrow> error + (string \<times> rat) list" where
  "get_most_liked_production_companies watched =
     most_liked MIN_THRESHOLD production_companies watched"

definition get_most_liked_directors :: "watched_content list \<Rightarrow> error + (string \<times> rat) list" where
  "get_most_liked_directors watched = most_liked MIN_THRESHOLD_FOR_DIRECTORS directors watched"

section \<open>Platform usage\<close>

fun platform_loop :: "watched_content list \<Rightarrow> (string, int) dict \<Rightarrow> error + (string, int) dict" where
  "platform_loop [] counter = Inr counter"
| "platform_loop (c # cs) counter =
     (case dict_iadd (if dict_contains counter (platform c) then counter
                      else dict_set (platform c) 0 counter)
             (platform c) (runtime (content c)) of
        Inl e \<Rightarrow> Inl e
      | Inr counter' \<Rightarrow> platform_loop cs counter')"

definition get_platform_usage :: "watched_content list \<Rightarrow> error + (string \<times> int) list" where
  "get_platform_usage watched = platform_loop watched []"

section \<open>Calendar activity\<close>

text \<open>
  \<^verbatim>\<open>get_activity_by_month_and_day\<close>. The loop fills the three dicts \<^verbatim>\<open>months\<close>,
  \<^verbatim>\<open>weekday\<close> and \<^verbatim>\<open>days\<close>. The function then prints the months and the weekdays and
  only after that takes \<^verbatim>\<open>max(days.items(), key=operator.itemgetter(1))\<close>; so its
  result holds the two printed tables and, for the day with the most activity, either
  the date or the exception that ends the function after the tables were printed.
  \<^verbatim>\<open>max\<close> keeps the first of several greatest elements and raises ValueError on an
  empty sequence.
\<close>

definition months_init :: "(string, int) dict" where
  "months_init = [(''January'', 0), (''February'', 0), (''March'', 0), (''April'', 0),
     (''May'', 0), (''June'', 0), (''July'', 0), (''August'', 0), (''September'', 0),
     (''October'', 0), (''November'', 0), (''December'', 0)]"

definition weekday_init :: "(string, int) dict" where
  "weekday_init = [(''Sunday'', 0), (''Monday'', 0), (''Tuesday'', 0), (''Wednesday'', 0),
     (''Thursday'', 0), (''Friday'', 0), (''Saturday'', 0)]"

fun activity_loop ::
  "watched_content list \<Rightarrow> (string, int) dict \<times> (string, int) dict \<times> (datetime, int) dict \<Rightarrow>
     error + ((string, int) dict \<times> (string, int) dict \<times> (datetime, int) dict)" where
  "activity_loop [] acc = Inr acc"
| "activity_loop (c # cs) (months, weekdays, days) =
     (case py_index month_name (month (date c)) of
        Inl e \<Rightarrow> Inl e
      | Inr mn \<Rightarrow>
     (case dict_iadd months mn (runtime (content c)) of
        Inl e \<Rightarrow> Inl e
      | Inr months' \<Rightarrow>
     (case py_index day_name (weekday (date c)) of
        Inl e \<Rightarrow> Inl e
      | Inr dn \<Rightarrow>
     (case dict_iadd weekdays dn (runtime (content c)) of
        Inl e \<Rightarrow> Inl e
      | Inr weekdays' \<Rightarrow>
     (case dict_iadd (if dict_contains days (date c) then days else dict_set (date c) 0 days)
             (date c) (runtime (content c)) of
        Inl e \<Rightarrow> Inl e
      | Inr days' \<Rightarrow> activity_loop cs (months', weekdays', days'))))))"

fun max_scan :: "('a \<Rightarrow> 'b::linorder) \<Rightarrow> 'a \<Rightarrow> 'a list \<Rightarrow> 'a" where
  "max_scan key best [] = best"
| "max_scan key best (x # xs) = max_scan key (if key best < key x then x else best) xs"

definition py_max :: "'a list \<Rightarrow> ('a \<Rightarrow> 'b::linorder) \<Rightarrow> error + 'a" where
  "py_max xs key = (case xs of [] \<Rightarrow> Inl ValueError | x # rest \<Rightarrow> Inr (max_scan key x rest))"

record activity =
  activity_months :: "(string \<times> int) list"
  activity_weekday :: "(string \<times> int) list"
  activity_max_day :: "error + datetime"

definition get_activity_by_month_and_day :: "watched_content list \<Rightarrow> error + activity" where
  "get_activity_by_month_and_day watched =
     (case activity_loop watched (months_init, weekday_init, []) of
        Inl e \<Rightarrow> Inl e
      | Inr (months, weekdays, days) \<Rightarrow>
          Inr \<lparr>activity_months = months, activity_weekday = weekdays,
               activity_max_day =
                 (case py_max days snd of Inl e \<Rightarrow> Inl e | Inr item \<Rightarrow> Inr (fst item))\<rparr>)"

section \<open>Python built-ins used by the resolver and the builder\<close>

text \<open>
  \<^verbatim>\<open>str(n)\<close> of an integer, \<^verbatim>\<open>s.split(sep)\<close> with a one-character separator and
  \<^verbatim>\<open>int(s)\<close> of a string (surrounding whitespace, an optional sign, decimal digits with
  single underscores between them), for strings of ASCII characters, where the
  whitespace \<^verbatim>\<open>int\<close> skips is the space and the characters 9 to 13.
\<close>

definition digit_char :: "nat \<Rightarrow> char" where
  "digit_char n = ''0123456789'' ! n"

fun nat_digits :: "nat \<Rightarrow> string" where
  "nat_digits n = (if n < 10 then [digit_char n] else nat_digits (n div 10) @ [digit_char (n mod 10)])"

definition py_str :: "int \<Rightarrow> string" where
  "py_str i = (if i < 0 then CHR ''-'' # nat_digits (nat (- i)) else nat_digits (nat i))"

fun py_split :: "char \<Rightarrow> string \<Rightarrow> string list" where
  "py_split sep [] = [[]]"
| "py_split sep (c # cs) =
     (if c = sep then [] # py_split sep cs
      else (case py_split sep cs of [] \<Rightarrow> [[c]] | p # ps \<Rightarrow> (c # p) # ps))"

definition is_space :: "char \<Rightarrow> bool" where
  "is_space c = (c \<in> set [CHR '' '', CHR 0x09, CHR 0x0A, CHR 0x0B, CHR 0x0C, CHR 0x0D])"

definition py_strip :: "string \<Rightarrow> string" where
  "py_strip s = rev (dropWhile is_space (rev (dropWhile is_space s)))"

definition digit_value :: "char \<Rightarrow> nat option" where
  "digit_value c =
     map_of [(CHR ''0'', 0), (CHR ''1'', 1), (CHR ''2'', 2), (CHR ''3'', 3), (CHR ''4'', 4),
       (CHR ''5'', 5), (CHR ''6'', 6), (CHR ''7'', 7), (CHR ''8'', 8), (CHR ''9'', 9)] c"

text \<open>
  The digits of \<^verbatim>\<open>int(s)\<close>: \<open>after_digit\<close> tells whether the previous character was a
  digit, which is where an underscore or the end of the string may stand.
\<close>

fun int_digits :: "string \<Rightarrow> bool \<Rightarrow> nat \<Rightarrow> nat option" where
  "int_digits [] after_digit acc = (if after_digit then Some acc else None)"
| "int_digits (c # cs) after_digit acc =
     (case digit_value c of
        Some d \<Rightarrow> int_digits cs True (10 * acc + d)
      | None \<Rightarrow> if c = CHR ''_'' \<and> after_digit then int_digits cs False acc else None)"

definition py_int :: "string \<Rightarrow> error + int" where
  "py_int s =
     (case py_strip s of
        [] \<Rightarrow> Inl ValueError
      | c # cs \<Rightarrow>
          if c = CHR ''-'' then
            (case int_digits cs False 0 of None \<Rightarrow> Inl ValueError | Some n \<Rightarrow> Inr (- int n))
          else if c = CHR ''+'' then
            (case int_digits cs False 0 of None \<Rightarrow> Inl ValueError | Some n \<Rightarrow> Inr (int n))
          else
            (case int_digits (c # cs) False 0 of None \<Rightarrow> Inl ValueError | Some n \<Rightarrow> Inr (int n)))"

text \<open>
  \<^verbatim>\<open>a, b, c = s.split(sep)\<close> followed by \<^verbatim>\<open>datetime(int(y), int(m), int(d))\<close>, where
  \<open>pick\<close> says which of the three parts is the year, the month and the day.
  Unpacking raises ValueError unless there are exactly three parts.
\<close>

definition parse_date ::
  "char \<Rightarrow> (string \<times> string \<times> string \<Rightarrow> string \<times> string \<times> string) \<Rightarrow> string \<Rightarrow> error + datetime" where
  "parse_date sep pick s =
     (case py_split sep s of
        [a, b, c] \<Rightarrow>
          (case pick (a, b, c) of
             (y, m, d) \<Rightarrow>
               (case py_int y of
                  Inl e \<Rightarrow> Inl e
                | Inr yi \<Rightarrow>
                    (case py_int m of
                       Inl e \<Rightarrow> Inl e
                     | Inr mi \<Rightarrow>
                         (case py_int d of
                            Inl e \<Rightarrow> Inl e
                          | Inr di \<Rightarrow> py_datetime yi mi di))))
      | _ \<Rightarrow> Inl ValueError)"

text \<open>
  A Python float is an IEEE 754 double; a finite one is modelled by the rational number
  it denotes. \<open>round_half_even\<close> rounds to the nearest integer, a tie going to the
  even one. \<open>float_exponent x\<close> is, for a positive \<open>x\<close>, the \<open>e\<close> with
  \<open>2 powi e \<le> x < 2 powi (e + 1)\<close>. \<open>nearest_float x\<close> is the value with 53
  significant bits nearest to \<open>x\<close>, ties to even, with the spacing
  \<open>2 powi (- 1074)\<close> of the subnormal numbers below \<open>2 powi (- 1022)\<close> and no
  bound on the exponent above.

  \<^verbatim>\<open>int(sum(xs) / len(xs))\<close>: true division of two integers raises ZeroDivisionError on
  a zero divisor, gives the float nearest to the quotient, and raises OverflowError
  when that float would be \<open>2 ^ 1024\<close> or more in absolute value; \<^verbatim>\<open>int\<close> of a
  float truncates towards zero.
\<close>

definition round_half_even :: "rat \<Rightarrow> int" where
  "round_half_even x =
     (let f = \<lfloor>x\<rfloor>; d = x - of_int f
      in if d < 1 / 2 then f else if 1 / 2 < d then f + 1 else if even f then f else f + 1)"

definition float_exponent :: "rat \<Rightarrow> int" where
  "float_exponent x =
     (case quotient_of x of
        (a, b) \<Rightarrow> let d = bitlen a - bitlen b in if x < 2 powi d then d - 1 else d)"

definition nearest_float :: "rat \<Rightarrow> rat" where
  "nearest_float x =
     (if x = 0 then 0
      else let ulp = 2 powi (max (float_exponent \<bar>x\<bar>) (- 1022) - 52)
           in sgn x * of_int (round_half_even (\<bar>x\<bar> / ulp)) * ulp)"

definition py_truediv :: "int \<Rightarrow> int \<Rightarrow> error + rat" where
  "py_truediv a b =
     (if b = 0 then Inl ZeroDivisionError
      else let q = nearest_float (of_int a / of_int b)
           in if 2 ^ 1024 \<le> \<bar>q\<bar> then Inl OverflowError else Inr q)"

definition py_int_of_float :: "rat \<Rightarrow> int" where
  "py_int_of_float q = (if 0 \<le> q then \<lfloor>q\<rfloor> else \<lceil>q\<rceil>)"

section \<open>Catalog client\<close>

text \<open>
  A response of the catalog: the url requested, the status code, the raw body and the
  parsed body (\<^verbatim>\<open>response.json()\<close>). The parsed bodies follow the catalog's schema, with
  the fields the program reads.
\<close>

record 'a response =
  url :: string
  status_code :: int
  body_text :: string
  json :: 'a

record find_movie =
  movie_result_id :: int

record find_episode =
  episode_result_id :: int
  episode_result_show_id :: int
  season_number :: int
  episode_number :: int

record find_results =
  movie_results :: "find_movie list"
  tv_episode_results :: "find_episode list"

record genre =
  genre_name :: string

record cast_member =
  cast_name :: string

record crew_member =
  crew_job :: string
  crew_name :: string

record credit_lists =
  cast :: "cast_member list"
  crew :: "crew_member list"

record company =
  company_name :: string

record content_info =
  info_genres :: "genre list"
  info_credits :: credit_lists
  info_production_companies :: "company list"

record movie_info = content_info +
  original_title :: string
  info_release_date :: string
  info_runtime :: "int option"

record show_info = content_info +
  original_name :: string
  episode_run_time :: "int list"

record episode_info =
  episode_credits :: credit_lists
  air_date :: string

text \<open>
  The four requests of \<^verbatim>\<open>APIRequests\<close>. The catalog is a parameter of the model: for each
  request, what \<^verbatim>\<open>requests.get\<close> does after the calls made so far in the run, which is
  to raise or to return a response. Whatever the remote service does during a run is
  one such catalog.
\<close>

datatype call =
    GetInfoFromImdbId string
  | GetMovieInfo string
  | GetShowInfo string
  | GetEpisodeInfo string string string

record catalog =
  find_response :: "call list \<Rightarrow> string \<Rightarrow> error + find_results response"
  movie_response :: "call list \<Rightarrow> string \<Rightarrow> error + movie_info response"
  tv_response :: "call list \<Rightarrow> string \<Rightarrow> error + show_info response"
  episode_response ::
    "call list \<Rightarrow> string \<Rightarrow> string \<Rightarrow> string \<Rightarrow> error + episode_info response"

definition process_API_response :: "'a response \<Rightarrow> int \<Rightarrow> error + unit" where
  "process_API_response response expected_status_code =
     (if status_code response \<noteq> expected_status_code
      then Inl (FailedAPIRequest (url response) expected_status_code (status_code response)
                 (body_text response))
      else Inr ())"

text \<open>
  A computation that calls the catalog takes the list of the calls made so far and
  yields its result or its exception together with the list of the calls made after it.
  \<open>io_bind\<close> runs a second computation after a first one that did not raise.
  \<open>request\<close> is the common body of the four methods of \<^verbatim>\<open>APIRequests\<close>: the call is
  made, the response goes through \<^verbatim>\<open>process_API_response\<close> and is returned.
\<close>

type_synonym 'a io = "call list \<Rightarrow> (error + 'a) \<times> call list"

definition io_return :: "'a \<Rightarrow> 'a io" where
  "io_return x calls = (Inr x, calls)"

definition io_lift :: "error + 'a \<Rightarrow> 'a io" where
  "io_lift r calls = (r, calls)"

definition io_bind :: "'a io \<Rightarrow> ('a \<Rightarrow> 'b io) \<Rightarrow> 'b io" where
  "io_bind m f calls =
     (case m calls of
        (Inl e, calls') \<Rightarrow> (Inl e, calls')
      | (Inr x, calls') \<Rightarrow> f x calls')"

definition request :: "(call list \<Rightarrow> error + 'a response) \<Rightarrow> call \<Rightarrow> 'a response io" where
  "request answer c calls =
     (case answer calls of
        Inl e \<Rightarrow> (Inl e, calls @ [c])
      | Inr response \<Rightarrow>
          (case process_API_response response STATUS_CODE_OK of
             Inl e \<Rightarrow> (Inl e, calls @ [c])
           | Inr u \<Rightarrow> (Inr response, calls @ [c])))"

definition get_info_from_imdb_id :: "catalog \<Rightarrow> string \<Rightarrow> find_results response io" where
  "get_info_from_imdb_id cat imdb_id =
     request (\<lambda>calls. find_response cat calls imdb_id) (GetInfoFromImdbId imdb_id)"

definition get_movie_info :: "catalog \<Rightarrow> string \<Rightarrow> movie_info response io" where
  "get_movie_info cat movie_id =
     request (\<lambda>calls. movie_response cat calls movie_id) (GetMovieInfo movie_id)"

definition get_show_info :: "catalog \<Rightarrow> string \<Rightarrow> show_info response io" where
  "get_show_info cat show =
     request (\<lambda>calls. tv_response cat calls show) (GetShowInfo show)"

definition get_episode_info ::
  "catalog \<Rightarrow> string \<Rightarrow> string \<Rightarrow> string \<Rightarrow> episode_info response io" where
  "get_episode_info cat show s e =
     request (\<lambda>calls. episode_response cat calls show s e) (GetEpisodeInfo show s e)"

section \<open>Content resolver\<close>

text \<open>
  \<^verbatim>\<open>Content.__init__\<close> calls methods that \<^verbatim>\<open>Movie\<close> and \<^verbatim>\<open>SeriesEpisode\<close> define; the
  record \<open>methods\<close> holds the methods of one of the two classes, and \<open>Content_init\<close>
  is the constructor's body over them. A new object has no attribute assigned.
  \<^verbatim>\<open>if self.tmdb_id:\<close> tests truthiness: \<^verbatim>\<open>None\<close> and the empty string are false.
\<close>

definition new_object :: content where
  "new_object =
     \<lparr>tmdb_id = Unset, title = Unset, genres = Unset, is_movie = Unset, is_series = Unset,
      actors = Unset, directors = Unset, production_companies = Unset,
      pruction_companies = Unset, release_date = Unset, runtime = Unset,
      show_id = Unset, season = Unset, episode = Unset\<rparr>"

definition truthy :: "string attr \<Rightarrow> bool" where
  "truthy a = (case a of Val s \<Rightarrow> s \<noteq> [] | _ \<Rightarrow> False)"

definition Content_get_genres :: "'a content_info_scheme \<Rightarrow> string list" where
  "Content_get_genres content_info = map genre_name (info_genres content_info)"

definition Content_get_actors :: "'a content_info_scheme \<Rightarrow> string list" where
  "Content_get_actors content_info =
     map cast_name (take MAX_CAST (cast (info_credits content_info)))"

definition Content_get_production_companies :: "'a content_info_scheme \<Rightarrow> string list" where
  "Content_get_production_companies content_info =
     map company_name (info_production_companies content_info)"

text \<open>The loop of both \<^verbatim>\<open>_get_directors\<close> methods over the crew, and the final slice.\<close>

definition director_names :: "crew_member list \<Rightarrow> string list" where
  "director_names crew_list =
     take MAX_DIRECTORS (map crew_name (filter (\<lambda>c. crew_job c = ''Director'') crew_list))"

record 'i methods =
  get_tmdb_id_method :: "catalog \<Rightarrow> content \<Rightarrow> string \<Rightarrow> (string attr \<times> content) io"
  get_content_info_method :: "catalog \<Rightarrow> content \<Rightarrow> 'i response io"
  get_title_method :: "'i \<Rightarrow> string"
  get_directors_method :: "catalog \<Rightarrow> content \<Rightarrow> 'i \<Rightarrow> string list io"
  get_release_date_method :: "catalog \<Rightarrow> content \<Rightarrow> 'i \<Rightarrow> datetime io"
  get_runtime_method :: "'i \<Rightarrow> error + int"

definition Content_init ::
  "'a content_info_scheme methods \<Rightarrow> catalog \<Rightarrow> content \<Rightarrow> string \<Rightarrow> bool \<Rightarrow> content io" where
  "Content_init m cat self imdb_id is_movie_arg =
     io_bind (get_tmdb_id_method m cat self imdb_id) (\<lambda>(tid, self1).
       let self2 = self1\<lparr>tmdb_id := tid\<rparr> in
       if truthy tid then
         io_bind (get_content_info_method m cat self2) (\<lambda>response.
           let content_info = json response;
               self3 = self2\<lparr>title := Val (get_title_method m content_info),
                         genres := Val (Content_get_genres content_info),
                         is_movie := Val is_movie_arg,
                         is_series := Val (\<not> is_movie_arg),
                         actors := Val (Content_get_actors content_info)\<rparr>
           in io_bind (get_directors_method m cat self3 content_info) (\<lambda>ds.
             let self4 = self3\<lparr>directors := Val ds,
                           production_companies :=
                             Val (Content_get_production_companies content_info)\<rparr>
             in io_bind (get_release_date_method m cat self4 content_info) (\<lambda>rd.
               io_bind (io_lift (get_runtime_method m content_info)) (\<lambda>rt.
                 io_return (self4\<lparr>release_date := Val rd, runtime := Val rt\<rparr>)))))
       else
         io_return (self2\<lparr>title := PyNone, genres := PyNone,
                      is_movie := Val is_movie_arg, is_series := Val (\<not> is_movie_arg),
                      actors := PyNone, directors := PyNone,
                      pruction_companies := PyNone,
                      release_date := PyNone, runtime := PyNone\<rparr>))"

subsection \<open>Movie\<close>

definition Movie_get_tmdb_id :: "catalog \<Rightarrow> content \<Rightarrow> string \<Rightarrow> (string attr \<times> content) io" where
  "Movie_get_tmdb_id cat self imdb_id =
     io_bind (get_info_from_imdb_id cat imdb_id) (\<lambda>response.
       case movie_results (json response) of
         [] \<Rightarrow> io_return (PyNone, self)
       | m # rest \<Rightarrow> io_return (Val (py_str (movie_result_id m)), self))"

definition Movie_get_content_info :: "catalog \<Rightarrow> content \<Rightarrow> movie_info response io" where
  "Movie_get_content_info cat self =
     (case tmdb_id self of
        Unset \<Rightarrow> io_lift (Inl AttributeError)
      | PyNone \<Rightarrow> io_lift (Inl TypeError)
      | Val i \<Rightarrow> get_movie_info cat i)"

definition Movie_get_title :: "movie_info \<Rightarrow> string" where
  "Movie_get_title content_info = original_title content_info"

definition Movie_get_directors :: "catalog \<Rightarrow> content \<Rightarrow> movie_info \<Rightarrow> string list io" where
  "Movie_get_directors cat self content_info =
     io_return (director_names (crew (info_credits content_info)))"

definition Movie_get_release_date :: "catalog \<Rightarrow> content \<Rightarrow> movie_info \<Rightarrow> datetime io" where
  "Movie_get_release_date cat self content_info =
     io_lift (parse_date CHR ''-'' (\<lambda>(y, m, d). (y, m, d)) (info_release_date content_info))"

text \<open>\<^verbatim>\<open>int(content_info["runtime"])\<close>: the catalog's runtime is a number or null.\<close>

definition Movie_get_runtime :: "movie_info \<Rightarrow> error + int" where
  "Movie_get_runtime content_info =
     (case info_runtime content_info of None \<Rightarrow> Inl TypeError | Some r \<Rightarrow> Inr r)"

definition Movie_methods :: "movie_info methods" where
  "Movie_methods =
     \<lparr>get_tmdb_id_method = Movie_get_tmdb_id,
      get_content_info_method = Movie_get_content_info,
      get_title_method = Movie_get_title,
      get_directors_method = Movie_get_directors,
      get_release_date_method = Movie_get_release_date,
      get_runtime_method = Movie_get_runtime\<rparr>"

definition Movie :: "catalog \<Rightarrow> string \<Rightarrow> content io" where
  "Movie cat imdb_id = Content_init Movie_methods cat new_object imdb_id True"

subsection \<open>SeriesEpisode\<close>

definition SeriesEpisode_get_tmdb_id ::
  "catalog \<Rightarrow> content \<Rightarrow> string \<Rightarrow> (string attr \<times> content) io" where
  "SeriesEpisode_get_tmdb_id cat self imdb_id =
     io_bind (get_info_from_imdb_id cat imdb_id) (\<lambda>response.
       case tv_episode_results (json response) of
         [] \<Rightarrow> io_return (PyNone, self\<lparr>show_id := PyNone, season := PyNone, episode := PyNone\<rparr>)
       | e # rest \<Rightarrow>
           io_return (Val (py_str (episode_result_id e)),
             self\<lparr>show_id := Val (py_str (episode_result_show_id e)),
                  season := Val (py_str (season_number e)),
                  episode := Val (py_str (episode_number e))\<rparr>))"

definition SeriesEpisode_get_content_info :: "catalog \<Rightarrow> content \<Rightarrow> show_info response io" where
  "SeriesEpisode_get_content_info cat self =
     (case show_id self of
        Unset \<Rightarrow> io_lift (Inl AttributeError)
      | PyNone \<Rightarrow> io_lift (Inl TypeError)
      | Val s \<Rightarrow> get_show_info cat s)"

definition SeriesEpisode_get_title :: "show_info \<Rightarrow> string" where
  "SeriesEpisode_get_title content_info = original_name content_info"

text \<open>
  \<^verbatim>\<open>self._requester.get_episode_info(self.show_id, self.season, self.episode)\<close>: the three
  attributes are read first, then the endpoint is built from them.
\<close>

definition episode_request :: "catalog \<Rightarrow> content \<Rightarrow> episode_info response io" where
  "episode_request cat self =
     (case (show_id self, season self, episode self) of
        (Val sh, Val se, Val ep) \<Rightarrow> get_episode_info cat sh se ep
      | (a, b, c) \<Rightarrow>
          io_lift (Inl (if a = Unset \<or> b = Unset \<or> c = Unset then AttributeError else TypeError)))"

definition SeriesEpisode_get_directors :: "catalog \<Rightarrow> content \<Rightarrow> show_info \<Rightarrow> string list io" where
  "SeriesEpisode_get_directors cat self content_info =
     io_bind (episode_request cat self) (\<lambda>response.
       io_return (director_names (crew (episode_credits (json response)))))"

definition SeriesEpisode_get_release_date :: "catalog \<Rightarrow> content \<Rightarrow> show_info \<Rightarrow> datetime io" where
  "SeriesEpisode_get_release_date cat self content_info =
     io_bind (episode_request cat self) (\<lambda>response.
       io_lift (parse_date CHR ''-'' (\<lambda>(y, m, d). (y, m, d)) (air_date (json response))))"

definition SeriesEpisode_get_runtime :: "show_info \<Rightarrow> error + int" where
  "SeriesEpisode_get_runtime content_info =
     (case py_truediv (sum_list (episode_run_time content_info))
             (int (length (episode_run_time content_info))) of
        Inl e \<Rightarrow> Inl e
      | Inr q \<Rightarrow> Inr (py_int_of_float q))"

definition SeriesEpisode_methods :: "show_info methods" where
  "SeriesEpisode_methods =
     \<lparr>get_tmdb_id_method = SeriesEpisode_get_tmdb_id,
      get_content_info_method = SeriesEpisode_get_content_info,
      get_title_method = SeriesEpisode_get_title,
      get_directors_method = SeriesEpisode_get_directors,
      get_release_date_method = SeriesEpisode_get_release_date,
      get_runtime_method = SeriesEpisode_get_runtime\<rparr>"

definition SeriesEpisode :: "catalog \<Rightarrow> string \<Rightarrow> content io" where
  "SeriesEpisode cat imdb_id =
     Content_init SeriesEpisode_methods cat
       (new_object\<lparr>show_id := PyNone, season := PyNone, episode := PyNone\<rparr>) imdb_id False"

section \<open>Watch event builder and main\<close>

text \<open>
  One line of the watching habits file, as \<^verbatim>\<open>csv.DictReader\<close> yields it: the six columns,
  each a string. The loop of \<^verbatim>\<open>main\<close> keeps the list \<^verbatim>\<open>watched_content\<close>; the state of
  the run also records the diagnostics printed (name and IMDB id) and the catalog calls
  made. \<open>make_content\<close> is the choice of the class (lines 570 to 573) and
  \<open>build_step\<close> one pass through the loop body: its first component is the
  exception that leaves the loop, if any. Python's \<^verbatim>\<open>float\<close> on the rating string is
  the parameter \<open>py_float\<close>.
\<close>

record raw_record =
  Date :: string
  Movie_or_Series :: string
  Name :: string
  Platform :: string
  Rating :: string
  IMDB_ID :: string

record run =
  watched_list :: "watched_content list"
  diagnostics :: "(string \<times> string) list"
  calls_made :: "call list"

definition make_content :: "catalog \<Rightarrow> raw_record \<Rightarrow> content io" where
  "make_content cat r =
     (if Movie_or_Series r = ''Movie'' then Movie cat (IMDB_ID r)
      else SeriesEpisode cat (IMDB_ID r))"

definition build_step ::
  "(string \<Rightarrow> error + rat) \<Rightarrow> catalog \<Rightarrow> raw_record \<Rightarrow> run \<Rightarrow> error option \<times> run" where
  "build_step py_float cat r st =
     (case make_content cat r (calls_made st) of
        (Inl e, calls) \<Rightarrow> (Some e, st\<lparr>calls_made := calls\<rparr>)
      | (Inr c, calls) \<Rightarrow>
          (let st1 = st\<lparr>calls_made := calls\<rparr> in
           case tmdb_id c of
             Unset \<Rightarrow> (Some AttributeError, st1)
           | PyNone \<Rightarrow> (None, st1\<lparr>diagnostics := diagnostics st1 @ [(Name r, IMDB_ID r)]\<rparr>)
           | Val i \<Rightarrow>
               (case parse_date CHR ''/'' (\<lambda>(m, d, y). (y, m, d)) (Date r) of
                  Inl e \<Rightarrow> (Some e, st1)
                | Inr dt \<Rightarrow>
                    (case py_float (Rating r) of
                       Inl e \<Rightarrow> (Some e, st1)
                     | Inr rt \<Rightarrow>
                         (None, st1\<lparr>watched_list := watched_list st1 @
                                  [\<lparr>content = c, platform = Platform r, date = dt,
                                    rating = rt\<rparr>]\<rparr>)))))"

fun build_loop ::
  "(string \<Rightarrow> error + rat) \<Rightarrow> catalog \<Rightarrow> raw_record list \<Rightarrow> run \<Rightarrow> error option \<times> run" where
  "build_loop py_float cat [] st = (None, st)"
| "build_loop py_float cat (r # rs) st =
     (case build_step py_float cat r st of
        (Some e, st') \<Rightarrow> (Some e, st')
      | (None, st') \<Rightarrow> build_loop py_float cat rs st')"

text \<open>
  The eleven reports \<^verbatim>\<open>main\<close> prints after the loop, in its order; an exception in one
  of them ends the run. \<open>main\<close> yields the reports or the exception that ended the run,
  with the state the loop reached.
\<close>

record reports =
  most_watched_genres :: "(string \<times> int) list"
  most_liked_genres :: "(string \<times> rat) list"
  amounts :: "int \<times> int \<times> int \<times> int"
  platform_usage :: "(string \<times> int) list"
  most_watched_actors :: "(string \<times> int) list"
  most_liked_actors :: "(string \<times> rat) list"
  most_watched_production_companies :: "(string \<times> int) list"
  most_liked_production_companies :: "(string \<times> rat) list"
  most_watched_directors :: "(string \<times> int) list"
  most_liked_directors :: "(string \<times> rat) list"
  activity_months_and_weekdays :: "(string \<times> int) list \<times> (string \<times> int) list"
  most_active_day :: datetime

definition and_then :: "error + 'a \<Rightarrow> ('a \<Rightarrow> error + 'b) \<Rightarrow> error + 'b" where
  "and_then r f = (case r of Inl e \<Rightarrow> Inl e | Inr x \<Rightarrow> f x)"

definition run_reports :: "watched_content list \<Rightarrow> error + reports" where
  "run_reports watched =
     and_then (get_most_watched_genres watched) (\<lambda>r1.
     and_then (get_most_liked_genres watched) (\<lambda>r2.
     and_then (get_amount_of_movies_and_series_watched watched) (\<lambda>r3.
     and_then (get_platform_usage watched) (\<lambda>r4.
     and_then (get_most_watched_actors watched) (\<lambda>r5.
     and_then (get_most_liked_actors watched) (\<lambda>r6.
     and_then (get_most_watched_production_companies watched) (\<lambda>r7.
     and_then (get_most_liked_production_companies watched) (\<lambda>r8.
     and_then (get_most_watched_directors watched) (\<lambda>r9.
     and_then (get_most_liked_directors watched) (\<lambda>r10.
     and_then (get_activity_by_month_and_day watched) (\<lambda>a.
     and_then (activity_max_day a) (\<lambda>d.
       Inr \<lparr>most_watched_genres = r1, most_liked_genres = r2, amounts = r3,
            platform_usage = r4, most_watched_actors = r5, most_liked_actors = r6,
            most_watched_production_companies = r7, most_liked_production_companies = r8,
            most_watched_directors = r9, most_liked_directors = r10,
            activity_months_and_weekdays = (activity_months a, activity_weekday a),
            most_active_day = d\<rparr>))))))))))))"

definition main ::
  "(string \<Rightarrow> error + rat) \<Rightarrow> catalog \<Rightarrow> raw_record list \<Rightarrow> (error + reports) \<times> run" where
  "main py_float cat watching_habits_raw =
     (case build_loop py_float cat watching_habits_raw
             \<lparr>watched_list = [], diagnostics = [], calls_made = []\<rparr> of
        (Some e, st) \<Rightarrow> (Inl e, st)
      | (None, st) \<Rightarrow> (run_reports (watched_list st), st))"

section \<open>Watch events\<close>

text \<open>
  A Watch Event of the specification: a watched content whose content was resolved, so
  that every metadata attribute holds a value, watched on a date that a
  \<^verbatim>\<open>datetime\<close> object can hold.
\<close>

definition has_val :: "'a attr \<Rightarrow> bool" where
  "has_val a = (case a of Val v \<Rightarrow> True | _ \<Rightarrow> False)"

definition resolved :: "content \<Rightarrow> bool" where
  "resolved c =
     (has_val (tmdb_id c) \<and> has_val (title c) \<and> has_val (genres c) \<and>
      has_val (is_movie c) \<and> has_val (is_series c) \<and> has_val (actors c) \<and>
      has_val (directors c) \<and> has_val (production_companies c) \<and>
      has_val (release_date c) \<and> has_val (runtime c))"

definition watch_event :: "watched_content \<Rightarrow> bool" where
  "watch_event w = (resolved (content w) \<and> valid_date (date w))"

definition runtime_of :: "watched_content \<Rightarrow> int" where
  "runtime_of w = (case runtime (content w) of Val r \<Rightarrow> r | _ \<Rightarrow> 0)"

definition total_runtime :: "watched_content list \<Rightarrow> int" where
  "total_runtime ws = sum_list (map runtime_of ws)"

definition is_movie_event :: "watched_content \<Rightarrow> bool" where
  "is_movie_event w = (is_movie (content w) = Val True)"

section \<open>What the reports and the resolver are compared with\<close>

text \<open>
  The runtime watched on one date, in one month and on one weekday, written as sums over
  the collection.
\<close>

definition date_total :: "watched_content list \<Rightarrow> datetime \<Rightarrow> int" where
  "date_total ws x = total_runtime (filter (\<lambda>w. date w = x) ws)"

definition month_total :: "watched_content list \<Rightarrow> string \<Rightarrow> int" where
  "month_total ws n =
     total_runtime (filter (\<lambda>w. py_index month_name (month (date w)) = Inr n) ws)"

definition weekday_total :: "watched_content list \<Rightarrow> string \<Rightarrow> int" where
  "weekday_total ws n =
     total_runtime (filter (\<lambda>w. py_index day_name (weekday (date w)) = Inr n) ws)"

text \<open>
  The values an event lists in one attribute, the runtime watched for one of them
  (an event counts once for each time its list holds the value), the number of times a
  value occurs, and the sum and the mean of the ratings over these occurrences.
  \<open>sum_ranking\<close> says what the specification asks of a most-watched report and
  \<open>average_ranking\<close> what it asks of a best-rated report with threshold \<open>t\<close>.
\<close>

definition values_of :: "(content \<Rightarrow> 'k list attr) \<Rightarrow> watched_content \<Rightarrow> 'k list" where
  "values_of field w = (case field (content w) of Val xs \<Rightarrow> xs | _ \<Rightarrow> [])"

definition key_total :: "(content \<Rightarrow> 'k list attr) \<Rightarrow> watched_content list \<Rightarrow> 'k \<Rightarrow> int" where
  "key_total field ws k =
     sum_list (map (\<lambda>w. int (count_list (values_of field w) k) * runtime_of w) ws)"

definition occurrences :: "(content \<Rightarrow> 'k list attr) \<Rightarrow> watched_content list \<Rightarrow> 'k \<Rightarrow> int" where
  "occurrences field ws k = sum_list (map (\<lambda>w. int (count_list (values_of field w) k)) ws)"

definition rating_total :: "(content \<Rightarrow> 'k list attr) \<Rightarrow> watched_content list \<Rightarrow> 'k \<Rightarrow> rat" where
  "rating_total field ws k =
     sum_list (map (\<lambda>w. of_nat (count_list (values_of field w) k) * rating w) ws)"

definition average_rating :: "(content \<Rightarrow> 'k list attr) \<Rightarrow> watched_content list \<Rightarrow> 'k \<Rightarrow> rat" where
  "average_rating field ws k = rating_total field ws k / of_int (occurrences field ws k)"

definition sum_ranking ::
  "(content \<Rightarrow> string list attr) \<Rightarrow> watched_content list \<Rightarrow> (string \<times> int) list \<Rightarrow> bool" where
  "sum_ranking field ws rep =
     (set (map fst rep) \<subseteq> (\<Union>w \<in> set ws. set (values_of field w)) \<and>
      distinct (map fst rep) \<and>
      list_all (\<lambda>(k, v). 0 \<le> v \<and> v = key_total field ws k) rep \<and>
      sorted_wrt (\<lambda>a b. b \<le> a) (map snd rep) \<and>
      length rep \<le> 20)"

definition average_ranking ::
  "int \<Rightarrow> (content \<Rightarrow> string list attr) \<Rightarrow> watched_content list \<Rightarrow> (string \<times> rat) list \<Rightarrow> bool" where
  "average_ranking t field ws rep =
     (distinct (map fst rep) \<and>
      list_all (\<lambda>(k, v). t \<le> occurrences field ws k \<and> v = average_rating field ws k) rep \<and>
      sorted_wrt (\<lambda>a b. b \<le> a) (map snd rep) \<and>
      length rep \<le> 20)"

text \<open>
  \<open>zero_matches\<close>: the catalog has no entry for the external id of a record, that is,
  the find request, made after the given calls, succeeds and the list the chosen class
  reads is empty. \<open>unresolved_fields\<close> is the state the \<^verbatim>\<open>else\<close> branch of
  \<^verbatim>\<open>Content.__init__\<close> leaves; \<open>unresolved_movie\<close> and \<open>unresolved_episode\<close> are the
  objects it leaves for the two classes.
  \<open>truncated_mean\<close> is the integer-truncated mean of the specification: the
  exact quotient of the sum by the length, rounded towards zero.
\<close>

definition zero_matches :: "catalog \<Rightarrow> call list \<Rightarrow> raw_record \<Rightarrow> bool" where
  "zero_matches cat calls r =
     (case find_response cat calls (IMDB_ID r) of
        Inl e \<Rightarrow> False
      | Inr response \<Rightarrow>
          status_code response = STATUS_CODE_OK \<and>
          (if Movie_or_Series r = ''Movie'' then movie_results (json response) = []
           else tv_episode_results (json response) = []))"

definition unresolved_fields :: "bool \<Rightarrow> content \<Rightarrow> content" where
  "unresolved_fields is_movie_arg self =
     self\<lparr>title := PyNone, genres := PyNone,
          is_movie := Val is_movie_arg, is_series := Val (\<not> is_movie_arg),
          actors := PyNone, directors := PyNone, pruction_companies := PyNone,
          release_date := PyNone, runtime := PyNone\<rparr>"

definition unresolved_movie :: content where
  "unresolved_movie =
     \<lparr>tmdb_id = PyNone, title = PyNone, genres = PyNone, is_movie = Val True,
      is_series = Val False, actors = PyNone, directors = PyNone,
      production_companies = Unset, pruction_companies = PyNone, release_date = PyNone,
      runtime = PyNone, show_id = Unset, season = Unset, episode = Unset\<rparr>"

definition unresolved_episode :: content where
  "unresolved_episode =
     \<lparr>tmdb_id = PyNone, title = PyNone, genres = PyNone, is_movie = Val False,
      is_series = Val True, actors = PyNone, directors = PyNone,
      production_companies = Unset, pruction_companies = PyNone, release_date = PyNone,
      runtime = PyNone, show_id = PyNone, season = PyNone, episode = PyNone\<rparr>"

definition truncated_mean :: "int list \<Rightarrow> int" where
  "truncated_mean xs =
     (let s = sum_list xs; n = int (length xs)
      in if 0 \<le> s then s div n else - ((- s) div n))"

section \<open>Example data\<close>

text \<open>
  The scenario of the specification: one movie with genres Drama and War and a runtime of
  120 minutes, rated 8.0 and watched on Monday 1 March 2021; and one episode of 45 minutes
  watched the day after.
\<close>

definition example_movie :: content where
  "example_movie =
     \<lparr>tmdb_id = Val ''857'', title = Val ''Saving Private Ryan'',
      genres = Val [''Drama'', ''War''], is_movie = Val True, is_series = Val False,
      actors = Val [''Tom Hanks'', ''Matt Damon''], directors = Val [''Steven Spielberg''],
      production_companies = Val [''DreamWorks Pictures''], pruction_companies = Unset,
      release_date = Val \<lparr>year = 1998, month = 7, day = 24\<rparr>, runtime = Val 120,
      show_id = Unset, season = Unset, episode = Unset\<rparr>"

definition example_episode :: content where
  "example_episode =
     \<lparr>tmdb_id = Val ''62085'', title = Val ''Breaking Bad'',
      genres = Val [''Drama'', ''Crime''], is_movie = Val False, is_series = Val True,
      actors = Val [''Bryan Cranston'', ''Aaron Paul''], directors = Val [''Vince Gilligan''],
      production_companies = Val [''Sony Pictures Television''], pruction_companies = Unset,
      release_date = Val \<lparr>year = 2008, month = 1, day = 20\<rparr>, runtime = Val 45,
      show_id = Val ''1396'', season = Val ''1'', episode = Val ''1''\<rparr>"

definition example_movie_event :: watched_content where
  "example_movie_event =
     \<lparr>content = example_movie, platform = ''Netflix'',
      date = \<lparr>year = 2021, month = 3, day = 1\<rparr>, rating = 8\<rparr>"

definition example_episode_event :: watched_content where
  "example_episode_event =
     \<lparr>content = example_episode, platform = ''Netflix'',
      date = \<lparr>year = 2021, month = 3, day = 2\<rparr>, rating = 9\<rparr>"

definition example_long_movie_event :: watched_content where
  "example_long_movie_event =
     \<lparr>content = example_movie\<lparr>runtime := Val 150\<rparr>, platform = ''Cinema'',
      date = \<lparr>year = 2021, month = 3, day = 2\<rparr>, rating = 7\<rparr>"

definition example_same_day_event :: watched_content where
  "example_same_day_event =
     \<lparr>content = example_episode, platform = ''Netflix'',
      date = \<lparr>year = 2021, month = 3, day = 1\<rparr>, rating = 6\<rparr>"

text \<open>
  A catalog with one movie, one episode of a series with declared runtimes, one episode
  of a series with none, an external id it has no entry for, and a rate limit (status
  429) on every other request, whatever the calls made before; and five lines of a
  watching habits file.
\<close>

definition ok_response :: "'a \<Rightarrow> error + 'a response" where
  "ok_response j =
     Inr \<lparr>url = ''https://api.themoviedb.org/3'', status_code = 200, body_text = ''ok'',
          json = j\<rparr>"

definition rate_limited :: "'a \<Rightarrow> error + 'a response" where
  "rate_limited j =
     Inr \<lparr>url = ''https://api.themoviedb.org/3'', status_code = 429,
          body_text = ''Your request count is over the allowed limit.'', json = j\<rparr>"

definition no_results :: find_results where
  "no_results = \<lparr>movie_results = [], tv_episode_results = []\<rparr>"

definition movie_857 :: movie_info where
  "movie_857 =
     \<lparr>info_genres = [\<lparr>genre_name = ''Drama''\<rparr>, \<lparr>genre_name = ''War''\<rparr>],
      info_credits =
        \<lparr>cast = [\<lparr>cast_name = ''Tom Hanks''\<rparr>, \<lparr>cast_name = ''Matt Damon''\<rparr>],
         crew = [\<lparr>crew_job = ''Producer'', crew_name = ''Ian Bryce''\<rparr>,
                 \<lparr>crew_job = ''Director'', crew_name = ''Steven Spielberg''\<rparr>]\<rparr>,
      info_production_companies = [\<lparr>company_name = ''DreamWorks Pictures''\<rparr>],
      original_title = ''Saving Private Ryan'',
      info_release_date = ''1998-07-24'',
      info_runtime = Some 120\<rparr>"

definition show_1396 :: show_info where
  "show_1396 =
     \<lparr>info_genres = [\<lparr>genre_name = ''Drama''\<rparr>, \<lparr>genre_name = ''Crime''\<rparr>],
      info_credits =
        \<lparr>cast = [\<lparr>cast_name = ''Bryan Cranston''\<rparr>, \<lparr>cast_name = ''Aaron Paul''\<rparr>],
         crew = []\<rparr>,
      info_production_companies = [\<lparr>company_name = ''Sony Pictures Television''\<rparr>],
      original_name = ''Breaking Bad'',
      episode_run_time = [45, 46]\<rparr>"

definition show_1399 :: show_info where
  "show_1399 =
     \<lparr>info_genres = [\<lparr>genre_name = ''Drama''\<rparr>],
      info_credits = \<lparr>cast = [\<lparr>cast_name = ''Sean Bean''\<rparr>], crew = []\<rparr>,
      info_production_companies = [\<lparr>company_name = ''HBO''\<rparr>],
      original_name = ''Game of Thrones'',
      episode_run_time = []\<rparr>"

definition episode_1396_1_1 :: episode_info where
  "episode_1396_1_1 =
     \<lparr>episode_credits =
        \<lparr>cast = [],
         crew = [\<lparr>crew_job = ''Director'', crew_name = ''Vince Gilligan''\<rparr>,
                 \<lparr>crew_job = ''Writer'', crew_name = ''Vince Gilligan''\<rparr>]\<rparr>,
      air_date = ''2008-01-20''\<rparr>"

definition episode_1399_1_1 :: episode_info where
  "episode_1399_1_1 =
     \<lparr>episode_credits =
        \<lparr>cast = [], crew = [\<lparr>crew_job = ''Director'', crew_name = ''Tim Van Patten''\<rparr>]\<rparr>,
      air_date = ''2011-04-17''\<rparr>"

definition example_catalog :: catalog where
  "example_catalog =
     \<lparr>find_response = (\<lambda>calls i.
        if i = ''tt0120815''
        then ok_response \<lparr>movie_results = [\<lparr>movie_result_id = 857\<rparr>], tv_episode_results = []\<rparr>
        else if i = ''tt0959621''
        then ok_response \<lparr>movie_results = [],
               tv_episode_results = [\<lparr>episode_result_id = 62085, episode_result_show_id = 1396,
                                       season_number = 1, episode_number = 1\<rparr>]\<rparr>
        else if i = ''tt1480055''
        then ok_response \<lparr>movie_results = [],
               tv_episode_results = [\<lparr>episode_result_id = 63056, episode_result_show_id = 1399,
                                       season_number = 1, episode_number = 1\<rparr>]\<rparr>
        else if i = ''tt0000000'' then ok_response no_results
        else rate_limited no_results),
      movie_response = (\<lambda>calls i.
        if i = ''857'' then ok_response movie_857 else rate_limited movie_857),
      tv_response = (\<lambda>calls i.
        if i = ''1396'' then ok_response show_1396
        else if i = ''1399'' then ok_response show_1399
        else rate_limited show_1399),
      episode_response = (\<lambda>calls sh se ep.
        if sh = ''1396'' \<and> se = ''1'' \<and> ep = ''1'' then ok_response episode_1396_1_1
        else if sh = ''1399'' \<and> se = ''1'' \<and> ep = ''1'' then ok_response episode_1399_1_1
        else rate_limited episode_1399_1_1)\<rparr>"

text \<open>
  A series whose declared runtime is \<open>2 ^ 53 + 1\<close> minutes, which no float denotes,
  the catalog that answers every series request with it, and the episode object that
  the resolution builds from this catalog.
\<close>

definition wide_show :: show_info where
  "wide_show =
     \<lparr>info_genres = [\<lparr>genre_name = ''Drama''\<rparr>, \<lparr>genre_name = ''Crime''\<rparr>],
      info_credits =
        \<lparr>cast = [\<lparr>cast_name = ''Bryan Cranston''\<rparr>, \<lparr>cast_name = ''Aaron Paul''\<rparr>],
         crew = []\<rparr>,
      info_production_companies = [\<lparr>company_name = ''Sony Pictures Television''\<rparr>],
      original_name = ''Breaking Bad'',
      episode_run_time = [9007199254740993]\<rparr>"

definition wide_catalog :: catalog where
  "wide_catalog = example_catalog\<lparr>tv_response := (\<lambda>calls i. ok_response wide_show)\<rparr>"

definition wide_episode :: content where
  "wide_episode = example_episode\<lparr>runtime := Val 9007199254740992\<rparr>"

text \<open>An instance of \<^verbatim>\<open>float\<close> for the examples: it reads whole numbers.\<close>

definition example_float :: "string \<Rightarrow> error + rat" where
  "example_float s = (case py_int s of Inl e \<Rightarrow> Inl e | Inr i \<Rightarrow> Inr (of_int i))"

definition movie_record :: raw_record where
  "movie_record =
     \<lparr>Date = ''3/1/2021'', Movie_or_Series = ''Movie'', Name = ''Saving Private Ryan'',
      Platform = ''Netflix'', Rating = ''8'', IMDB_ID = ''tt0120815''\<rparr>"

definition episode_record :: raw_record where
  "episode_record =
     \<lparr>Date = ''3/2/2021'', Movie_or_Series = ''Series'', Name = ''Breaking Bad'',
      Platform = ''Netflix'', Rating = ''9'', IMDB_ID = ''tt0959621''\<rparr>"

definition unknown_record :: raw_record where
  "unknown_record =
     \<lparr>Date = ''3/3/2021'', Movie_or_Series = ''Movie'', Name = ''Home video'',
      Platform = ''Plex'', Rating = ''7'', IMDB_ID = ''tt0000000''\<rparr>"

definition failing_record :: raw_record where
  "failing_record =
     \<lparr>Date = ''3/4/2021'', Movie_or_Series = ''Movie'', Name = ''Heat'',
      Platform = ''Netflix'', Rating = ''9'', IMDB_ID = ''tt0113277''\<rparr>"

definition empty_runtime_record :: raw_record where
  "empty_runtime_record =
     \<lparr>Date = ''3/5/2021'', Movie_or_Series = ''Series'', Name = ''Game of Thrones'',
      Platform = ''HBO'', Rating = ''9'', IMDB_ID = ''tt1480055''\<rparr>"

definition start :: run where
  "start = \<lparr>watched_list = [], diagnostics = [], calls_made = []\<rparr>"

section \<open>Lemmas\<close>

subsection \<open>Attributes\<close>

lemma has_val_iff: "has_val a \<longleftrightarrow> (\<exists>v. a = Val v)"
  by (cases a) (simp_all add: has_val_def)

lemma resolved_runtime: "resolved c \<Longrightarrow> \<exists>r. runtime c = Val r"
  by (simp add: resolved_def has_val_iff)

lemma resolved_is_movie: "resolved c \<Longrightarrow> \<exists>b. is_movie c = Val b"
  by (simp add: resolved_def has_val_iff)

subsection \<open>Category totals\<close>

lemma amount_loop_totals:
  assumes "\<forall>w \<in> set ws. watch_event w"
  shows "amount_loop ws (mc, mm, sc, sm) =
           Inr (mc + int (length (filter is_movie_event ws)),
                mm + total_runtime (filter is_movie_event ws),
                sc + int (length (filter (\<lambda>w. \<not> is_movie_event w) ws)),
                sm + total_runtime (filter (\<lambda>w. \<not> is_movie_event w) ws))"
  using assms
proof (induction ws arbitrary: mc mm sc sm)
  case Nil
  then show ?case by (simp add: total_runtime_def)
next
  case (Cons w ws)
  from Cons.prems have res: "resolved (content w)" and rest: "\<forall>w \<in> set ws. watch_event w"
    by (simp_all add: watch_event_def)
  from res obtain r where r: "runtime (content w) = Val r"
    using resolved_runtime by blast
  from res obtain b where mv: "is_movie (content w) = Val b"
    using resolved_is_movie by blast
  show ?case
  proof (cases "is_movie_event w")
    case True
    with r mv show ?thesis
      by (simp add: Cons.IH [OF rest] is_movie_event_def runtime_of_def total_runtime_def)
  next
    case False
    with mv have "b = False"
      by (simp add: is_movie_event_def)
    with r mv show ?thesis
      by (simp add: Cons.IH [OF rest] is_movie_event_def runtime_of_def total_runtime_def)
  qed
qed

lemma total_runtime_partition:
  "total_runtime (filter P ws) + total_runtime (filter (\<lambda>w. \<not> P w) ws) = total_runtime ws"
  by (induction ws) (simp_all add: total_runtime_def)

subsection \<open>Dictionaries\<close>

lemma dict_iadd_InrD:
  assumes "dict_iadd d k a = Inr d'"
  obtains v r where "map_of d k = Some v" "a = Val r" "d' = AList.update k (v + r) d"
  using assms by (auto simp: dict_iadd_def dict_set_def split: option.splits attr.splits)

lemma update_present_keys: "map_of d k = Some v \<Longrightarrow> map fst (AList.update k u d) = map fst d"
  by (induction d) (auto split: if_splits)

lemma update_present_sum:
  "map_of d k = Some v \<Longrightarrow> sum_list (map snd (AList.update k (v + r) d)) = sum_list (map snd d) + (r::int)"
  by (induction d) (auto split: if_splits)

lemma dict_iadd_keys: "dict_iadd d k a = Inr d' \<Longrightarrow> map fst d' = map fst d"
  by (erule dict_iadd_InrD) (simp add: update_present_keys)

lemma dict_iadd_sum:
  "dict_iadd d k a = Inr d' \<Longrightarrow> sum_list (map snd d') = sum_list (map snd d) + (case a of Val r \<Rightarrow> r | _ \<Rightarrow> 0)"
  by (erule dict_iadd_InrD) (simp add: update_present_sum)

lemma dict_iadd_new_map_of:
  assumes "dict_iadd (if dict_contains days k then days else dict_set k 0 days) k a = Inr days'"
  shows "\<exists>r. a = Val r \<and> map_of days' = (map_of days)(k \<mapsto> (case map_of days k of None \<Rightarrow> r | Some v \<Rightarrow> v + r))"
  using assms
  by (auto simp: dict_contains_def dict_set_def update_conv' elim!: dict_iadd_InrD split: if_splits)

lemma dict_iadd_new_distinct:
  assumes "dict_iadd (if dict_contains days k then days else dict_set k 0 days) k a = Inr days'"
    and "distinct (map fst days)"
  shows "distinct (map fst days')"
  using assms
  by (auto simp: dict_contains_def dict_set_def distinct_update elim!: dict_iadd_InrD split: if_splits)

lemma dict_iadd_map_of:
  assumes "dict_iadd d k a = Inr d'"
  shows "\<exists>v r. map_of d k = Some v \<and> a = Val r \<and> map_of d' = (map_of d)(k \<mapsto> v + r)"
  using assms by (auto simp: update_conv' elim!: dict_iadd_InrD)

lemma dict_iadd_returns:
  assumes "k \<in> set (map fst d)"
  shows "\<exists>d'. dict_iadd d k (Val r) = Inr d'"
proof -
  from assms obtain v where "map_of d k = Some v"
    by (cases "map_of d k") (auto simp: map_of_eq_None_iff)
  then show ?thesis by (simp add: dict_iadd_def)
qed

lemma dict_iadd_new_returns:
  "\<exists>d'. dict_iadd (if dict_contains days k then days else dict_set k 0 days) k (Val r) = Inr d'"
  by (rule dict_iadd_returns) (auto simp: dict_contains_def dict_set_def dom_update map_of_eq_None_iff)

subsection \<open>Calendar activity\<close>

lemma month_name_key:
  assumes "1 \<le> m" "m \<le> 12"
  shows "\<exists>n. py_index month_name m = Inr n \<and> n \<in> set (map fst months_init)"
proof -
  from assms have "m = 1 \<or> m = 2 \<or> m = 3 \<or> m = 4 \<or> m = 5 \<or> m = 6 \<or> m = 7 \<or> m = 8 \<or>
      m = 9 \<or> m = 10 \<or> m = 11 \<or> m = 12"
    by arith
  then show ?thesis
    by (elim disjE) (simp_all add: py_index_def month_name_def months_init_def)
qed

lemma day_name_key:
  "\<exists>n. py_index day_name (weekday d) = Inr n \<and> n \<in> set (map fst weekday_init)"
proof -
  have "0 \<le> weekday d" "weekday d < 7"
    by (simp_all add: weekday_def)
  then have "weekday d = 0 \<or> weekday d = 1 \<or> weekday d = 2 \<or> weekday d = 3 \<or>
      weekday d = 4 \<or> weekday d = 5 \<or> weekday d = 6"
    by arith
  then show ?thesis
    by (elim disjE) (simp_all add: py_index_def day_name_def weekday_init_def)
qed

lemma activity_loop_keys:
  "activity_loop ws (m, w, d) = Inr (m', w', d') \<Longrightarrow> map fst m' = map fst m \<and> map fst w' = map fst w"
proof (induction ws arbitrary: m w d)
  case Nil
  then show ?case by simp
next
  case (Cons c cs)
  then show ?case
    by (fastforce split: sum.splits dest: dict_iadd_keys)
qed

lemma activity_loop_sums:
  "activity_loop ws (m, w, d) = Inr (m', w', d') \<Longrightarrow>
     sum_list (map snd m') = sum_list (map snd m) + total_runtime ws \<and>
     sum_list (map snd w') = sum_list (map snd w) + total_runtime ws"
proof (induction ws arbitrary: m w d)
  case Nil
  then show ?case by (simp add: total_runtime_def)
next
  case (Cons c cs)
  from Cons.prems obtain mn m1 dn w1 d1 where
    m1: "dict_iadd m mn (runtime (content c)) = Inr m1" and
    w1: "dict_iadd w dn (runtime (content c)) = Inr w1" and
    rest: "activity_loop cs (m1, w1, d1) = Inr (m', w', d')"
    by (auto split: sum.splits)
  from m1 have "sum_list (map snd m1) = sum_list (map snd m) + runtime_of c"
    by (auto simp: runtime_of_def update_present_sum elim!: dict_iadd_InrD)
  moreover from w1 have "sum_list (map snd w1) = sum_list (map snd w) + runtime_of c"
    by (auto simp: runtime_of_def update_present_sum elim!: dict_iadd_InrD)
  ultimately show ?case
    using Cons.IH [OF rest] by (simp add: total_runtime_def)
qed

lemma activity_loop_days_distinct:
  "activity_loop ws (m, w, d) = Inr (m', w', d') \<Longrightarrow> distinct (map fst d) \<Longrightarrow> distinct (map fst d')"
proof (induction ws arbitrary: m w d)
  case Nil
  then show ?case by simp
next
  case (Cons c cs)
  from Cons.prems(1) obtain m1 w1 d1 where
    d1: "dict_iadd (if dict_contains d (date c) then d else dict_set (date c) 0 d)
           (date c) (runtime (content c)) = Inr d1" and
    rest: "activity_loop cs (m1, w1, d1) = Inr (m', w', d')"
    by (auto split: sum.splits)
  from dict_iadd_new_distinct [OF d1 Cons.prems(2)] Cons.IH [OF rest] show ?case by blast
qed

lemma activity_loop_days_map_of:
  "activity_loop ws (m, w, d) = Inr (m', w', d') \<Longrightarrow>
     map_of d' x =
       (case map_of d x of
          None \<Rightarrow> if x \<in> date ` set ws then Some (date_total ws x) else None
        | Some v \<Rightarrow> Some (v + date_total ws x))"
proof (induction ws arbitrary: m w d)
  case Nil
  then show ?case by (simp add: date_total_def total_runtime_def split: option.splits)
next
  case (Cons c cs)
  from Cons.prems(1) obtain m1 w1 d1 where
    d1: "dict_iadd (if dict_contains d (date c) then d else dict_set (date c) 0 d)
           (date c) (runtime (content c)) = Inr d1" and
    rest: "activity_loop cs (m1, w1, d1) = Inr (m', w', d')"
    by (auto split: sum.splits)
  from dict_iadd_new_map_of [OF d1] obtain r where
    r: "runtime (content c) = Val r" and
    upd: "map_of d1 = (map_of d)(date c \<mapsto> (case map_of d (date c) of None \<Rightarrow> r | Some v \<Rightarrow> v + r))"
    by blast
  from r have rc: "runtime_of c = r" by (simp add: runtime_of_def)
  show ?case
    using Cons.IH [OF rest, of ] upd rc
    by (auto simp: date_total_def total_runtime_def split: option.splits)
qed

lemma activity_loop_buckets:
  "activity_loop ws (m, w, d) = Inr (m', w', d') \<Longrightarrow>
     map_of m' n = (case map_of m n of None \<Rightarrow> None | Some v \<Rightarrow> Some (v + month_total ws n)) \<and>
     map_of w' n = (case map_of w n of None \<Rightarrow> None | Some v \<Rightarrow> Some (v + weekday_total ws n))"
proof (induction ws arbitrary: m w d)
  case Nil
  then show ?case
    by (simp add: month_total_def weekday_total_def total_runtime_def split: option.splits)
next
  case (Cons c cs)
  from Cons.prems obtain mn m1 dn w1 d1 where
    mn: "py_index month_name (month (date c)) = Inr mn" and
    m1: "dict_iadd m mn (runtime (content c)) = Inr m1" and
    dn: "py_index day_name (weekday (date c)) = Inr dn" and
    w1: "dict_iadd w dn (runtime (content c)) = Inr w1" and
    rest: "activity_loop cs (m1, w1, d1) = Inr (m', w', d')"
    by (auto split: sum.splits)
  from dict_iadd_map_of [OF m1] obtain v r where
    v: "map_of m mn = Some v" and r: "runtime (content c) = Val r" and
    m1_eq: "map_of m1 = (map_of m)(mn \<mapsto> v + r)"
    by blast
  from dict_iadd_map_of [OF w1] r obtain u where
    u: "map_of w dn = Some u" and w1_eq: "map_of w1 = (map_of w)(dn \<mapsto> u + r)"
    by auto
  from r have rc: "runtime_of c = r" by (simp add: runtime_of_def)
  have "map_of m' n = (case map_of m n of None \<Rightarrow> None | Some v \<Rightarrow> Some (v + month_total (c # cs) n))"
    using Cons.IH [OF rest] mn v m1_eq rc
    by (auto simp: month_total_def total_runtime_def split: option.splits)
  moreover
  have "map_of w' n = (case map_of w n of None \<Rightarrow> None | Some v \<Rightarrow> Some (v + weekday_total (c # cs) n))"
    using Cons.IH [OF rest] dn u w1_eq rc
    by (auto simp: weekday_total_def total_runtime_def split: option.splits)
  ultimately show ?case by simp
qed

lemma activity_loop_returns:
  assumes "\<forall>c \<in> set ws. watch_event c"
    and "map fst m = map fst months_init" and "map fst w = map fst weekday_init"
  shows "\<exists>acc. activity_loop ws (m, w, d) = Inr acc"
  using assms
proof (induction ws arbitrary: m w d)
  case Nil
  then show ?case by simp
next
  case (Cons c cs)
  from Cons.prems(1) have ev: "watch_event c" and rest: "\<forall>c \<in> set cs. watch_event c"
    by simp_all
  from ev obtain r where r: "runtime (content c) = Val r"
    using resolved_runtime by (auto simp: watch_event_def)
  from ev have "1 \<le> month (date c)" "month (date c) \<le> 12"
    by (simp_all add: watch_event_def valid_date_def)
  then obtain mn where mn: "py_index month_name (month (date c)) = Inr mn"
    and mn_key: "mn \<in> set (map fst m)"
    using month_name_key Cons.prems(2) by metis
  obtain dn where dn: "py_index day_name (weekday (date c)) = Inr dn"
    and dn_key: "dn \<in> set (map fst w)"
    using day_name_key Cons.prems(3) by metis
  from dict_iadd_returns [OF mn_key] obtain m1 where m1: "dict_iadd m mn (Val r) = Inr m1"
    by blast
  from dict_iadd_returns [OF dn_key] obtain w1 where w1: "dict_iadd w dn (Val r) = Inr w1"
    by blast
  obtain d1 where d1: "dict_iadd (if dict_contains d (date c) then d else dict_set (date c) 0 d)
      (date c) (Val r) = Inr d1"
    using dict_iadd_new_returns [of d "date c" r] by blast
  have "map fst m1 = map fst months_init" "map fst w1 = map fst weekday_init"
    using dict_iadd_keys [OF m1] dict_iadd_keys [OF w1] Cons.prems(2,3) by simp_all
  from Cons.IH [OF rest this] obtain acc where "activity_loop cs (m1, w1, d1) = Inr acc"
    by blast
  with r mn dn m1 w1 d1 show ?case by (cases acc) simp
qed

lemma max_scan_mem: "max_scan key b xs \<in> set (b # xs)"
  by (induction xs arbitrary: b) (auto split: if_splits)

lemma max_scan_ge: "x \<in> set (b # xs) \<Longrightarrow> key x \<le> key (max_scan key b xs)"
proof (induction xs arbitrary: b x)
  case Nil
  then show ?case by simp
next
  case (Cons y ys)
  have le: "key b \<le> key (max_scan key (if key b < key y then y else b) ys)"
  proof (cases "key b < key y")
    case True
    then have "key y \<le> key (max_scan key (if key b < key y then y else b) ys)"
      using Cons.IH [of y y] by simp
    with True show ?thesis by simp
  next
    case False
    then show ?thesis using Cons.IH [of b b] by simp
  qed
  from Cons.prems consider "x = b" | "x = y" | "x \<in> set ys" by auto
  then show ?case
  proof cases
    case 1
    with le show ?thesis by simp
  next
    case 2
    show ?thesis
    proof (cases "key b < key y")
      case True
      with 2 show ?thesis using Cons.IH [of y y] by simp
    next
      case False
      with 2 le show ?thesis by simp
    qed
  next
    case 3
    then show ?thesis using Cons.IH [of x "if key b < key y then y else b"] by simp
  qed
qed

lemma py_max_strict:
  assumes "(k, t) \<in> set d" and "distinct (map fst d)"
    and "\<forall>(k', t') \<in> set d. k' \<noteq> k \<longrightarrow> t' < t"
  shows "py_max d snd = Inr (k, t)"
proof (cases d)
  case Nil
  with assms(1) show ?thesis by simp
next
  case (Cons b xs)
  let ?r = "max_scan snd b xs"
  have mem: "?r \<in> set d" using max_scan_mem [of snd b xs] Cons by simp
  have "snd (k, t) \<le> snd ?r" using max_scan_ge [of "(k, t)" b xs snd] assms(1) Cons by simp
  then have ge: "t \<le> snd ?r" by simp
  have "fst ?r = k"
  proof (rule ccontr)
    assume "fst ?r \<noteq> k"
    with assms(3) mem have "snd ?r < t" by (cases ?r) auto
    with ge show False by simp
  qed
  moreover obtain a u where r: "?r = (a, u)" by (cases ?r)
  ultimately have "(k, u) \<in> set d" using mem by simp
  with assms(1,2) have "u = t" by (rule_tac eq_key_imp_eq_value)
  with r \<open>fst ?r = k\<close> have "?r = (k, t)" by simp
  with Cons show ?thesis by (simp add: py_max_def)
qed

subsection \<open>Sorting and printing\<close>

lemma set_insert_desc: "set (insert_desc key x ys) = insert x (set ys)"
  by (induction ys) auto

lemma length_insert_desc: "length (insert_desc key x ys) = Suc (length ys)"
  by (induction ys) auto

lemma distinct_insert_desc: "distinct (insert_desc key x ys) \<longleftrightarrow> x \<notin> set ys \<and> distinct ys"
  by (induction ys) (auto simp: set_insert_desc)

lemma sorted_insert_desc:
  "sorted_wrt (\<lambda>a b. key b \<le> key a) ys \<Longrightarrow> sorted_wrt (\<lambda>a b. key b \<le> key a) (insert_desc key x ys)"
  by (induction ys) (auto simp: set_insert_desc)

lemma set_sorted_reverse: "set (sorted_reverse key xs) = set xs"
  by (induction xs) (simp_all add: sorted_reverse_def set_insert_desc)

lemma length_sorted_reverse: "length (sorted_reverse key xs) = length xs"
  by (induction xs) (simp_all add: sorted_reverse_def length_insert_desc)

lemma distinct_sorted_reverse: "distinct xs \<Longrightarrow> distinct (sorted_reverse key xs)"
  by (induction xs) (simp_all add: sorted_reverse_def distinct_insert_desc set_sorted_reverse [unfolded sorted_reverse_def])

lemma sorted_sorted_reverse: "sorted_wrt (\<lambda>a b. key b \<le> key a) (sorted_reverse key xs)"
  by (induction xs) (simp_all add: sorted_reverse_def sorted_insert_desc)

lemma set_nlargest: "set (nlargest n xs key) \<subseteq> set xs"
  using set_take_subset [of n "sorted_reverse key xs"] by (simp add: nlargest_def set_sorted_reverse)

lemma length_nlargest: "length (nlargest n xs key) \<le> n"
  by (simp add: nlargest_def)

lemma distinct_nlargest: "distinct xs \<Longrightarrow> distinct (nlargest n xs key)"
  by (simp add: nlargest_def distinct_sorted_reverse)

lemma sorted_nlargest: "sorted_wrt (\<lambda>a b. key b \<le> key a) (nlargest n xs key)"
  by (simp add: nlargest_def sorted_sorted_reverse sorted_wrt_take)

lemma report_entries_returns:
  assumes "set xs \<subseteq> fst ` set scores"
  shows "\<exists>out. report_entries scores xs = Inr out \<and> map fst out = xs \<and>
           map (\<lambda>p. Some (snd p)) out = map (map_of scores) xs"
  using assms
proof (induction xs)
  case Nil
  then show ?case by simp
next
  case (Cons x xs)
  then obtain out where out: "report_entries scores xs = Inr out" "map fst out = xs"
    "map (\<lambda>p. Some (snd p)) out = map (map_of scores) xs"
    by auto
  from Cons.prems obtain v where v: "map_of scores x = Some v"
    by (cases "map_of scores x") (auto simp: map_of_eq_None_iff)
  with out show ?case by (simp add: dict_getitem_def)
qed

lemma top_n_report_returns:
  "\<exists>out. top_n_report scores = Inr out \<and> set (map fst out) \<subseteq> fst ` set scores \<and>
     length out \<le> TOP_N \<and> (distinct (map fst scores) \<longrightarrow> distinct (map fst out)) \<and>
     sorted_wrt (\<lambda>a b. b \<le> a) (map snd out) \<and>
     (\<forall>(k, v) \<in> set out. map_of scores k = Some v)"
proof -
  let ?top = "nlargest TOP_N (map fst scores) (map_of scores)"
  have sub: "set ?top \<subseteq> fst ` set scores"
    using set_nlargest [of TOP_N "map fst scores" "map_of scores"] by simp
  from report_entries_returns [OF sub] obtain out where
    out: "report_entries scores ?top = Inr out" "map fst out = ?top"
      "map (\<lambda>p. Some (snd p)) out = map (map_of scores) ?top"
    by blast
  have len: "length out \<le> TOP_N"
    using length_nlargest [of TOP_N "map fst scores" "map_of scores"] out(2)
    by (metis length_map)
  have srt: "sorted_wrt (\<lambda>a b. b \<le> a) (map snd out)"
  proof -
    have "sorted_wrt (\<lambda>a b. b \<le> a) (map (map_of scores) ?top)"
      using sorted_nlargest [of "map_of scores" TOP_N "map fst scores"]
      by (simp add: sorted_wrt_map)
    then have "sorted_wrt (\<lambda>a b. b \<le> a) (map (\<lambda>p. Some (snd p)) out)"
      by (simp add: out(3))
    then show ?thesis by (simp add: sorted_wrt_map)
  qed
  have val: "\<forall>(k, v) \<in> set out. map_of scores k = Some v"
  proof (clarify)
    fix k v assume kv: "(k, v) \<in> set out"
    then obtain i where i: "i < length out" "out ! i = (k, v)"
      by (auto simp: in_set_conv_nth)
    from i have "map (\<lambda>p. Some (snd p)) out ! i = Some v" by simp
    moreover from i out(2) have "?top ! i = k" "i < length ?top"
      by (metis fst_conv nth_map, metis length_map)
    ultimately show "map_of scores k = Some v"
      using out(3) by (metis nth_map)
  qed
  have keys: "set (map fst out) \<subseteq> fst ` set scores"
    unfolding out(2) by (rule sub)
  have dist: "distinct (map fst scores) \<longrightarrow> distinct (map fst out)"
    unfolding out(2) by (simp add: distinct_nlargest)
  have "top_n_report scores = Inr out"
    by (simp add: top_n_report_def out(1))
  with keys len dist srt val show ?thesis by blast
qed

subsection \<open>Most watched\<close>

lemma add_runtime_map_of:
  "add_runtime ks rt scores = Inr scores' \<Longrightarrow>
     map_of scores' k =
       (case map_of scores k of
          None \<Rightarrow> if k \<in> set ks
                  then Some (int (count_list ks k) * (case rt of Val r \<Rightarrow> r | _ \<Rightarrow> 0)) else None
        | Some v \<Rightarrow> Some (v + int (count_list ks k) * (case rt of Val r \<Rightarrow> r | _ \<Rightarrow> 0)))"
proof (induction ks arbitrary: scores)
  case Nil
  then show ?case by (simp split: option.splits)
next
  case (Cons k0 ks)
  from Cons.prems obtain s1 where
    s1: "dict_iadd (if dict_contains scores k0 then scores else dict_set k0 0 scores) k0 rt = Inr s1"
    and rest: "add_runtime ks rt s1 = Inr scores'"
    by (auto split: sum.splits)
  from dict_iadd_new_map_of [OF s1] obtain r where r: "rt = Val r" and
    upd: "map_of s1 = (map_of scores)(k0 \<mapsto> (case map_of scores k0 of None \<Rightarrow> r | Some v \<Rightarrow> v + r))"
    by blast
  show ?case
    using Cons.IH [OF rest] r upd
    by (auto simp: algebra_simps split: option.splits)
qed

lemma add_runtime_distinct:
  "add_runtime ks rt scores = Inr scores' \<Longrightarrow> distinct (map fst scores) \<Longrightarrow>
     distinct (map fst scores')"
proof (induction ks arbitrary: scores)
  case Nil
  then show ?case by simp
next
  case (Cons k0 ks)
  from Cons.prems(1) obtain s1 where
    s1: "dict_iadd (if dict_contains scores k0 then scores else dict_set k0 0 scores) k0 rt = Inr s1"
    and rest: "add_runtime ks rt s1 = Inr scores'"
    by (auto split: sum.splits)
  from dict_iadd_new_distinct [OF s1 Cons.prems(2)] Cons.IH [OF rest] show ?case by blast
qed

lemma add_runtime_returns: "\<exists>scores'. add_runtime ks (Val r) scores = Inr scores'"
proof (induction ks arbitrary: scores)
  case Nil
  then show ?case by simp
next
  case (Cons k0 ks)
  obtain s1 where
    s1: "dict_iadd (if dict_contains scores k0 then scores else dict_set k0 0 scores) k0 (Val r) = Inr s1"
    using dict_iadd_new_returns [of scores k0 r] by blast
  with Cons.IH [of s1] show ?case by simp
qed

lemma watched_scores_map_of:
  "watched_scores field ws scores = Inr scores' \<Longrightarrow>
     map_of scores' k =
       (case map_of scores k of
          None \<Rightarrow> if k \<in> (\<Union>w \<in> set ws. set (values_of field w))
                  then Some (key_total field ws k) else None
        | Some v \<Rightarrow> Some (v + key_total field ws k))"
proof (induction ws arbitrary: scores)
  case Nil
  then show ?case by (simp add: key_total_def split: option.splits)
next
  case (Cons c cs)
  from Cons.prems obtain ks s1 where
    ks: "iter_attr (field (content c)) = Inr ks" and
    s1: "add_runtime ks (runtime (content c)) scores = Inr s1" and
    rest: "watched_scores field cs s1 = Inr scores'"
    by (auto split: sum.splits)
  from ks have vals: "values_of field c = ks"
    by (auto simp: iter_attr_def values_of_def split: attr.splits)
  have rt: "(case runtime (content c) of Val r \<Rightarrow> r | _ \<Rightarrow> 0) = runtime_of c"
    by (simp add: runtime_of_def)
  have cnt: "k \<notin> set ks \<Longrightarrow> count_list ks k = 0"
    by simp
  show ?case
    using Cons.IH [OF rest] add_runtime_map_of [OF s1, of k] vals rt cnt
    by (auto simp: key_total_def algebra_simps split: option.splits if_splits)
qed

lemma watched_scores_distinct:
  "watched_scores field ws scores = Inr scores' \<Longrightarrow> distinct (map fst scores) \<Longrightarrow>
     distinct (map fst scores')"
proof (induction ws arbitrary: scores)
  case Nil
  then show ?case by simp
next
  case (Cons c cs)
  from Cons.prems(1) obtain ks s1 where
    s1: "add_runtime ks (runtime (content c)) scores = Inr s1" and
    rest: "watched_scores field cs s1 = Inr scores'"
    by (auto split: sum.splits)
  from add_runtime_distinct [OF s1 Cons.prems(2)] Cons.IH [OF rest] show ?case by blast
qed

lemma watched_scores_returns:
  assumes "\<forall>w \<in> set ws. has_val (field (content w)) \<and> has_val (runtime (content w))"
  shows "\<exists>scores'. watched_scores field ws scores = Inr scores'"
  using assms
proof (induction ws arbitrary: scores)
  case Nil
  then show ?case by simp
next
  case (Cons c cs)
  from Cons.prems obtain ks r where ks: "field (content c) = Val ks" and r: "runtime (content c) = Val r"
    by (auto simp: has_val_iff)
  obtain s1 where s1: "add_runtime ks (Val r) scores = Inr s1"
    using add_runtime_returns by blast
  from Cons.IH [of s1] Cons.prems obtain s2 where "watched_scores field cs s1 = Inr s2"
    by auto
  with ks r s1 show ?case by (simp add: iter_attr_def)
qed

lemma key_total_nonneg:
  assumes "\<forall>w \<in> set ws. 0 \<le> runtime_of w"
  shows "0 \<le> key_total field ws k"
  unfolding key_total_def using assms by (intro sum_list_nonneg) auto

lemma most_watched_ranking:
  assumes "\<forall>w \<in> set ws. has_val (field (content w)) \<and> has_val (runtime (content w))"
  shows "\<exists>rep. most_watched field ws = Inr rep \<and>
           set (map fst rep) \<subseteq> (\<Union>w \<in> set ws. set (values_of field w)) \<and>
           distinct (map fst rep) \<and>
           (\<forall>(k, v) \<in> set rep. v = key_total field ws k) \<and>
           sorted_wrt (\<lambda>a b. b \<le> a) (map snd rep) \<and>
           length rep \<le> 20"
proof -
  from watched_scores_returns [OF assms] obtain scores where
    scores: "watched_scores field ws [] = Inr scores"
    by blast
  have dist: "distinct (map fst scores)"
    using watched_scores_distinct [OF scores] by simp
  have lookup: "map_of scores k =
      (if k \<in> (\<Union>w \<in> set ws. set (values_of field w)) then Some (key_total field ws k) else None)" for k
    using watched_scores_map_of [OF scores, of k] by simp
  from top_n_report_returns [of scores] obtain rep where
    rep: "top_n_report scores = Inr rep" "set (map fst rep) \<subseteq> fst ` set scores"
      "length rep \<le> TOP_N" "distinct (map fst scores) \<longrightarrow> distinct (map fst rep)"
      "sorted_wrt (\<lambda>a b. b \<le> a) (map snd rep)"
      "\<forall>(k, v) \<in> set rep. map_of scores k = Some v"
    by blast
  have res: "most_watched field ws = Inr rep"
    by (simp add: most_watched_def scores rep(1))
  have vals: "\<forall>(k, v) \<in> set rep.
      k \<in> (\<Union>w \<in> set ws. set (values_of field w)) \<and> v = key_total field ws k"
  proof (clarify)
    fix k v assume "(k, v) \<in> set rep"
    with rep(6) have "map_of scores k = Some v" by auto
    with lookup [of k] show "k \<in> (\<Union>w \<in> set ws. set (values_of field w)) \<and> v = key_total field ws k"
      by (auto split: if_splits)
  qed
  then have keys: "set (map fst rep) \<subseteq> (\<Union>w \<in> set ws. set (values_of field w))"
    by fastforce
  from vals have tot: "\<forall>(k, v) \<in> set rep. v = key_total field ws k"
    by blast
  from rep(3) have len: "length rep \<le> 20" by (simp add: TOP_N_def)
  from res keys rep(4) dist tot rep(5) len show ?thesis by blast
qed

lemma most_watched_sum_ranking:
  assumes "\<forall>w \<in> set ws. has_val (field (content w)) \<and> has_val (runtime (content w)) \<and> 0 \<le> runtime_of w"
  shows "\<exists>rep. most_watched field ws = Inr rep \<and> sum_ranking field ws rep"
proof -
  from assms have "\<forall>w \<in> set ws. has_val (field (content w)) \<and> has_val (runtime (content w))"
    by blast
  from most_watched_ranking [OF this] obtain rep where
    rep: "most_watched field ws = Inr rep"
      "set (map fst rep) \<subseteq> (\<Union>w \<in> set ws. set (values_of field w))"
      "distinct (map fst rep)"
      "\<forall>(k, v) \<in> set rep. v = key_total field ws k"
      "sorted_wrt (\<lambda>a b. b \<le> a) (map snd rep)"
      "length rep \<le> 20"
    by blast
  from assms have "\<forall>w \<in> set ws. 0 \<le> runtime_of w" by blast
  then have "0 \<le> key_total field ws k" for k
    by (rule key_total_nonneg)
  with rep(4) have "list_all (\<lambda>(k, v). 0 \<le> v \<and> v = key_total field ws k) rep"
    by (auto simp: list_all_iff)
  with rep show ?thesis
    unfolding sum_ranking_def by blast
qed

subsection \<open>Most liked\<close>

lemma add_rating_step:
  assumes "fst ` set ratings = fst ` set amount"
  shows "\<exists>v n. dict_getitem (if dict_contains ratings k then ratings else dict_set k 0 ratings) k = Inr v \<and>
     dict_getitem (if dict_contains ratings k then amount else dict_set k 0 amount) k = Inr n \<and>
     v = (case map_of ratings k of None \<Rightarrow> 0 | Some x \<Rightarrow> x) \<and>
     n = (case map_of amount k of None \<Rightarrow> 0 | Some x \<Rightarrow> x)"
proof (cases "map_of ratings k")
  case None
  then have "k \<notin> fst ` set amount"
    using assms by (simp add: map_of_eq_None_iff)
  then have "map_of amount k = None"
    by (simp add: map_of_eq_None_iff)
  with None show ?thesis
    by (simp add: dict_contains_def dict_getitem_def dict_set_def update_conv')
next
  case (Some x)
  then have "k \<in> fst ` set amount"
    using assms by (metis map_of_eq_None_iff option.distinct(1))
  then obtain y where "map_of amount k = Some y"
    by (cases "map_of amount k") (auto simp: map_of_eq_None_iff)
  with Some show ?thesis
    by (simp add: dict_contains_def dict_getitem_def)
qed

lemma add_rating_result:
  assumes "fst ` set ratings = fst ` set amount"
  shows "\<exists>ratings' amount'.
     add_rating ks r (ratings, amount) = Inr (ratings', amount') \<and>
     fst ` set ratings' = fst ` set amount' \<and>
     (distinct (map fst ratings) \<longrightarrow> distinct (map fst ratings')) \<and>
     (\<forall>k. map_of amount' k =
        (case map_of amount k of
           None \<Rightarrow> if k \<in> set ks then Some (int (count_list ks k)) else None
         | Some n \<Rightarrow> Some (n + int (count_list ks k)))) \<and>
     (\<forall>k. map_of ratings' k =
        (case map_of ratings k of
           None \<Rightarrow> if k \<in> set ks then Some (of_nat (count_list ks k) * r) else None
         | Some v \<Rightarrow> Some (v + of_nat (count_list ks k) * r)))"
  using assms
proof (induction ks arbitrary: ratings amount)
  case Nil
  then show ?case by (simp split: option.splits)
next
  case (Cons k0 ks)
  let ?r1 = "if dict_contains ratings k0 then ratings else dict_set k0 0 ratings"
  let ?a1 = "if dict_contains ratings k0 then amount else dict_set k0 0 amount"
  from add_rating_step [OF Cons.prems, of k0] obtain v n where
    v: "dict_getitem ?r1 k0 = Inr v" and n: "dict_getitem ?a1 k0 = Inr n" and
    v_eq: "v = (case map_of ratings k0 of None \<Rightarrow> 0 | Some x \<Rightarrow> x)" and
    n_eq: "n = (case map_of amount k0 of None \<Rightarrow> 0 | Some x \<Rightarrow> x)"
    by blast
  let ?r2 = "dict_set k0 (v + r) ?r1"
  let ?a2 = "dict_set k0 (n + 1) ?a1"
  have keys2: "fst ` set ?r2 = fst ` set ?a2"
    using Cons.prems by (simp add: dict_set_def dom_update)
  have dist2: "distinct (map fst ratings) \<longrightarrow> distinct (map fst ?r2)"
    by (simp add: dict_set_def distinct_update)
  have r2: "map_of ?r2 = (map_of ratings)(k0 \<mapsto> v + r)"
    by (simp add: dict_set_def update_conv')
  have a2: "map_of ?a2 = (map_of amount)(k0 \<mapsto> n + 1)"
    by (simp add: dict_set_def update_conv')
  from Cons.IH [OF keys2] obtain ratings' amount' where
    rest: "add_rating ks r (?r2, ?a2) = Inr (ratings', amount')" and
    keys': "fst ` set ratings' = fst ` set amount'" and
    dist': "distinct (map fst ?r2) \<longrightarrow> distinct (map fst ratings')" and
    am': "\<forall>k. map_of amount' k =
        (case map_of ?a2 k of
           None \<Rightarrow> if k \<in> set ks then Some (int (count_list ks k)) else None
         | Some n \<Rightarrow> Some (n + int (count_list ks k)))" and
    ra': "\<forall>k. map_of ratings' k =
        (case map_of ?r2 k of
           None \<Rightarrow> if k \<in> set ks then Some (of_nat (count_list ks k) * r) else None
         | Some v \<Rightarrow> Some (v + of_nat (count_list ks k) * r))"
    by blast
  have step: "add_rating (k0 # ks) r (ratings, amount) = Inr (ratings', amount')"
    using v n rest by (simp add: Let_def)
  have am: "map_of amount' k =
        (case map_of amount k of
           None \<Rightarrow> if k \<in> set (k0 # ks) then Some (int (count_list (k0 # ks) k)) else None
         | Some n \<Rightarrow> Some (n + int (count_list (k0 # ks) k)))" for k
    using am' [rule_format, of k] n_eq unfolding a2
    by (auto split: option.splits)
  have ra: "map_of ratings' k =
        (case map_of ratings k of
           None \<Rightarrow> if k \<in> set (k0 # ks) then Some (of_nat (count_list (k0 # ks) k) * r) else None
         | Some v \<Rightarrow> Some (v + of_nat (count_list (k0 # ks) k) * r))" for k
    using ra' [rule_format, of k] v_eq unfolding r2
    by (auto simp: algebra_simps split: option.splits)
  from step keys' dist2 dist' am ra show ?case by blast
qed

lemma watched_ratings_result:
  assumes "fst ` set ratings = fst ` set amount"
    and "\<forall>w \<in> set ws. has_val (field (content w))"
  shows "\<exists>ratings' amount'.
     watched_ratings field ws (ratings, amount) = Inr (ratings', amount') \<and>
     fst ` set ratings' = fst ` set amount' \<and>
     (distinct (map fst ratings) \<longrightarrow> distinct (map fst ratings')) \<and>
     (\<forall>k. map_of amount' k =
        (case map_of amount k of
           None \<Rightarrow> if k \<in> (\<Union>w \<in> set ws. set (values_of field w))
                   then Some (occurrences field ws k) else None
         | Some n \<Rightarrow> Some (n + occurrences field ws k))) \<and>
     (\<forall>k. map_of ratings' k =
        (case map_of ratings k of
           None \<Rightarrow> if k \<in> (\<Union>w \<in> set ws. set (values_of field w))
                   then Some (rating_total field ws k) else None
         | Some v \<Rightarrow> Some (v + rating_total field ws k)))"
  using assms
proof (induction ws arbitrary: ratings amount)
  case Nil
  then show ?case by (simp add: occurrences_def rating_total_def split: option.splits)
next
  case (Cons c cs)
  from Cons.prems(2) obtain ks where ks: "field (content c) = Val ks"
    by (auto simp: has_val_iff)
  then have vals: "values_of field c = ks"
    by (simp add: values_of_def)
  from add_rating_result [OF Cons.prems(1), of ks "rating c"] obtain r1 a1 where
    s1: "add_rating ks (rating c) (ratings, amount) = Inr (r1, a1)" and
    keys1: "fst ` set r1 = fst ` set a1" and
    dist1: "distinct (map fst ratings) \<longrightarrow> distinct (map fst r1)" and
    am1: "\<forall>k. map_of a1 k =
        (case map_of amount k of
           None \<Rightarrow> if k \<in> set ks then Some (int (count_list ks k)) else None
         | Some n \<Rightarrow> Some (n + int (count_list ks k)))" and
    ra1: "\<forall>k. map_of r1 k =
        (case map_of ratings k of
           None \<Rightarrow> if k \<in> set ks then Some (of_nat (count_list ks k) * rating c) else None
         | Some v \<Rightarrow> Some (v + of_nat (count_list ks k) * rating c))"
    by blast
  from Cons.prems(2) have rest_ok: "\<forall>w \<in> set cs. has_val (field (content w))"
    by simp
  from Cons.IH [OF keys1 rest_ok] obtain ratings' amount' where
    rest: "watched_ratings field cs (r1, a1) = Inr (ratings', amount')" and
    keys': "fst ` set ratings' = fst ` set amount'" and
    dist': "distinct (map fst r1) \<longrightarrow> distinct (map fst ratings')" and
    am': "\<forall>k. map_of amount' k =
        (case map_of a1 k of
           None \<Rightarrow> if k \<in> (\<Union>w \<in> set cs. set (values_of field w))
                   then Some (occurrences field cs k) else None
         | Some n \<Rightarrow> Some (n + occurrences field cs k))" and
    ra': "\<forall>k. map_of ratings' k =
        (case map_of r1 k of
           None \<Rightarrow> if k \<in> (\<Union>w \<in> set cs. set (values_of field w))
                   then Some (rating_total field cs k) else None
         | Some v \<Rightarrow> Some (v + rating_total field cs k))"
    by blast
  have step: "watched_ratings field (c # cs) (ratings, amount) = Inr (ratings', amount')"
    using ks s1 rest by (simp add: iter_attr_def)
  have cnt: "k \<notin> set ks \<Longrightarrow> count_list ks k = 0" for k
    by simp
  have am: "map_of amount' k =
        (case map_of amount k of
           None \<Rightarrow> if k \<in> (\<Union>w \<in> set (c # cs). set (values_of field w))
                   then Some (occurrences field (c # cs) k) else None
         | Some n \<Rightarrow> Some (n + occurrences field (c # cs) k))" for k
    using am' [rule_format, of k] am1 [rule_format, of k] vals cnt [of k]
    by (auto simp: occurrences_def split: option.splits if_splits)
  have ra: "map_of ratings' k =
        (case map_of ratings k of
           None \<Rightarrow> if k \<in> (\<Union>w \<in> set (c # cs). set (values_of field w))
                   then Some (rating_total field (c # cs) k) else None
         | Some v \<Rightarrow> Some (v + rating_total field (c # cs) k))" for k
    using ra' [rule_format, of k] ra1 [rule_format, of k] vals cnt [of k]
    by (auto simp: rating_total_def split: option.splits if_splits)
  from step keys' dist1 dist' am ra show ?case by blast
qed

lemma threshold_scores_result:
  assumes "0 < t" and "distinct (map fst items)" and "fst ` set items \<subseteq> fst ` set amount"
  shows "\<exists>scores'.
     threshold_scores t items amount scores = Inr scores' \<and>
     (distinct (map fst scores) \<longrightarrow> distinct (map fst scores')) \<and>
     (\<forall>k. map_of scores' k =
        (case map_of items k of
           None \<Rightarrow> map_of scores k
         | Some r \<Rightarrow>
             (case map_of amount k of
                None \<Rightarrow> map_of scores k
              | Some n \<Rightarrow> if n < t then map_of scores k else Some (r / of_int n))))"
  using assms(2,3)
proof (induction items arbitrary: scores)
  case Nil
  then show ?case by simp
next
  case (Cons item items)
  obtain k0 r0 where item: "item = (k0, r0)" by (cases item)
  from Cons.prems item have fresh: "k0 \<notin> fst ` set items" and dist: "distinct (map fst items)"
    and sub: "fst ` set items \<subseteq> fst ` set amount" and "k0 \<in> fst ` set amount"
    by auto
  then obtain n where n: "map_of amount k0 = Some n"
    by (cases "map_of amount k0") (auto simp: map_of_eq_None_iff)
  from fresh have none: "map_of items k0 = None"
    by (simp add: map_of_eq_None_iff)
  show ?case
  proof (cases "n < t")
    case True
    from Cons.IH [OF dist sub, of scores] obtain scores' where
      rest: "threshold_scores t items amount scores = Inr scores'" and
      dist': "distinct (map fst scores) \<longrightarrow> distinct (map fst scores')" and
      lk: "\<forall>k. map_of scores' k =
        (case map_of items k of
           None \<Rightarrow> map_of scores k
         | Some r \<Rightarrow>
             (case map_of amount k of
                None \<Rightarrow> map_of scores k
              | Some n \<Rightarrow> if n < t then map_of scores k else Some (r / of_int n)))"
      by blast
    have "threshold_scores t (item # items) amount scores = Inr scores'"
      using item n True rest by (simp add: dict_getitem_def)
    moreover have "map_of scores' k =
        (case map_of (item # items) k of
           None \<Rightarrow> map_of scores k
         | Some r \<Rightarrow>
             (case map_of amount k of
                None \<Rightarrow> map_of scores k
              | Some n \<Rightarrow> if n < t then map_of scores k else Some (r / of_int n)))" for k
      using lk [rule_format, of k] item n True none by (auto split: option.splits)
    ultimately show ?thesis using dist' by blast
  next
    case False
    with assms(1) have nz: "n \<noteq> 0" by simp
    let ?s1 = "dict_set k0 (r0 / of_int n) scores"
    from Cons.IH [OF dist sub, of ?s1] obtain scores' where
      rest: "threshold_scores t items amount ?s1 = Inr scores'" and
      dist': "distinct (map fst ?s1) \<longrightarrow> distinct (map fst scores')" and
      lk: "\<forall>k. map_of scores' k =
        (case map_of items k of
           None \<Rightarrow> map_of ?s1 k
         | Some r \<Rightarrow>
             (case map_of amount k of
                None \<Rightarrow> map_of ?s1 k
              | Some n \<Rightarrow> if n < t then map_of ?s1 k else Some (r / of_int n)))"
      by blast
    have s1: "map_of ?s1 = (map_of scores)(k0 \<mapsto> r0 / of_int n)"
      by (simp add: dict_set_def update_conv')
    have d1: "distinct (map fst scores) \<longrightarrow> distinct (map fst ?s1)"
      by (simp add: dict_set_def distinct_update)
    have "threshold_scores t (item # items) amount scores = Inr scores'"
      using item n False nz rest by (simp add: dict_getitem_def)
    moreover have "map_of scores' k =
        (case map_of (item # items) k of
           None \<Rightarrow> map_of scores k
         | Some r \<Rightarrow>
             (case map_of amount k of
                None \<Rightarrow> map_of scores k
              | Some n \<Rightarrow> if n < t then map_of scores k else Some (r / of_int n)))" for k
      using lk [rule_format, of k] item n False none unfolding s1
      by (auto split: option.splits)
    ultimately show ?thesis using dist' d1 by blast
  qed
qed

lemma most_liked_ranking:
  assumes "0 < t" and "\<forall>w \<in> set ws. has_val (field (content w))"
  shows "\<exists>rep. most_liked t field ws = Inr rep \<and> average_ranking t field ws rep \<and>
           (\<forall>k. occurrences field ws k < t \<longrightarrow> k \<notin> set (map fst rep))"
proof -
  let ?U = "\<Union>w \<in> set ws. set (values_of field w)"
  have "fst ` set ([] :: (string \<times> rat) list) = fst ` set ([] :: (string \<times> int) list)"
    by simp
  from watched_ratings_result [OF this assms(2)] obtain ratings amount where
    loop: "watched_ratings field ws ([], []) = Inr (ratings, amount)" and
    keys: "fst ` set ratings = fst ` set amount" and
    dist: "distinct (map fst ratings)" and
    am: "\<forall>k. map_of amount k = (if k \<in> ?U then Some (occurrences field ws k) else None)" and
    ra: "\<forall>k. map_of ratings k = (if k \<in> ?U then Some (rating_total field ws k) else None)"
    by auto
  from keys have sub: "fst ` set ratings \<subseteq> fst ` set amount" by simp
  from threshold_scores_result [OF assms(1) dist sub, of "[]"] obtain scores where
    thr: "threshold_scores t ratings amount [] = Inr scores" and
    sdist0: "distinct (map fst ([] :: (string \<times> rat) list)) \<longrightarrow> distinct (map fst scores)" and
    sc: "\<forall>k. map_of scores k =
        (case map_of ratings k of
           None \<Rightarrow> map_of [] k
         | Some r \<Rightarrow>
             (case map_of amount k of
                None \<Rightarrow> map_of [] k
              | Some n \<Rightarrow> if n < t then map_of [] k else Some (r / of_int n)))"
    by blast
  from sdist0 have sdist: "distinct (map fst scores)" by simp
  have lookup: "map_of scores k =
      (if k \<in> ?U \<and> t \<le> occurrences field ws k then Some (average_rating field ws k) else None)" for k
    using sc [rule_format, of k] am [rule_format, of k] ra [rule_format, of k]
    by (auto simp: average_rating_def)
  from top_n_report_returns [of scores] obtain rep where
    rep: "top_n_report scores = Inr rep"
      "length rep \<le> TOP_N" "distinct (map fst scores) \<longrightarrow> distinct (map fst rep)"
      "sorted_wrt (\<lambda>a b. b \<le> a) (map snd rep)"
      "\<forall>(k, v) \<in> set rep. map_of scores k = Some v"
    by blast
  have res: "most_liked t field ws = Inr rep"
    by (simp add: most_liked_def loop thr rep(1))
  have vals: "\<forall>(k, v) \<in> set rep. t \<le> occurrences field ws k \<and> v = average_rating field ws k"
  proof (clarify)
    fix k v assume "(k, v) \<in> set rep"
    with rep(5) have "map_of scores k = Some v" by auto
    with lookup [of k] show "t \<le> occurrences field ws k \<and> v = average_rating field ws k"
      by (auto split: if_splits)
  qed
  then have all: "list_all (\<lambda>(k, v). t \<le> occurrences field ws k \<and> v = average_rating field ws k) rep"
    by (simp add: list_all_iff)
  from rep(2) have len: "length rep \<le> 20" by (simp add: TOP_N_def)
  have ranking: "average_ranking t field ws rep"
    unfolding average_ranking_def using rep(3,4) sdist all len by blast
  have below: "\<forall>k. occurrences field ws k < t \<longrightarrow> k \<notin> set (map fst rep)"
    using vals by fastforce
  from res ranking below show ?thesis by blast
qed



subsection \<open>Catalog calls\<close>

lemma io_bind_InrD:
  assumes "io_bind m f calls = (Inr y, calls')"
  obtains x calls1 where "m calls = (Inr x, calls1)" "f x calls1 = (Inr y, calls')"
  using assms by (auto simp: io_bind_def split: prod.splits sum.splits)

lemma io_bind_Inl:
  assumes "m calls = (Inl e, calls')"
  shows "io_bind m f calls = (Inl e, calls')"
  using assms by (simp add: io_bind_def)

lemma request_ok:
  assumes "answer calls = Inr response" and "status_code response = 200"
  shows "request answer c calls = (Inr response, calls @ [c])"
  using assms by (simp add: request_def process_API_response_def STATUS_CODE_OK_def)

lemma request_InrD:
  assumes "request answer c calls = (Inr x, calls')"
  shows "answer calls = Inr x \<and> calls' = calls @ [c] \<and> status_code x = 200"
  using assms
  by (auto simp: request_def process_API_response_def STATUS_CODE_OK_def
      split: sum.splits if_splits)

subsection \<open>Floats\<close>

lemma round_half_even_ge:
  assumes "of_int a \<le> x"
  shows "a \<le> round_half_even x"
proof -
  from assms have "a \<le> \<lfloor>x\<rfloor>" by (simp add: le_floor_iff)
  then show ?thesis by (simp add: round_half_even_def Let_def)
qed

lemma round_half_even_le:
  assumes "x \<le> of_int b"
  shows "round_half_even x \<le> b"
proof (cases "x = of_int b")
  case True
  then show ?thesis by (simp add: round_half_even_def)
next
  case False
  with assms have "x < of_int b" by simp
  then have "\<lfloor>x\<rfloor> < b" by (simp add: floor_less_iff)
  then show ?thesis by (simp add: round_half_even_def Let_def)
qed

lemma round_half_even_less:
  assumes "x < of_int b - 1 / 2"
  shows "round_half_even x < b"
proof -
  let ?f = "\<lfloor>x\<rfloor>"
  have f: "of_int ?f \<le> x" by simp
  show ?thesis
  proof (cases "x - of_int ?f < 1 / 2")
    case True
    from f assms have "(of_int ?f :: rat) < of_int b" by linarith
    then have "?f < b" by (simp only: of_int_less_iff)
    with True show ?thesis by (simp add: round_half_even_def Let_def)
  next
    case False
    with assms have "(of_int (?f + 1) :: rat) < of_int b" by simp
    then have "?f + 1 < b" by (simp only: of_int_less_iff)
    with False show ?thesis by (simp add: round_half_even_def Let_def)
  qed
qed

lemma two_powi_pos: "(0::rat) < 2 powi e"
  by (simp add: power_int_def)

lemma two_powi_add: "(2::rat) powi (a + b) = 2 powi a * 2 powi b"
  by (simp add: power_int_add)

lemma two_powi_nat: "0 \<le> e \<Longrightarrow> (2::rat) powi e = 2 ^ nat e"
  by (simp add: power_int_def)

lemma two_powi_mono: "a \<le> b \<Longrightarrow> (2::rat) powi a \<le> 2 powi b"
  by (rule power_int_increasing) simp_all

lemma bitlen_powi_bounds:
  assumes "0 < a"
  shows "(2::rat) powi (bitlen a - 1) \<le> of_int a" and "(of_int a :: rat) < 2 powi bitlen a"
proof -
  from assms have b: "1 \<le> bitlen a"
    using bitlen_eq_zero_iff [of a] bitlen_nonneg [of a] by linarith
  from bitlen_bounds [OF assms] have "(2::int) ^ nat (bitlen a - 1) \<le> a" and "a < 2 ^ nat (bitlen a)"
    by simp_all
  then have "(of_int ((2::int) ^ nat (bitlen a - 1)) :: rat) \<le> of_int a"
    and "(of_int a :: rat) < of_int ((2::int) ^ nat (bitlen a))"
    by (simp_all only: of_int_le_iff of_int_less_iff)
  with b show "(2::rat) powi (bitlen a - 1) \<le> of_int a" and "(of_int a :: rat) < 2 powi bitlen a"
    by (simp_all add: two_powi_nat)
qed

lemma float_exponent_bounds:
  assumes "0 < x"
  shows "2 powi float_exponent x \<le> x" and "x < 2 powi (float_exponent x + 1)"
proof -
  obtain a b where q: "quotient_of x = (a, b)" by (cases "quotient_of x")
  then have x: "x = of_int a / of_int b" and b: "0 < b"
    by (simp_all add: quotient_of_div quotient_of_denom_pos)
  from assms x b have a: "0 < a"
    by (simp add: zero_less_divide_iff)
  let ?d = "bitlen a - bitlen b"
  have e: "float_exponent x = (if x < 2 powi ?d then ?d - 1 else ?d)"
    by (simp add: float_exponent_def q Let_def)
  from b have pb: "(0::rat) < of_int b" by simp
  have lower: "2 powi (?d - 1) \<le> x"
  proof -
    have "(2::rat) powi (?d - 1) * of_int b \<le> 2 powi (?d - 1) * 2 powi bitlen b"
      using bitlen_powi_bounds(2) [OF b] two_powi_pos [of "?d - 1"]
      by (simp add: less_imp_le)
    also have "\<dots> = 2 powi (bitlen a - 1)"
      by (simp add: two_powi_add [symmetric])
    also have "\<dots> \<le> of_int a"
      by (rule bitlen_powi_bounds(1) [OF a])
    finally show ?thesis
      using pb by (simp add: x pos_le_divide_eq)
  qed
  have upper: "x < 2 powi (?d + 1)"
  proof -
    have "(of_int a :: rat) < 2 powi bitlen a"
      by (rule bitlen_powi_bounds(2) [OF a])
    also have "\<dots> = 2 powi (?d + 1) * 2 powi (bitlen b - 1)"
      by (simp add: two_powi_add [symmetric])
    also have "\<dots> \<le> 2 powi (?d + 1) * of_int b"
      using bitlen_powi_bounds(1) [OF b] two_powi_pos [of "?d + 1"]
      by simp
    finally show ?thesis
      using pb by (simp add: x pos_divide_less_eq)
  qed
  from e lower show "2 powi float_exponent x \<le> x"
    by (simp split: if_splits)
  from e upper show "x < 2 powi (float_exponent x + 1)"
    by (simp split: if_splits)
qed

lemma float_exponent_eqI:
  assumes lo: "2 powi e \<le> x" and hi: "x < 2 powi (e + 1)"
  shows "float_exponent x = e"
proof -
  from lo two_powi_pos [of e] have x: "0 < x" by linarith
  note b = float_exponent_bounds [OF x]
  have "\<not> float_exponent x < e"
  proof
    assume "float_exponent x < e"
    then have "(2::rat) powi (float_exponent x + 1) \<le> 2 powi e"
      by (intro two_powi_mono) simp
    with b(2) lo show False by linarith
  qed
  moreover have "\<not> e < float_exponent x"
  proof
    assume "e < float_exponent x"
    then have "(2::rat) powi (e + 1) \<le> 2 powi float_exponent x"
      by (intro two_powi_mono) simp
    with b(1) hi show False by linarith
  qed
  ultimately show ?thesis by simp
qed

lemma nearest_float_pos:
  assumes "0 < x"
  shows "nearest_float x =
    of_int (round_half_even (x / 2 powi (max (float_exponent x) (- 1022) - 52))) *
      2 powi (max (float_exponent x) (- 1022) - 52)"
  using assms by (simp add: nearest_float_def Let_def)

lemma nearest_float_quotient:
  assumes n: "0 < n" and s: "0 < s" and bound: "s < 2 ^ 53"
  shows "of_int (s div n) \<le> nearest_float (of_int s / of_int n) \<and>
         nearest_float (of_int s / of_int n) < of_int (s div n) + 1"
proof -
  define x :: rat where "x = of_int s / of_int n"
  define k where "k = s div n"
  define e where "e = max (float_exponent x) (- 1022)"
  define P where "P = (2::int) ^ nat (52 - e)"
  define m where "m = round_half_even (x * of_int P)"
  from n s have x: "0 < x" by (simp add: x_def)
  from n have n': "(0::rat) < of_int n" by simp
  note eb = float_exponent_bounds [OF x]
  have xn: "x * of_int n = of_int s"
    using n' by (simp add: x_def)
  have xs: "x \<le> of_int s"
  proof -
    from n have "(1::rat) \<le> of_int n" by (simp add: int_one_le_iff_zero_less)
    with x have "x * 1 \<le> x * of_int n"
      by (intro mult_left_mono) simp_all
    then show ?thesis by (simp add: xn)
  qed
  have s53: "(of_int s :: rat) < 2 powi 53"
  proof -
    from bound have "(of_int s :: rat) < of_int (2 ^ 53)" by (simp only: of_int_less_iff)
    then show ?thesis by simp
  qed
  have e52: "float_exponent x \<le> 52"
  proof (rule ccontr)
    assume "\<not> float_exponent x \<le> 52"
    then have "(2::rat) powi 53 \<le> 2 powi float_exponent x"
      by (intro two_powi_mono) simp
    with eb(1) xs s53 show False by linarith
  qed
  then have e': "e \<le> 52" by (simp add: e_def)
  have P: "(0::rat) < of_int P" by (simp add: P_def)
  have P': "(of_int P :: rat) = 2 powi (52 - e)"
    using e' by (simp add: P_def two_powi_nat)
  have ulp: "(2::rat) powi (e - 52) = 1 / of_int P"
  proof -
    have "(2::rat) powi (e - 52) = 2 powi (- (52 - e))" by simp
    also have "\<dots> = 1 / 2 powi (52 - e)" by (rule power_int_minus_divide)
    finally show ?thesis by (simp only: P')
  qed
  have r: "nearest_float x = of_int m / of_int P"
    unfolding nearest_float_pos [OF x] e_def [symmetric] ulp m_def by simp
  have k: "of_int k \<le> x" "x < of_int k + 1"
  proof -
    have f: "\<lfloor>x\<rfloor> = k" by (simp add: x_def k_def floor_divide_of_int_eq)
    from of_int_floor_le [of x] show "of_int k \<le> x"
      unfolding f .
    from floor_correct [of x] show "x < of_int k + 1"
      unfolding f by simp
  qed
  have k0: "0 \<le> k"
    using n s by (simp add: k_def pos_imp_zdiv_nonneg_iff)
  have "of_int (k * P) \<le> x * of_int P"
    using k(1) P by (simp add: mult_right_mono)
  then have "k * P \<le> m" unfolding m_def by (rule round_half_even_ge)
  then have "(of_int (k * P) :: rat) \<le> of_int m" by (simp only: of_int_le_iff)
  with P have lower: "of_int k \<le> nearest_float x"
    by (simp add: r pos_le_divide_eq)
  have "m < (k + 1) * P"
  proof (cases "- 1022 \<le> float_exponent x")
    case True
    then have e: "e = float_exponent x" by (simp add: e_def)
    have gap: "1 \<le> (of_int (k + 1) - x) * of_int n"
    proof -
      have "s < (k + 1) * n"
      proof -
        have "s = k * n + s mod n" by (simp add: k_def)
        also from n have "\<dots> < k * n + n" by simp
        finally show ?thesis by (simp add: algebra_simps)
      qed
      then have "1 \<le> (k + 1) * n - s" by simp
      then have "(1::rat) \<le> of_int ((k + 1) * n - s)" by (simp only: of_int_1_le_iff)
      also have "\<dots> = (of_int (k + 1) - x) * of_int n"
        by (simp add: left_diff_distrib xn)
      finally show ?thesis .
    qed
    have n2P: "(of_int n :: rat) < 2 * of_int P"
    proof -
      from eb(1) n' have "2 powi e * of_int n \<le> x * of_int n"
        by (simp add: e)
      with s53 have "2 powi e * of_int n < (2::rat) powi 53" by (simp add: xn)
      also have "\<dots> = 2 powi e * 2 powi (53 - e)"
        by (simp add: two_powi_add [symmetric])
      finally have "(of_int n :: rat) < 2 powi (53 - e)"
        using two_powi_pos [of e] by simp
      also have "\<dots> = 2 powi (1 + (52 - e))" by simp
      also have "\<dots> = 2 * 2 powi (52 - e)" by (simp only: two_powi_add) simp
      finally show ?thesis by (simp only: P')
    qed
    have pos: "0 < of_int (k + 1) - x" using k(2) by simp
    have "(of_int n :: rat) * (1 / 2) < of_int P * 1"
      using n2P by simp
    also have "\<dots> \<le> of_int P * ((of_int (k + 1) - x) * of_int n)"
      using gap P by (intro mult_left_mono) simp_all
    finally have "of_int n * (1 / 2) < of_int n * (of_int P * (of_int (k + 1) - x))"
      by (simp add: mult_ac)
    with n' have "1 / 2 < of_int P * (of_int (k + 1) - x)"
      by (simp only: mult_less_cancel_left_pos)
    then have "x * of_int P < of_int ((k + 1) * P) - 1 / 2"
      by (simp add: algebra_simps)
    then show ?thesis unfolding m_def by (rule round_half_even_less)
  next
    case False
    then have e: "e = - 1022" and small: "float_exponent x + 1 \<le> - 1022"
      by (simp_all add: e_def)
    have P1074: "P = 2 ^ 1074" by (simp add: P_def e)
    have "x < 2 powi (- 1022)"
      using eb(2) two_powi_mono [OF small] by linarith
    with P have "x * of_int P < 2 powi (- 1022) * of_int P"
      by (simp only: mult_strict_right_mono)
    also have "\<dots> = 2 powi (- 1022) * 2 powi 1074"
      by (simp add: P1074)
    also have "\<dots> = 2 powi 52"
      by (simp only: two_powi_add [symmetric]) simp
    also have "\<dots> = of_int (2 ^ 52)" by simp
    finally have "x * of_int P \<le> of_int (2 ^ 52)" by simp
    then have "m \<le> 2 ^ 52"
      unfolding m_def by (rule round_half_even_le)
    also have "(2::int) ^ 52 < 1 * P" by (simp add: P1074)
    also have "\<dots> \<le> (k + 1) * P"
      using k0 by (intro mult_right_mono) (simp_all add: P_def)
    finally show ?thesis .
  qed
  then have "(of_int m :: rat) < of_int ((k + 1) * P)" by (simp only: of_int_less_iff)
  with P have "nearest_float x < of_int k + 1"
    by (simp add: r pos_divide_less_eq)
  with lower show ?thesis by (simp add: x_def k_def)
qed

lemma nearest_float_minus: "nearest_float (- x) = - nearest_float x"
  by (simp add: nearest_float_def Let_def)

lemma py_int_of_float_minus: "py_int_of_float (- q) = - py_int_of_float q"
  by (cases "q = 0") (auto simp: py_int_of_float_def ceiling_def)

lemma py_truediv_nonneg:
  assumes n: "0 < n" and s: "0 \<le> s" and bound: "s < 2 ^ 53"
  shows "\<exists>q. nearest_float (of_int s / of_int n) = q \<and> \<bar>q\<bar> < 2 ^ 1024 \<and>
             py_int_of_float q = s div n"
proof (cases "s = 0")
  case True
  then show ?thesis by (simp add: nearest_float_def py_int_of_float_def)
next
  case False
  with s have s': "0 < s" by simp
  let ?q = "nearest_float (of_int s / of_int n)"
  from nearest_float_quotient [OF n s' bound]
  have lo: "of_int (s div n) \<le> ?q" and hi: "?q < of_int (s div n) + 1" by simp_all
  from n s have k0: "0 \<le> s div n" by (simp add: pos_imp_zdiv_nonneg_iff)
  with lo have q0: "0 \<le> ?q" by (meson of_int_0_le_iff order_trans)
  have fl: "\<lfloor>?q\<rfloor> = s div n"
    using lo hi by (rule floor_unique)
  have "s div n \<le> s"
  proof -
    from n have m: "0 \<le> s mod n" by simp
    have d: "s = s div n * n + s mod n" by simp
    from n k0 have "s div n * 1 \<le> s div n * n"
      by (intro mult_left_mono) simp_all
    with m d show ?thesis by linarith
  qed
  with bound have "s div n + 1 \<le> 2 ^ 53" by simp
  then have "(of_int (s div n + 1) :: rat) \<le> of_int (2 ^ 53)" by (simp only: of_int_le_iff)
  with hi have "?q < 2 ^ 53" by simp
  also have "(2::rat) ^ 53 < 2 ^ 1024" by simp
  finally have "\<bar>?q\<bar> < 2 ^ 1024" using q0 by simp
  with fl q0 show ?thesis by (simp add: py_int_of_float_def)
qed

lemma py_truediv_truncates:
  assumes n: "0 < n" and bound: "\<bar>s\<bar> < 2 ^ 53"
  shows "\<exists>q. py_truediv s n = Inr q \<and>
             py_int_of_float q = (if 0 \<le> s then s div n else - ((- s) div n))"
proof (cases "0 \<le> s")
  case True
  with bound have "s < 2 ^ 53" by simp
  from py_truediv_nonneg [OF n True this] n True show ?thesis
    by (simp add: py_truediv_def Let_def)
next
  case False
  then have s: "0 \<le> - s" by simp
  from False bound have "- s < 2 ^ 53" by simp
  from py_truediv_nonneg [OF n s this]
  have a: "\<bar>nearest_float (of_int (- s) / of_int n)\<bar> < 2 ^ 1024"
    and b: "py_int_of_float (nearest_float (of_int (- s) / of_int n)) = (- s) div n"
    by simp_all
  have m: "nearest_float (of_int s / of_int n) = - nearest_float (of_int (- s) / of_int n)"
    using nearest_float_minus [of "of_int (- s) / of_int n"] by simp
  from a b n False show ?thesis
    by (simp add: py_truediv_def Let_def m py_int_of_float_minus)
qed

subsection \<open>Content resolver\<close>

lemma Movie_zero_matches:
  assumes "find_response cat calls imdb_id = Inr response"
    and "status_code response = 200"
    and "movie_results (json response) = []"
  shows "Movie cat imdb_id calls = (Inr unresolved_movie, calls @ [GetInfoFromImdbId imdb_id])"
  using assms
  by (simp add: Movie_def Content_init_def Movie_methods_def Movie_get_tmdb_id_def
      get_info_from_imdb_id_def request_ok io_bind_def io_return_def truthy_def
      new_object_def unresolved_movie_def)

lemma SeriesEpisode_zero_matches:
  assumes "find_response cat calls imdb_id = Inr response"
    and "status_code response = 200"
    and "tv_episode_results (json response) = []"
  shows "SeriesEpisode cat imdb_id calls =
           (Inr unresolved_episode, calls @ [GetInfoFromImdbId imdb_id])"
  using assms
  by (simp add: SeriesEpisode_def Content_init_def SeriesEpisode_methods_def
      SeriesEpisode_get_tmdb_id_def get_info_from_imdb_id_def request_ok io_bind_def
      io_return_def truthy_def new_object_def unresolved_episode_def)

lemma Content_init_InrD:
  assumes "Content_init m cat self imdb_id b calls = (Inr c, calls')"
  shows "\<exists>tid self1 calls1.
           get_tmdb_id_method m cat self imdb_id calls = (Inr (tid, self1), calls1) \<and>
           tmdb_id c = tid \<and>
           (truthy tid \<longrightarrow> resolved c) \<and>
           (\<not> truthy tid \<longrightarrow> calls' = calls1 \<and> c = unresolved_fields b (self1\<lparr>tmdb_id := tid\<rparr>))"
proof -
  from assms obtain p calls1 where
    p: "get_tmdb_id_method m cat self imdb_id calls = (Inr p, calls1)" and
    rest: "(case p of (tid, self1) \<Rightarrow>
       let self2 = self1\<lparr>tmdb_id := tid\<rparr> in
       if truthy tid then
         io_bind (get_content_info_method m cat self2) (\<lambda>response.
           let content_info = json response;
               self3 = self2\<lparr>title := Val (get_title_method m content_info),
                         genres := Val (Content_get_genres content_info),
                         is_movie := Val b,
                         is_series := Val (\<not> b),
                         actors := Val (Content_get_actors content_info)\<rparr>
           in io_bind (get_directors_method m cat self3 content_info) (\<lambda>ds.
             let self4 = self3\<lparr>directors := Val ds,
                           production_companies :=
                             Val (Content_get_production_companies content_info)\<rparr>
             in io_bind (get_release_date_method m cat self4 content_info) (\<lambda>rd.
               io_bind (io_lift (get_runtime_method m content_info)) (\<lambda>rt.
                 io_return (self4\<lparr>release_date := Val rd, runtime := Val rt\<rparr>)))))
       else
         io_return (self2\<lparr>title := PyNone, genres := PyNone,
                      is_movie := Val b, is_series := Val (\<not> b),
                      actors := PyNone, directors := PyNone,
                      pruction_companies := PyNone,
                      release_date := PyNone, runtime := PyNone\<rparr>)) calls1 = (Inr c, calls')"
    unfolding Content_init_def by (erule io_bind_InrD)
  obtain tid self1 where pt: "p = (tid, self1)" by (cases p)
  show ?thesis
  proof (cases "truthy tid")
    case False
    with rest pt have "c = unresolved_fields b (self1\<lparr>tmdb_id := tid\<rparr>)" "calls' = calls1"
      by (simp_all add: io_return_def unresolved_fields_def)
    with p pt False show ?thesis
      by (simp add: unresolved_fields_def)
  next
    case True
    then obtain i where "tid = Val i"
      by (cases tid) (simp_all add: truthy_def)
    with rest pt True have "tmdb_id c = tid \<and> resolved c"
      by (auto simp: Let_def io_return_def io_lift_def resolved_def has_val_def
          elim!: io_bind_InrD)
    with p pt True show ?thesis by simp
  qed
qed

lemma Content_init_resolved:
  assumes "Content_init m cat self imdb_id b calls = (Inr c, calls')" and "truthy (tmdb_id c)"
  shows "resolved c"
  using Content_init_InrD [OF assms(1)] assms(2) by auto

lemma SeriesEpisode_get_runtime_nonempty:
  assumes "episode_run_time info \<noteq> []" and "\<bar>sum_list (episode_run_time info)\<bar> < 2 ^ 53"
  shows "SeriesEpisode_get_runtime info = Inr (truncated_mean (episode_run_time info))"
proof -
  from assms(1) have "0 < int (length (episode_run_time info))" by simp
  from py_truediv_truncates [OF this assms(2)] show ?thesis
    by (auto simp: SeriesEpisode_get_runtime_def truncated_mean_def Let_def)
qed

lemma SeriesEpisode_get_runtime_empty:
  assumes "episode_run_time info = []"
  shows "SeriesEpisode_get_runtime info = Inl ZeroDivisionError"
  using assms by (simp add: SeriesEpisode_get_runtime_def py_truediv_def)

lemma nat_digits_nonempty: "nat_digits n \<noteq> []"
  by (subst nat_digits.simps) simp

lemma py_str_nonempty: "py_str i \<noteq> []"
  by (simp add: py_str_def nat_digits_nonempty)

lemma SeriesEpisode_resolved_runtime:
  assumes "SeriesEpisode cat imdb_id calls = (Inr c, calls')" and "tmdb_id c \<noteq> PyNone"
  shows "\<exists>sid response rt.
           show_id c = Val sid \<and>
           tv_response cat (calls @ [GetInfoFromImdbId imdb_id]) sid = Inr response \<and>
           episode_run_time (json response) \<noteq> [] \<and>
           SeriesEpisode_get_runtime (json response) = Inr rt \<and>
           runtime c = Val rt"
proof -
  let ?self = "new_object\<lparr>show_id := PyNone, season := PyNone, episode := PyNone\<rparr>"
  from assms(1) obtain p calls1 where
    p: "SeriesEpisode_get_tmdb_id cat ?self imdb_id calls = (Inr p, calls1)" and
    rest: "(case p of (tid, self1) \<Rightarrow>
       let self2 = self1\<lparr>tmdb_id := tid\<rparr> in
       if truthy tid then
         io_bind (SeriesEpisode_get_content_info cat self2) (\<lambda>response.
           let content_info = json response;
               self3 = self2\<lparr>title := Val (SeriesEpisode_get_title content_info),
                         genres := Val (Content_get_genres content_info),
                         is_movie := Val False,
                         is_series := Val (\<not> False),
                         actors := Val (Content_get_actors content_info)\<rparr>
           in io_bind (SeriesEpisode_get_directors cat self3 content_info) (\<lambda>ds.
             let self4 = self3\<lparr>directors := Val ds,
                           production_companies :=
                             Val (Content_get_production_companies content_info)\<rparr>
             in io_bind (SeriesEpisode_get_release_date cat self4 content_info) (\<lambda>rd.
               io_bind (io_lift (SeriesEpisode_get_runtime content_info)) (\<lambda>rt.
                 io_return (self4\<lparr>release_date := Val rd, runtime := Val rt\<rparr>)))))
       else
         io_return (self2\<lparr>title := PyNone, genres := PyNone,
                      is_movie := Val False, is_series := Val (\<not> False),
                      actors := PyNone, directors := PyNone,
                      pruction_companies := PyNone,
                      release_date := PyNone, runtime := PyNone\<rparr>)) calls1 = (Inr c, calls')"
    unfolding SeriesEpisode_def Content_init_def SeriesEpisode_methods_def
    by (simp only: methods.simps) (erule io_bind_InrD)
  obtain tid self1 where pt: "p = (tid, self1)" by (cases p)
  from p pt have log1: "calls1 = calls @ [GetInfoFromImdbId imdb_id]"
    by (auto simp: SeriesEpisode_get_tmdb_id_def get_info_from_imdb_id_def io_return_def
        elim!: io_bind_InrD dest!: request_InrD split: list.splits)
  from p pt have shape: "(tid = PyNone \<and> show_id self1 = PyNone) \<or>
      (\<exists>t sid. tid = Val t \<and> t \<noteq> [] \<and> show_id self1 = Val sid)"
    by (auto simp: SeriesEpisode_get_tmdb_id_def io_return_def py_str_nonempty
        elim!: io_bind_InrD split: list.splits)
  show ?thesis
  proof (cases "truthy tid")
    case False
    with rest pt have "tmdb_id c = tid" by (auto simp: io_return_def)
    with False shape assms(2) show ?thesis by (auto simp: truthy_def)
  next
    case True
    with shape obtain sid where sid: "show_id self1 = Val sid" by (auto simp: truthy_def)
    from rest pt True obtain response calls2 rt where
      resp: "SeriesEpisode_get_content_info cat (self1\<lparr>tmdb_id := tid\<rparr>) calls1
               = (Inr response, calls2)" and
      rt: "SeriesEpisode_get_runtime (json response) = Inr rt" and
      c_rt: "runtime c = Val rt" and c_sid: "show_id c = show_id self1"
      by (auto simp: Let_def io_return_def io_lift_def elim!: io_bind_InrD)
    from resp sid have tv: "tv_response cat calls1 sid = Inr response"
      by (auto simp: SeriesEpisode_get_content_info_def get_show_info_def dest: request_InrD)
    have ne: "episode_run_time (json response) \<noteq> []"
    proof
      assume "episode_run_time (json response) = []"
      from SeriesEpisode_get_runtime_empty [OF this] rt show False by simp
    qed
    from rt c_rt c_sid sid ne tv log1 show ?thesis by simp
  qed
qed

subsection \<open>Builder\<close>

lemma build_step_raises:
  assumes "make_content cat r (calls_made s) = (Inl e, calls)"
  shows "build_step f cat r s = (Some e, s\<lparr>calls_made := calls\<rparr>)"
  using assms by (simp add: build_step_def)

lemma build_loop_append:
  "build_loop f cat (xs @ ys) s =
     (case build_loop f cat xs s of
        (Some e, s') \<Rightarrow> (Some e, s')
      | (None, s') \<Rightarrow> build_loop f cat ys s')"
  by (induction xs arbitrary: s) (auto split: prod.splits option.splits)

lemma build_loop_raises:
  assumes "make_content cat r (calls_made s) = (Inl e, calls)"
    and "build_loop f cat before s0 = (None, s)"
  shows "build_loop f cat (before @ r # rs) s0 = (Some e, s\<lparr>calls_made := calls\<rparr>)"
  using assms by (simp add: build_loop_append build_step_raises)

lemma make_content_zero_matches:
  assumes "zero_matches cat calls r"
  shows "make_content cat r calls =
           (Inr (if Movie_or_Series r = ''Movie'' then unresolved_movie else unresolved_episode),
            calls @ [GetInfoFromImdbId (IMDB_ID r)])"
proof -
  from assms obtain response where
    resp: "find_response cat calls (IMDB_ID r) = Inr response" and
    ok: "status_code response = 200" and
    none: "if Movie_or_Series r = ''Movie'' then movie_results (json response) = []
           else tv_episode_results (json response) = []"
    by (auto simp: zero_matches_def STATUS_CODE_OK_def split: sum.splits)
  show ?thesis
  proof (cases "Movie_or_Series r = ''Movie''")
    case True
    with none have "movie_results (json response) = []" by simp
    from Movie_zero_matches [OF resp ok this] True show ?thesis
      by (simp add: make_content_def)
  next
    case False
    with none have "tv_episode_results (json response) = []" by simp
    from SeriesEpisode_zero_matches [OF resp ok this] False show ?thesis
      by (simp add: make_content_def)
  qed
qed

subsection \<open>The builder yields watch events\<close>

lemma make_content_tmdb_id:
  assumes "make_content cat r calls = (Inr c, calls')"
  shows "tmdb_id c = PyNone \<or> truthy (tmdb_id c)"
proof (cases "Movie_or_Series r = ''Movie''")
  case True
  with assms have m: "Movie cat (IMDB_ID r) calls = (Inr c, calls')"
    by (simp add: make_content_def)
  from Content_init_InrD [OF m [unfolded Movie_def]] obtain tid self1 calls1 where
    t: "Movie_get_tmdb_id cat new_object (IMDB_ID r) calls = (Inr (tid, self1), calls1)" and
    tid: "tmdb_id c = tid"
    by (auto simp: Movie_methods_def)
  from t have "tid = PyNone \<or> truthy tid"
    by (auto simp: Movie_get_tmdb_id_def io_return_def truthy_def py_str_nonempty
        elim!: io_bind_InrD split: list.splits)
  with tid show ?thesis by simp
next
  case False
  with assms have m: "SeriesEpisode cat (IMDB_ID r) calls = (Inr c, calls')"
    by (simp add: make_content_def)
  from Content_init_InrD [OF m [unfolded SeriesEpisode_def]] obtain tid self1 calls1 where
    t: "SeriesEpisode_get_tmdb_id cat
          (new_object\<lparr>show_id := PyNone, season := PyNone, episode := PyNone\<rparr>) (IMDB_ID r) calls
        = (Inr (tid, self1), calls1)" and
    tid: "tmdb_id c = tid"
    by (auto simp: SeriesEpisode_methods_def)
  from t have "tid = PyNone \<or> truthy tid"
    by (auto simp: SeriesEpisode_get_tmdb_id_def io_return_def truthy_def py_str_nonempty
        elim!: io_bind_InrD split: list.splits)
  with tid show ?thesis by simp
qed

lemma make_content_resolved:
  assumes "make_content cat r calls = (Inr c, calls')" and "tmdb_id c \<noteq> PyNone"
  shows "resolved c"
proof -
  from make_content_tmdb_id [OF assms(1)] assms(2) have tr: "truthy (tmdb_id c)" by simp
  from assms(1) have
    "Content_init Movie_methods cat new_object (IMDB_ID r) True calls = (Inr c, calls') \<or>
     Content_init SeriesEpisode_methods cat
        (new_object\<lparr>show_id := PyNone, season := PyNone, episode := PyNone\<rparr>) (IMDB_ID r) False
        calls = (Inr c, calls')"
    by (simp add: make_content_def Movie_def SeriesEpisode_def split: if_splits)
  then show ?thesis
  proof
    assume "Content_init Movie_methods cat new_object (IMDB_ID r) True calls = (Inr c, calls')"
    from Content_init_resolved [OF this tr] show ?thesis .
  next
    assume "Content_init SeriesEpisode_methods cat
        (new_object\<lparr>show_id := PyNone, season := PyNone, episode := PyNone\<rparr>) (IMDB_ID r) False
        calls = (Inr c, calls')"
    from Content_init_resolved [OF this tr] show ?thesis .
  qed
qed

lemma parse_date_valid: "parse_date sep pick s = Inr d \<Longrightarrow> valid_date d"
  by (auto simp: parse_date_def py_datetime_def Let_def
      split: list.splits prod.splits sum.splits if_splits)

lemma build_step_watch_events:
  assumes "build_step f cat r s = (res, s')" and "\<forall>w \<in> set (watched_list s). watch_event w"
  shows "\<forall>w \<in> set (watched_list s'). watch_event w"
proof (cases "make_content cat r (calls_made s)")
  case (Pair x calls)
  show ?thesis
  proof (cases x)
    case (Inl e)
    with Pair assms show ?thesis by (auto simp: build_step_def)
  next
    case (Inr c)
    show ?thesis
    proof (cases "tmdb_id c = PyNone")
      case True
      with Pair Inr assms show ?thesis by (auto simp: build_step_def Let_def)
    next
      case False
      with Pair Inr have res: "resolved c" using make_content_resolved by blast
      have "valid_date d" if "parse_date CHR ''/'' (\<lambda>(m, d, y). (y, m, d)) (Date r) = Inr d" for d
        using that by (rule parse_date_valid)
      with res Pair Inr assms show ?thesis
        by (auto simp: build_step_def Let_def watch_event_def split: attr.splits sum.splits)
    qed
  qed
qed

lemma build_loop_watch_events:
  assumes "build_loop f cat rs s = (res, s')" and "\<forall>w \<in> set (watched_list s). watch_event w"
  shows "\<forall>w \<in> set (watched_list s'). watch_event w"
  using assms
proof (induction rs arbitrary: s)
  case Nil
  then show ?case by simp
next
  case (Cons r rs)
  obtain res1 s1 where step: "build_step f cat r s = (res1, s1)"
    by (cases "build_step f cat r s")
  from build_step_watch_events [OF step Cons.prems(2)]
  have s1: "\<forall>w \<in> set (watched_list s1). watch_event w" .
  show ?case
  proof (cases res1)
    case None
    with step Cons.prems(1) have "build_loop f cat rs s1 = (res, s')" by simp
    from Cons.IH [OF this s1] show ?thesis .
  next
    case (Some e)
    with step Cons.prems(1) have "s' = s1" by simp
    with s1 show ?thesis by simp
  qed
qed

lemma main_watch_events:
  assumes "main f cat rs = (res, s)"
  shows "\<forall>w \<in> set (watched_list s). watch_event w"
proof -
  obtain res1 where "build_loop f cat rs \<lparr>watched_list = [], diagnostics = [], calls_made = []\<rparr>
      = (res1, s)"
    using assms by (auto simp: main_def split: prod.splits option.splits)
  from build_loop_watch_events [OF this] show ?thesis by simp
qed

subsection \<open>The outcome of main\<close>

lemma platform_loop_returns:
  assumes "\<forall>w \<in> set ws. has_val (runtime (content w))"
  shows "\<exists>c. platform_loop ws counter = Inr c"
  using assms
proof (induction ws arbitrary: counter)
  case Nil
  then show ?case by simp
next
  case (Cons w ws)
  then obtain r where r: "runtime (content w) = Val r"
    by (auto simp: has_val_iff)
  obtain c1 where c1: "dict_iadd (if dict_contains counter (platform w) then counter
        else dict_set (platform w) 0 counter) (platform w) (Val r) = Inr c1"
    using dict_iadd_new_returns [of counter "platform w" r] by blast
  from Cons.IH [of c1] Cons.prems obtain c where "platform_loop ws c1 = Inr c"
    by auto
  with r c1 show ?case by simp
qed

lemma py_max_nonempty: "xs \<noteq> [] \<Longrightarrow> \<exists>x. py_max xs key = Inr x"
  by (cases xs) (simp_all add: py_max_def)

lemma activity_max_day_returns:
  assumes "\<forall>w \<in> set ws. watch_event w" and "ws \<noteq> []"
  shows "\<exists>a d. get_activity_by_month_and_day ws = Inr a \<and> activity_max_day a = Inr d"
proof -
  from activity_loop_returns [OF assms(1) refl refl, of "[]"] obtain m w d where
    loop: "activity_loop ws (months_init, weekday_init, []) = Inr (m, w, d)"
    by (metis prod_cases3)
  from assms(2) obtain e where "e \<in> set ws" by (cases ws) auto
  with activity_loop_days_map_of [OF loop, of "date e"] have "map_of d (date e) \<noteq> None"
    by auto
  then have "d \<noteq> []" by auto
  from py_max_nonempty [OF this, of snd] obtain item where "py_max d snd = Inr item"
    by blast
  with loop show ?thesis
    by (simp add: get_activity_by_month_and_day_def)
qed

lemma run_reports_returns:
  assumes "\<forall>w \<in> set ws. watch_event w" and "ws \<noteq> []"
  shows "\<exists>reps. run_reports ws = Inr reps"
proof -
  from assms(1) have fields:
    "\<forall>w \<in> set ws. has_val (genres (content w)) \<and> has_val (runtime (content w))"
    "\<forall>w \<in> set ws. has_val (actors (content w)) \<and> has_val (runtime (content w))"
    "\<forall>w \<in> set ws. has_val (production_companies (content w)) \<and> has_val (runtime (content w))"
    "\<forall>w \<in> set ws. has_val (directors (content w)) \<and> has_val (runtime (content w))"
    "\<forall>w \<in> set ws. has_val (runtime (content w))"
    by (simp_all add: watch_event_def resolved_def)
  from fields(1-4) have liked:
    "\<forall>w \<in> set ws. has_val (genres (content w))"
    "\<forall>w \<in> set ws. has_val (actors (content w))"
    "\<forall>w \<in> set ws. has_val (production_companies (content w))"
    "\<forall>w \<in> set ws. has_val (directors (content w))"
    by blast+
  obtain r1 where r1: "get_most_watched_genres ws = Inr r1"
    using most_watched_ranking [OF fields(1)] by (auto simp: get_most_watched_genres_def)
  obtain r2 where r2: "get_most_liked_genres ws = Inr r2"
    using most_liked_ranking [OF _ liked(1), of MIN_THRESHOLD]
    by (auto simp: get_most_liked_genres_def MIN_THRESHOLD_def)
  obtain r3 where r3: "get_amount_of_movies_and_series_watched ws = Inr r3"
    using amount_loop_totals [OF assms(1), of 0 0 0 0]
    by (simp add: get_amount_of_movies_and_series_watched_def)
  obtain r4 where r4: "get_platform_usage ws = Inr r4"
    using platform_loop_returns [OF fields(5), of "[]"] by (auto simp: get_platform_usage_def)
  obtain r5 where r5: "get_most_watched_actors ws = Inr r5"
    using most_watched_ranking [OF fields(2)] by (auto simp: get_most_watched_actors_def)
  obtain r6 where r6: "get_most_liked_actors ws = Inr r6"
    using most_liked_ranking [OF _ liked(2), of MIN_THRESHOLD]
    by (auto simp: get_most_liked_actors_def MIN_THRESHOLD_def)
  obtain r7 where r7: "get_most_watched_production_companies ws = Inr r7"
    using most_watched_ranking [OF fields(3)]
    by (auto simp: get_most_watched_production_companies_def)
  obtain r8 where r8: "get_most_liked_production_companies ws = Inr r8"
    using most_liked_ranking [OF _ liked(3), of MIN_THRESHOLD]
    by (auto simp: get_most_liked_production_companies_def MIN_THRESHOLD_def)
  obtain r9 where r9: "get_most_watched_directors ws = Inr r9"
    using most_watched_ranking [OF fields(4)] by (auto simp: get_most_watched_directors_def)
  obtain r10 where r10: "get_most_liked_directors ws = Inr r10"
    using most_liked_ranking [OF _ liked(4), of MIN_THRESHOLD_FOR_DIRECTORS]
    by (auto simp: get_most_liked_directors_def MIN_THRESHOLD_FOR_DIRECTORS_def)
  obtain a d where a: "get_activity_by_month_and_day ws = Inr a" "activity_max_day a = Inr d"
    using activity_max_day_returns [OF assms] by blast
  show ?thesis
    by (simp add: run_reports_def and_then_def r1 r2 r3 r4 r5 r6 r7 r8 r9 r10 a)
qed

lemma run_reports_empty: "run_reports [] = Inl ValueError"
  by (simp add: run_reports_def and_then_def get_most_watched_genres_def
      get_most_watched_actors_def get_most_watched_production_companies_def
      get_most_watched_directors_def get_most_liked_genres_def get_most_liked_actors_def
      get_most_liked_production_companies_def get_most_liked_directors_def
      most_watched_def most_liked_def top_n_report_def nlargest_def sorted_reverse_def
      get_amount_of_movies_and_series_watched_def get_platform_usage_def
      get_activity_by_month_and_day_def py_max_def)

lemma main_outcome:
  assumes "build_loop f cat rs \<lparr>watched_list = [], diagnostics = [], calls_made = []\<rparr> = (None, s)"
  shows "(watched_list s = [] \<longrightarrow> main f cat rs = (Inl ValueError, s)) \<and>
         (watched_list s \<noteq> [] \<longrightarrow> (\<exists>reps. main f cat rs = (Inr reps, s)))"
proof (intro conjI impI)
  assume "watched_list s = []"
  with assms show "main f cat rs = (Inl ValueError, s)"
    by (simp add: main_def run_reports_empty)
next
  assume ne: "watched_list s \<noteq> []"
  from build_loop_watch_events [OF assms] have "\<forall>w \<in> set (watched_list s). watch_event w"
    by simp
  from run_reports_returns [OF this ne] assms show "\<exists>reps. main f cat rs = (Inr reps, s)"
    by (auto simp: main_def)
qed


subsection \<open>The examples\<close>

lemma watch_event_example_movie_event: "watch_event example_movie_event"
  by (simp add: watch_event_def resolved_def has_val_def valid_date_def days_in_month_def
      is_leap_def month_lengths_def example_movie_event_def example_movie_def)

lemma watch_event_example_episode_event: "watch_event example_episode_event"
  by (simp add: watch_event_def resolved_def has_val_def valid_date_def days_in_month_def
      is_leap_def month_lengths_def example_episode_event_def example_episode_def)

lemma watch_event_example_long_movie_event: "watch_event example_long_movie_event"
  by (simp add: watch_event_def resolved_def has_val_def valid_date_def days_in_month_def
      is_leap_def month_lengths_def example_long_movie_event_def example_movie_def)

lemma watch_event_example_same_day_event: "watch_event example_same_day_event"
  by (simp add: watch_event_def resolved_def has_val_def valid_date_def days_in_month_def
      is_leap_def month_lengths_def example_same_day_event_def example_episode_def)

lemmas example_defs = example_movie_event_def example_movie_def example_episode_event_def
  example_episode_def example_long_movie_event_def example_same_day_event_def

lemmas calendar_defs = py_index_def month_name_def day_name_def weekday_def toordinal_def
  days_before_year_def days_before_month_def month_lengths_def is_leap_def
  months_init_def weekday_init_def dict_iadd_def dict_set_def dict_contains_def

lemmas ranking_defs = most_watched_def top_n_report_def nlargest_def sorted_reverse_def TOP_N_def
  iter_attr_def dict_iadd_def dict_set_def dict_contains_def dict_getitem_def

lemmas liked_defs = most_liked_def top_n_report_def nlargest_def sorted_reverse_def TOP_N_def
  iter_attr_def dict_set_def dict_contains_def dict_getitem_def
  MIN_THRESHOLD_def MIN_THRESHOLD_FOR_DIRECTORS_def

lemmas catalog_defs = example_catalog_def ok_response_def rate_limited_def no_results_def
  movie_857_def show_1396_def show_1399_def episode_1396_1_1_def episode_1399_1_1_def

lemmas resolver_defs = Content_init_def io_bind_def io_return_def io_lift_def
  request_def process_API_response_def STATUS_CODE_OK_def truthy_def new_object_def
  get_info_from_imdb_id_def get_movie_info_def get_show_info_def get_episode_info_def
  Content_get_genres_def Content_get_actors_def Content_get_production_companies_def
  director_names_def MAX_CAST_def MAX_DIRECTORS_def py_str_def digit_char_def

lemmas parse_defs = parse_date_def py_int_def py_strip_def is_space_def digit_value_def
  py_datetime_def c_int_def valid_date_def days_in_month_def month_lengths_def is_leap_def

lemma runtime_show_1396: "SeriesEpisode_get_runtime show_1396 = Inr 45"
  using SeriesEpisode_get_runtime_nonempty [of show_1396]
  by (simp add: show_1396_def truncated_mean_def)

lemma float_exponent_wide: "float_exponent 9007199254740993 = 53"
  by (rule float_exponent_eqI) simp_all

lemma floor_half_wide: "\<lfloor>9007199254740993 / 2 :: rat\<rfloor> = 4503599627370496"
  by (rule floor_unique) simp_all

lemma nearest_float_wide: "nearest_float 9007199254740993 = 9007199254740992"
  by (simp add: nearest_float_def float_exponent_wide round_half_even_def Let_def
      floor_half_wide)

lemma py_truediv_wide: "py_truediv 9007199254740993 1 = Inr 9007199254740992"
  by (simp add: py_truediv_def nearest_float_wide Let_def)

lemma Movie_example:
  "Movie example_catalog ''tt0120815'' calls =
     (Inr example_movie, calls @ [GetInfoFromImdbId ''tt0120815'', GetMovieInfo ''857''])"
  by (simp add: Movie_def Movie_methods_def Movie_get_tmdb_id_def Movie_get_content_info_def
      Movie_get_title_def Movie_get_directors_def Movie_get_release_date_def
      Movie_get_runtime_def resolver_defs parse_defs catalog_defs example_movie_def)

lemma SeriesEpisode_example:
  "SeriesEpisode example_catalog ''tt0959621'' calls =
     (Inr example_episode,
      calls @ [GetInfoFromImdbId ''tt0959621'', GetShowInfo ''1396'',
       GetEpisodeInfo ''1396'' ''1'' ''1'', GetEpisodeInfo ''1396'' ''1'' ''1''])"
  by (simp add: SeriesEpisode_def SeriesEpisode_methods_def SeriesEpisode_get_tmdb_id_def
      SeriesEpisode_get_content_info_def SeriesEpisode_get_title_def
      SeriesEpisode_get_directors_def SeriesEpisode_get_release_date_def
      runtime_show_1396 [unfolded show_1396_def] episode_request_def
      resolver_defs parse_defs catalog_defs example_episode_def)

lemma runtime_wide_show: "SeriesEpisode_get_runtime wide_show = Inr 9007199254740992"
  by (simp add: SeriesEpisode_get_runtime_def wide_show_def py_truediv_wide py_int_of_float_def)

lemma SeriesEpisode_wide:
  "SeriesEpisode wide_catalog ''tt0959621'' calls =
     (Inr wide_episode,
      calls @ [GetInfoFromImdbId ''tt0959621'', GetShowInfo ''1396'',
       GetEpisodeInfo ''1396'' ''1'' ''1'', GetEpisodeInfo ''1396'' ''1'' ''1''])"
  by (simp add: SeriesEpisode_def SeriesEpisode_methods_def SeriesEpisode_get_tmdb_id_def
      SeriesEpisode_get_content_info_def SeriesEpisode_get_title_def
      SeriesEpisode_get_directors_def SeriesEpisode_get_release_date_def
      runtime_wide_show [unfolded wide_show_def] episode_request_def wide_catalog_def
      wide_show_def wide_episode_def resolver_defs parse_defs catalog_defs example_episode_def)

lemma SeriesEpisode_empty_runtime:
  "SeriesEpisode example_catalog ''tt1480055'' calls =
     (Inl ZeroDivisionError,
      calls @ [GetInfoFromImdbId ''tt1480055'', GetShowInfo ''1399'',
       GetEpisodeInfo ''1399'' ''1'' ''1'', GetEpisodeInfo ''1399'' ''1'' ''1''])"
  by (simp add: SeriesEpisode_def SeriesEpisode_methods_def SeriesEpisode_get_tmdb_id_def
      SeriesEpisode_get_content_info_def SeriesEpisode_get_title_def
      SeriesEpisode_get_directors_def SeriesEpisode_get_release_date_def
      SeriesEpisode_get_runtime_def episode_request_def py_truediv_def py_int_of_float_def
      resolver_defs parse_defs catalog_defs)

lemma Movie_failing:
  "Movie example_catalog ''tt0113277'' calls =
     (Inl (FailedAPIRequest ''https://api.themoviedb.org/3'' 200 429
            ''Your request count is over the allowed limit.''),
      calls @ [GetInfoFromImdbId ''tt0113277''])"
  by (simp add: Movie_def Movie_methods_def Movie_get_tmdb_id_def resolver_defs catalog_defs)

lemma zero_matches_unknown_record: "zero_matches example_catalog calls unknown_record"
  by (simp add: zero_matches_def unknown_record_def STATUS_CODE_OK_def catalog_defs)

lemma build_step_movie_record:
  "build_step example_float example_catalog movie_record s =
     (None, s\<lparr>calls_made := calls_made s @ [GetInfoFromImdbId ''tt0120815'', GetMovieInfo ''857''],
              watched_list := watched_list s @ [example_movie_event]\<rparr>)"
  by (simp add: build_step_def make_content_def movie_record_def Movie_example example_float_def
      parse_defs example_movie_event_def example_movie_def)

lemma build_step_episode_record:
  "build_step example_float example_catalog episode_record s =
     (None, s\<lparr>calls_made := calls_made s @
                [GetInfoFromImdbId ''tt0959621'', GetShowInfo ''1396'',
                 GetEpisodeInfo ''1396'' ''1'' ''1'', GetEpisodeInfo ''1396'' ''1'' ''1''],
              watched_list := watched_list s @ [example_episode_event]\<rparr>)"
  by (simp add: build_step_def make_content_def episode_record_def SeriesEpisode_example
      example_float_def parse_defs example_episode_event_def example_episode_def)

lemma make_content_failing_record:
  "make_content example_catalog failing_record calls =
     (Inl (FailedAPIRequest ''https://api.themoviedb.org/3'' 200 429
            ''Your request count is over the allowed limit.''),
      calls @ [GetInfoFromImdbId ''tt0113277''])"
  by (simp add: make_content_def failing_record_def Movie_failing)

lemma build_loop_movie_record:
  "build_loop example_float example_catalog [movie_record]
     \<lparr>watched_list = [], diagnostics = [], calls_made = []\<rparr> =
   (None, \<lparr>watched_list = [example_movie_event], diagnostics = [],
           calls_made = [GetInfoFromImdbId ''tt0120815'', GetMovieInfo ''857'']\<rparr>)"
  by (simp add: build_step_movie_record)


section \<open>Claims\<close>

text \<open>
  C8. For every collection of Watch Events the category totals are computed without an
  exception, the movie count plus the series count is the size of the collection and
  the movie minutes plus the series minutes are its total runtime; the movie bucket
  holds exactly the events whose content is a movie and the series bucket the others.
\<close>

theorem category_totals_partition:
  assumes "\<forall>w \<in> set ws. watch_event w"
  shows "\<exists>mc mm sc sm.
           get_amount_of_movies_and_series_watched ws = Inr (mc, mm, sc, sm) \<and>
           mc = int (length (filter is_movie_event ws)) \<and>
           sc = int (length (filter (\<lambda>w. \<not> is_movie_event w) ws)) \<and>
           mc + sc = int (length ws) \<and>
           mm + sm = total_runtime ws"
proof -
  have "length (filter is_movie_event ws) + length (filter (\<lambda>w. \<not> is_movie_event w) ws)
          = length ws"
    by (rule sum_length_filter_compl)
  then have "int (length (filter is_movie_event ws))
               + int (length (filter (\<lambda>w. \<not> is_movie_event w) ws)) = int (length ws)"
    by linarith
  with amount_loop_totals [OF assms, of 0 0 0 0] total_runtime_partition [of is_movie_event ws]
  show ?thesis
    by (simp add: get_amount_of_movies_and_series_watched_def)
qed

theorem category_totals_partition_witness:
  "watch_event example_movie_event \<and> watch_event example_episode_event \<and>
   get_amount_of_movies_and_series_watched [example_movie_event, example_episode_event]
     = Inr (1, 120, 1, 45)"
proof -
  have h: "\<forall>w \<in> set [example_movie_event, example_episode_event]. watch_event w"
    by (simp add: watch_event_example_movie_event watch_event_example_episode_event)
  have m: "is_movie_event example_movie_event" "\<not> is_movie_event example_episode_event"
    by (simp_all add: is_movie_event_def example_movie_event_def example_movie_def
        example_episode_event_def example_episode_def)
  have t: "total_runtime [example_movie_event, example_episode_event] = 165"
    by (simp add: total_runtime_def runtime_of_def example_movie_event_def example_movie_def
        example_episode_event_def example_episode_def)
  have e: "get_amount_of_movies_and_series_watched [example_movie_event, example_episode_event]
             = Inr (1, 120, 1, 45)"
    by (simp add: get_amount_of_movies_and_series_watched_def example_movie_event_def
        example_movie_def example_episode_event_def example_episode_def)
  from category_totals_partition [OF h] m t e show ?thesis
    by (simp add: watch_event_example_movie_event watch_event_example_episode_event)
qed

text \<open>
  C7. For every collection of Watch Events the calendar activity report is produced and
  has exactly the 12 month buckets and the 7 weekday buckets of the source, whatever the
  collection; the month totals add up to the total runtime of the collection and so do
  the weekday totals; and each bucket holds the runtime of exactly the events whose date
  falls in that month (on that weekday), so that every event is counted once per table.
\<close>

theorem calendar_buckets:
  assumes "\<forall>w \<in> set ws. watch_event w"
  shows "\<exists>a. get_activity_by_month_and_day ws = Inr a \<and>
           map fst (activity_months a) = map fst months_init \<and>
           length (activity_months a) = 12 \<and>
           map fst (activity_weekday a) = map fst weekday_init \<and>
           length (activity_weekday a) = 7 \<and>
           sum_list (map snd (activity_months a)) = total_runtime ws \<and>
           sum_list (map snd (activity_weekday a)) = total_runtime ws \<and>
           (\<forall>n. map_of (activity_months a) n =
                  (if n \<in> set (map fst months_init) then Some (month_total ws n) else None)) \<and>
           (\<forall>n. map_of (activity_weekday a) n =
                  (if n \<in> set (map fst weekday_init) then Some (weekday_total ws n) else None))"
proof -
  from activity_loop_returns [OF assms refl refl, of "[]"] obtain m w d where
    loop: "activity_loop ws (months_init, weekday_init, []) = Inr (m, w, d)"
    by (metis prod_cases3)
  let ?a = "\<lparr>activity_months = m, activity_weekday = w,
             activity_max_day = (case py_max d snd of Inl e \<Rightarrow> Inl e | Inr item \<Rightarrow> Inr (fst item))\<rparr>"
  have res: "get_activity_by_month_and_day ws = Inr ?a"
    by (simp add: get_activity_by_month_and_day_def loop)
  have keys: "map fst m = map fst months_init" "map fst w = map fst weekday_init"
    using activity_loop_keys [OF loop] by simp_all
  have len: "length m = 12" "length w = 7"
  proof -
    have "length (map fst m) = 12" unfolding keys by (simp add: months_init_def)
    then show "length m = 12" by simp
    have "length (map fst w) = 7" unfolding keys by (simp add: weekday_init_def)
    then show "length w = 7" by simp
  qed
  have sums: "sum_list (map snd m) = total_runtime ws" "sum_list (map snd w) = total_runtime ws"
    using activity_loop_sums [OF loop] by (simp_all add: months_init_def weekday_init_def)
  have m_of: "map_of m n = (if n \<in> set (map fst months_init) then Some (month_total ws n) else None)" for n
  proof (cases "map_of months_init n")
    case None
    then have "n \<notin> set (map fst months_init)" by (simp add: map_of_eq_None_iff)
    with None activity_loop_buckets [OF loop, of n] show ?thesis by simp
  next
    case (Some v)
    then have "(n, v) \<in> set months_init" by (rule map_of_SomeD)
    then have "v = 0" "n \<in> set (map fst months_init)"
      by (auto simp: months_init_def)
    with Some activity_loop_buckets [OF loop, of n] show ?thesis by simp
  qed
  have w_of: "map_of w n = (if n \<in> set (map fst weekday_init) then Some (weekday_total ws n) else None)" for n
  proof (cases "map_of weekday_init n")
    case None
    then have "n \<notin> set (map fst weekday_init)" by (simp add: map_of_eq_None_iff)
    with None activity_loop_buckets [OF loop, of n] show ?thesis by simp
  next
    case (Some v)
    then have "(n, v) \<in> set weekday_init" by (rule map_of_SomeD)
    then have "v = 0" "n \<in> set (map fst weekday_init)"
      by (auto simp: weekday_init_def)
    with Some activity_loop_buckets [OF loop, of n] show ?thesis by simp
  qed
  from res keys len sums m_of w_of show ?thesis by simp
qed

theorem calendar_buckets_witness:
  "watch_event example_movie_event \<and> watch_event example_long_movie_event \<and>
   watch_event example_same_day_event \<and>
   total_runtime [example_movie_event, example_long_movie_event, example_same_day_event] = 315 \<and>
   (\<exists>a. get_activity_by_month_and_day
          [example_movie_event, example_long_movie_event, example_same_day_event] = Inr a \<and>
        length (activity_months a) = 12 \<and> length (activity_weekday a) = 7 \<and>
        sum_list (map snd (activity_months a)) = 315 \<and>
        sum_list (map snd (activity_weekday a)) = 315 \<and>
        map_of (activity_months a) ''March'' = Some 315 \<and>
        map_of (activity_weekday a) ''Monday'' = Some 165 \<and>
        map_of (activity_weekday a) ''Tuesday'' = Some 150)"
proof -
  let ?ws = "[example_movie_event, example_long_movie_event, example_same_day_event]"
  have h: "\<forall>w \<in> set ?ws. watch_event w"
    by (simp add: watch_event_example_movie_event watch_event_example_long_movie_event
        watch_event_example_same_day_event)
  have t: "total_runtime ?ws = 315"
    by (simp add: total_runtime_def runtime_of_def example_defs)
  have m: "month_total ?ws ''March'' = 315"
    by (simp add: month_total_def total_runtime_def runtime_of_def example_defs calendar_defs)
  have w: "weekday_total ?ws ''Monday'' = 165" "weekday_total ?ws ''Tuesday'' = 150"
    by (simp_all add: weekday_total_def total_runtime_def runtime_of_def example_defs calendar_defs)
  from calendar_buckets [OF h] obtain a where
    a: "get_activity_by_month_and_day ?ws = Inr a"
      "length (activity_months a) = 12" "length (activity_weekday a) = 7"
      "sum_list (map snd (activity_months a)) = total_runtime ?ws"
      "sum_list (map snd (activity_weekday a)) = total_runtime ?ws"
      "\<forall>n. map_of (activity_months a) n =
                  (if n \<in> set (map fst months_init) then Some (month_total ?ws n) else None)"
      "\<forall>n. map_of (activity_weekday a) n =
                  (if n \<in> set (map fst weekday_init) then Some (weekday_total ?ws n) else None)"
    by blast
  from a(6) m have "map_of (activity_months a) ''March'' = Some 315"
    by (simp add: months_init_def)
  moreover from a(7) w have "map_of (activity_weekday a) ''Monday'' = Some 165"
    "map_of (activity_weekday a) ''Tuesday'' = Some 150"
    by (simp_all add: weekday_init_def)
  ultimately show ?thesis
    using a(1-5) t h by auto
qed

text \<open>
  C9. For every collection of Watch Events the per-date map \<^verbatim>\<open>days\<close> has one key per
  date watched on, and the value under a date is the sum of the runtimes of all the
  events watched on that date; a date whose total is strictly greater than the total of
  every other date is the date reported as the day with the most activity.
\<close>

theorem per_date_totals_and_most_active:
  assumes "\<forall>w \<in> set ws. watch_event w"
  shows "\<exists>months weekdays days a.
           activity_loop ws (months_init, weekday_init, []) = Inr (months, weekdays, days) \<and>
           get_activity_by_month_and_day ws = Inr a \<and>
           distinct (map fst days) \<and>
           (\<forall>x. map_of days x = (if x \<in> date ` set ws then Some (date_total ws x) else None)) \<and>
           (\<forall>x \<in> date ` set ws.
              (\<forall>y \<in> date ` set ws. y \<noteq> x \<longrightarrow> date_total ws y < date_total ws x) \<longrightarrow>
              activity_max_day a = Inr x)"
proof -
  from activity_loop_returns [OF assms refl refl, of "[]"] obtain m w d where
    loop: "activity_loop ws (months_init, weekday_init, []) = Inr (m, w, d)"
    by (metis prod_cases3)
  let ?a = "\<lparr>activity_months = m, activity_weekday = w,
             activity_max_day = (case py_max d snd of Inl e \<Rightarrow> Inl e | Inr item \<Rightarrow> Inr (fst item))\<rparr>"
  have res: "get_activity_by_month_and_day ws = Inr ?a"
    by (simp add: get_activity_by_month_and_day_def loop)
  have dist: "distinct (map fst d)"
    using activity_loop_days_distinct [OF loop] by simp
  have d_of: "map_of d x = (if x \<in> date ` set ws then Some (date_total ws x) else None)" for x
    using activity_loop_days_map_of [OF loop, of x] by simp
  have best: "activity_max_day ?a = Inr x"
    if x: "x \<in> date ` set ws"
      and gt: "\<forall>y \<in> date ` set ws. y \<noteq> x \<longrightarrow> date_total ws y < date_total ws x" for x
  proof -
    from x d_of [of x] have "map_of d x = Some (date_total ws x)" by simp
    then have mem: "(x, date_total ws x) \<in> set d" by (rule map_of_SomeD)
    have "\<forall>(k', t') \<in> set d. k' \<noteq> x \<longrightarrow> t' < date_total ws x"
    proof (clarify)
      fix k' t'
      assume kt: "(k', t') \<in> set d" and ne: "k' \<noteq> x"
      from dist kt have "map_of d k' = Some t'" by simp
      with d_of [of k'] have "k' \<in> date ` set ws" "t' = date_total ws k'"
        by (auto split: if_splits)
      with gt ne show "t' < date_total ws x" by blast
    qed
    from py_max_strict [OF mem dist this] show ?thesis by simp
  qed
  from loop res dist d_of best show ?thesis by blast
qed

theorem per_date_totals_and_most_active_witness:
  "\<exists>months weekdays a.
     activity_loop [example_movie_event, example_long_movie_event, example_same_day_event]
       (months_init, weekday_init, [])
       = Inr (months, weekdays,
              [(\<lparr>year = 2021, month = 3, day = 1\<rparr>, 165), (\<lparr>year = 2021, month = 3, day = 2\<rparr>, 150)]) \<and>
     get_activity_by_month_and_day
       [example_movie_event, example_long_movie_event, example_same_day_event] = Inr a \<and>
     activity_max_day a = Inr \<lparr>year = 2021, month = 3, day = 1\<rparr>"
proof -
  let ?ws = "[example_movie_event, example_long_movie_event, example_same_day_event]"
  let ?d1 = "\<lparr>year = 2021, month = 3, day = 1\<rparr>"
  let ?d2 = "\<lparr>year = 2021, month = 3, day = 2\<rparr>"
  have h: "\<forall>w \<in> set ?ws. watch_event w"
    by (simp add: watch_event_example_movie_event watch_event_example_long_movie_event
        watch_event_example_same_day_event)
  have dates: "date ` set ?ws = {?d1, ?d2}"
    by (auto simp add: example_defs)
  have totals: "date_total ?ws ?d1 = 165" "date_total ?ws ?d2 = 150"
    by (simp_all add: date_total_def total_runtime_def runtime_of_def example_defs)
  from per_date_totals_and_most_active [OF h] obtain months weekdays days a where
    loop: "activity_loop ?ws (months_init, weekday_init, []) = Inr (months, weekdays, days)" and
    res: "get_activity_by_month_and_day ?ws = Inr a" and
    best: "\<forall>x \<in> date ` set ?ws.
              (\<forall>y \<in> date ` set ?ws. y \<noteq> x \<longrightarrow> date_total ?ws y < date_total ?ws x) \<longrightarrow>
              activity_max_day a = Inr x"
    by blast
  have m1: "?d1 \<in> date ` set ?ws"
    unfolding dates by simp
  have b1: "\<forall>y \<in> date ` set ?ws. y \<noteq> ?d1 \<longrightarrow> date_total ?ws y < date_total ?ws ?d1"
    unfolding dates using totals by simp
  from best m1 b1 have "activity_max_day a = Inr ?d1"
    by blast
  moreover have "days = [(?d1, 165), (?d2, 150)]"
    using loop by (simp add: example_defs calendar_defs)
  ultimately show ?thesis using loop res by blast
qed

text \<open>
  C10. On the empty collection the loop leaves \<^verbatim>\<open>days\<close> empty, \<^verbatim>\<open>max\<close> of the empty
  sequence raises ValueError, and \<^verbatim>\<open>get_activity_by_month_and_day\<close> ends with that
  exception after it has printed the two tables of zeros.
\<close>

theorem empty_collection_max_raises:
  "activity_loop [] (months_init, weekday_init, []) = Inr (months_init, weekday_init, []) \<and>
   py_max ([] :: (datetime \<times> int) list) snd = Inl ValueError \<and>
   get_activity_by_month_and_day [] =
     Inr \<lparr>activity_months = months_init, activity_weekday = weekday_init,
          activity_max_day = Inl ValueError\<rparr>"
  by (simp add: get_activity_by_month_and_day_def py_max_def)

text \<open>
  C3. For every collection of Watch Events each of the four best-rated reports is
  produced, and a key that occurs fewer times than the threshold of the report (5 for
  genres, actors and production companies, 2 for directors) is not in it; every key in
  the report occurs at least that often and is listed with the mean of its ratings,
  so a high mean alone never brings a key into the report.
\<close>

theorem average_ranking_reports:
  assumes "\<forall>w \<in> set ws. watch_event w"
  shows "(\<exists>rep. get_most_liked_genres ws = Inr rep \<and> average_ranking 5 genres ws rep \<and>
            (\<forall>k. occurrences genres ws k < 5 \<longrightarrow> k \<notin> set (map fst rep))) \<and>
         (\<exists>rep. get_most_liked_actors ws = Inr rep \<and> average_ranking 5 actors ws rep \<and>
            (\<forall>k. occurrences actors ws k < 5 \<longrightarrow> k \<notin> set (map fst rep))) \<and>
         (\<exists>rep. get_most_liked_production_companies ws = Inr rep \<and>
            average_ranking 5 production_companies ws rep \<and>
            (\<forall>k. occurrences production_companies ws k < 5 \<longrightarrow> k \<notin> set (map fst rep))) \<and>
         (\<exists>rep. get_most_liked_directors ws = Inr rep \<and> average_ranking 2 directors ws rep \<and>
            (\<forall>k. occurrences directors ws k < 2 \<longrightarrow> k \<notin> set (map fst rep)))"
proof -
  from assms have
    "\<forall>w \<in> set ws. has_val (genres (content w))"
    "\<forall>w \<in> set ws. has_val (actors (content w))"
    "\<forall>w \<in> set ws. has_val (production_companies (content w))"
    "\<forall>w \<in> set ws. has_val (directors (content w))"
    by (simp_all add: watch_event_def resolved_def)
  then show ?thesis
    unfolding get_most_liked_genres_def get_most_liked_actors_def
      get_most_liked_production_companies_def get_most_liked_directors_def
      MIN_THRESHOLD_def MIN_THRESHOLD_FOR_DIRECTORS_def
    by (intro conjI most_liked_ranking) simp_all
qed

theorem average_ranking_reports_witness:
  "get_most_liked_directors [example_movie_event, example_episode_event, example_same_day_event]
     = Inr [(''Vince Gilligan'', 15 / 2)] \<and>
   occurrences directors [example_movie_event, example_episode_event, example_same_day_event]
     ''Steven Spielberg'' = 1 \<and>
   average_rating directors [example_movie_event, example_episode_event, example_same_day_event]
     ''Steven Spielberg'' = 8 \<and>
   average_ranking 2 directors [example_movie_event, example_episode_event, example_same_day_event]
     [(''Vince Gilligan'', 15 / 2)] \<and>
   get_most_liked_genres [example_movie_event, example_episode_event, example_same_day_event,
       example_episode_event, example_same_day_event, example_episode_event]
     = Inr [(''Drama'', 47 / 6), (''Crime'', 39 / 5)] \<and>
   occurrences genres [example_movie_event, example_episode_event, example_same_day_event,
       example_episode_event, example_same_day_event, example_episode_event] ''War'' = 1 \<and>
   average_rating genres [example_movie_event, example_episode_event, example_same_day_event,
       example_episode_event, example_same_day_event, example_episode_event] ''War'' = 8"
proof -
  let ?ws = "[example_movie_event, example_episode_event, example_same_day_event]"
  let ?ws6 = "[example_movie_event, example_episode_event, example_same_day_event,
       example_episode_event, example_same_day_event, example_episode_event]"
  have h: "\<forall>w \<in> set ?ws. watch_event w"
    by (simp add: watch_event_example_movie_event watch_event_example_episode_event
        watch_event_example_same_day_event)
  have h6: "\<forall>w \<in> set ?ws6. watch_event w"
    by (simp add: watch_event_example_movie_event watch_event_example_episode_event
        watch_event_example_same_day_event)
  have d: "get_most_liked_directors ?ws = Inr [(''Vince Gilligan'', 15 / 2)]"
    by (simp add: get_most_liked_directors_def liked_defs example_defs)
  have g: "get_most_liked_genres ?ws6 = Inr [(''Drama'', 47 / 6), (''Crime'', 39 / 5)]"
    by (simp add: get_most_liked_genres_def liked_defs example_defs)
  have o: "occurrences directors ?ws ''Steven Spielberg'' = 1"
    "average_rating directors ?ws ''Steven Spielberg'' = 8"
    "occurrences genres ?ws6 ''War'' = 1"
    "average_rating genres ?ws6 ''War'' = 8"
    by (simp_all add: average_rating_def rating_total_def occurrences_def values_of_def example_defs)
  from average_ranking_reports [OF h] d have "average_ranking 2 directors ?ws [(''Vince Gilligan'', 15 / 2)]"
    by simp
  moreover from average_ranking_reports [OF h6] g
  have "\<forall>k. occurrences genres ?ws6 k < 5 \<longrightarrow> k \<notin> set (map fst [(''Drama'', 47 / 6 :: rat), (''Crime'', 39 / 5)])"
    by simp
  ultimately show ?thesis using d g o by simp
qed

text \<open>
  C4. For every collection of Watch Events whose runtimes are not negative each of the
  four most-watched reports is produced; its keys are values of the attribute of some
  event, each listed once with the runtime watched for it, which is not negative; the
  totals are in descending order and there are at most 20 entries.
\<close>

theorem sum_ranking_reports:
  assumes "\<forall>w \<in> set ws. watch_event w \<and> 0 \<le> runtime_of w"
  shows "(\<exists>rep. get_most_watched_genres ws = Inr rep \<and> sum_ranking genres ws rep) \<and>
         (\<exists>rep. get_most_watched_actors ws = Inr rep \<and> sum_ranking actors ws rep) \<and>
         (\<exists>rep. get_most_watched_production_companies ws = Inr rep \<and>
                sum_ranking production_companies ws rep) \<and>
         (\<exists>rep. get_most_watched_directors ws = Inr rep \<and> sum_ranking directors ws rep)"
proof -
  from assms have
    "\<forall>w \<in> set ws. has_val (genres (content w)) \<and> has_val (runtime (content w)) \<and> 0 \<le> runtime_of w"
    "\<forall>w \<in> set ws. has_val (actors (content w)) \<and> has_val (runtime (content w)) \<and> 0 \<le> runtime_of w"
    "\<forall>w \<in> set ws. has_val (production_companies (content w)) \<and> has_val (runtime (content w)) \<and>
       0 \<le> runtime_of w"
    "\<forall>w \<in> set ws. has_val (directors (content w)) \<and> has_val (runtime (content w)) \<and> 0 \<le> runtime_of w"
    by (simp_all add: watch_event_def resolved_def)
  then show ?thesis
    unfolding get_most_watched_genres_def get_most_watched_actors_def
      get_most_watched_production_companies_def get_most_watched_directors_def
    by (intro conjI most_watched_sum_ranking)
qed

theorem sum_ranking_reports_witness:
  "get_most_watched_genres [example_movie_event, example_episode_event, example_same_day_event]
     = Inr [(''Drama'', 210), (''War'', 120), (''Crime'', 90)] \<and>
   sum_ranking genres [example_movie_event, example_episode_event, example_same_day_event]
     [(''Drama'', 210), (''War'', 120), (''Crime'', 90)] \<and>
   get_most_watched_directors [example_movie_event, example_episode_event, example_same_day_event]
     = Inr [(''Steven Spielberg'', 120), (''Vince Gilligan'', 90)] \<and>
   sum_ranking directors [example_movie_event, example_episode_event, example_same_day_event]
     [(''Steven Spielberg'', 120), (''Vince Gilligan'', 90)]"
proof -
  let ?ws = "[example_movie_event, example_episode_event, example_same_day_event]"
  have h: "\<forall>w \<in> set ?ws. watch_event w \<and> 0 \<le> runtime_of w"
    by (simp add: watch_event_example_movie_event watch_event_example_episode_event
        watch_event_example_same_day_event)
      (simp add: runtime_of_def example_defs)
  have g: "get_most_watched_genres ?ws = Inr [(''Drama'', 210), (''War'', 120), (''Crime'', 90)]"
    by (simp add: get_most_watched_genres_def ranking_defs example_defs)
  have d: "get_most_watched_directors ?ws = Inr [(''Steven Spielberg'', 120), (''Vince Gilligan'', 90)]"
    by (simp add: get_most_watched_directors_def ranking_defs example_defs)
  from sum_ranking_reports [OF h] g d show ?thesis
    by simp
qed

text \<open>
  C1, as the code has it. When the content resolution of a record raises
  FailedAPIRequest, nothing catches it: the pass through the loop body ends with the
  exception, no diagnostic is printed and no event is added for the record, the records
  after it are not resolved, and \<^verbatim>\<open>main\<close> ends with the exception, in the state the loop
  reached with the records before it.
\<close>

theorem failed_request_ends_run:
  assumes "make_content cat r (calls_made s) = (Inl (FailedAPIRequest u n k t), calls)"
    and "build_loop f cat before \<lparr>watched_list = [], diagnostics = [], calls_made = []\<rparr> = (None, s)"
  shows "build_step f cat r s = (Some (FailedAPIRequest u n k t), s\<lparr>calls_made := calls\<rparr>) \<and>
         main f cat (before @ r # rs) =
           (Inl (FailedAPIRequest u n k t), s\<lparr>calls_made := calls\<rparr>)"
  using build_step_raises [OF assms(1)] build_loop_raises [OF assms]
  by (simp add: main_def)

theorem failed_request_ends_run_witness:
  "build_loop example_float example_catalog [movie_record]
     \<lparr>watched_list = [], diagnostics = [], calls_made = []\<rparr> =
   (None, \<lparr>watched_list = [example_movie_event], diagnostics = [],
           calls_made = [GetInfoFromImdbId ''tt0120815'', GetMovieInfo ''857'']\<rparr>) \<and>
   main example_float example_catalog ([movie_record] @ failing_record # [episode_record]) =
     (Inl (FailedAPIRequest ''https://api.themoviedb.org/3'' 200 429
            ''Your request count is over the allowed limit.''),
      \<lparr>watched_list = [example_movie_event], diagnostics = [],
       calls_made = [GetInfoFromImdbId ''tt0120815'', GetMovieInfo ''857'',
                     GetInfoFromImdbId ''tt0113277'']\<rparr>)"
proof -
  let ?s = "\<lparr>watched_list = [example_movie_event], diagnostics = [],
            calls_made = [GetInfoFromImdbId ''tt0120815'', GetMovieInfo ''857'']\<rparr>"
  have raised: "make_content example_catalog failing_record (calls_made ?s) =
     (Inl (FailedAPIRequest ''https://api.themoviedb.org/3'' 200 429
            ''Your request count is over the allowed limit.''),
      calls_made ?s @ [GetInfoFromImdbId ''tt0113277''])"
    by (rule make_content_failing_record)
  have "main example_float example_catalog ([movie_record] @ failing_record # [episode_record]) =
     (Inl (FailedAPIRequest ''https://api.themoviedb.org/3'' 200 429
            ''Your request count is over the allowed limit.''),
      ?s\<lparr>calls_made := calls_made ?s @ [GetInfoFromImdbId ''tt0113277'']\<rparr>)"
    using failed_request_ends_run [OF raised build_loop_movie_record]
    by (rule conjunct2)
  then have "main example_float example_catalog ([movie_record] @ failing_record # [episode_record]) =
     (Inl (FailedAPIRequest ''https://api.themoviedb.org/3'' 200 429
            ''Your request count is over the allowed limit.''),
      \<lparr>watched_list = [example_movie_event], diagnostics = [],
       calls_made = [GetInfoFromImdbId ''tt0120815'', GetMovieInfo ''857'',
                     GetInfoFromImdbId ''tt0113277'']\<rparr>)"
    by simp
  with build_loop_movie_record show ?thesis
    by (rule conjI)
qed

text \<open>
  C1 as stated (the record is skipped with a diagnostic and the run goes on) fails on
  the example: the find request for the second record is answered with status 429, and
  the run ends there with FailedAPIRequest, without a diagnostic and without resolving
  the third record.
\<close>

theorem failed_request_skip_counterexample:
  "make_content example_catalog failing_record
     [GetInfoFromImdbId ''tt0120815'', GetMovieInfo ''857''] =
     (Inl (FailedAPIRequest ''https://api.themoviedb.org/3'' 200 429
            ''Your request count is over the allowed limit.''),
      [GetInfoFromImdbId ''tt0120815'', GetMovieInfo ''857'',
       GetInfoFromImdbId ''tt0113277'']) \<and>
   main example_float example_catalog [movie_record, failing_record, episode_record] =
     (Inl (FailedAPIRequest ''https://api.themoviedb.org/3'' 200 429
            ''Your request count is over the allowed limit.''),
      \<lparr>watched_list = [example_movie_event], diagnostics = [],
       calls_made = [GetInfoFromImdbId ''tt0120815'', GetMovieInfo ''857'',
                     GetInfoFromImdbId ''tt0113277'']\<rparr>)"
  by (simp add: main_def build_step_movie_record make_content_failing_record
      build_step_raises [OF make_content_failing_record])

text \<open>
  C2. A \<^verbatim>\<open>Movie\<close> or \<^verbatim>\<open>SeriesEpisode\<close> object whose construction returns with
  \<^verbatim>\<open>tmdb_id\<close> \<^verbatim>\<open>None\<close> has no other metadata: title, genres, actors, directors, release
  date and runtime are \<^verbatim>\<open>None\<close>, and \<^verbatim>\<open>production_companies\<close> was never assigned.
\<close>

theorem unresolved_content_fields_absent:
  assumes "Movie cat imdb_id calls = (Inr c, calls') \<or>
           SeriesEpisode cat imdb_id calls = (Inr c, calls')"
    and "tmdb_id c = PyNone"
  shows "title c = PyNone \<and> genres c = PyNone \<and> actors c = PyNone \<and> directors c = PyNone \<and>
         production_companies c = Unset \<and> release_date c = PyNone \<and> runtime c = PyNone"
  using assms(1)
proof
  assume "Movie cat imdb_id calls = (Inr c, calls')"
  from Content_init_InrD [OF this [unfolded Movie_def]] assms(2) obtain self1 calls1 where
    t: "Movie_get_tmdb_id cat new_object imdb_id calls = (Inr (PyNone, self1), calls1)" and
    c: "c = unresolved_fields True (self1\<lparr>tmdb_id := PyNone\<rparr>)"
    by (auto simp: Movie_methods_def truthy_def)
  from t have "self1 = new_object"
    by (auto simp: Movie_get_tmdb_id_def io_return_def elim!: io_bind_InrD split: list.splits)
  with c show ?thesis
    by (simp add: unresolved_fields_def new_object_def)
next
  assume "SeriesEpisode cat imdb_id calls = (Inr c, calls')"
  from Content_init_InrD [OF this [unfolded SeriesEpisode_def]] assms(2) obtain self1 calls1 where
    t: "SeriesEpisode_get_tmdb_id cat
          (new_object\<lparr>show_id := PyNone, season := PyNone, episode := PyNone\<rparr>) imdb_id calls
        = (Inr (PyNone, self1), calls1)" and
    c: "c = unresolved_fields False (self1\<lparr>tmdb_id := PyNone\<rparr>)"
    by (auto simp: SeriesEpisode_methods_def truthy_def)
  from t have "production_companies self1 = Unset"
    by (auto simp: SeriesEpisode_get_tmdb_id_def io_return_def new_object_def
        elim!: io_bind_InrD split: list.splits)
  with c show ?thesis
    by (simp add: unresolved_fields_def)
qed

theorem unresolved_content_fields_absent_witness:
  "Movie example_catalog ''tt0000000'' [] =
     (Inr unresolved_movie, [GetInfoFromImdbId ''tt0000000'']) \<and>
   tmdb_id unresolved_movie = PyNone \<and>
   title unresolved_movie = PyNone \<and> genres unresolved_movie = PyNone \<and>
   actors unresolved_movie = PyNone \<and> directors unresolved_movie = PyNone \<and>
   production_companies unresolved_movie = Unset \<and> release_date unresolved_movie = PyNone \<and>
   runtime unresolved_movie = PyNone"
proof -
  have m: "Movie example_catalog ''tt0000000'' [] =
      (Inr unresolved_movie, [] @ [GetInfoFromImdbId ''tt0000000''])"
    by (rule Movie_zero_matches [where response = "\<lparr>url = ''https://api.themoviedb.org/3'',
        status_code = 200, body_text = ''ok'', json = no_results\<rparr>"])
      (simp_all add: catalog_defs)
  have t: "tmdb_id unresolved_movie = PyNone"
    by (simp add: unresolved_movie_def)
  from unresolved_content_fields_absent [OF disjI1 [OF m] t] m t show ?thesis
    by simp
qed

text \<open>
  C5, as the code has it. \<^verbatim>\<open>SeriesEpisode._get_runtime\<close> divides the sum of the
  \<^verbatim>\<open>episode_run_time\<close> list by its length as floats and truncates the result. For a
  non-empty list whose sum is below \<open>2 ^ 53\<close> in absolute value it returns the
  integer-truncated mean of the list, and on the empty list it raises
  ZeroDivisionError. The runtime of every resolved episode comes from the non-empty list
  in the answer to its series request, and it is the truncated mean of that list when
  the sum of the list is below \<open>2 ^ 53\<close> in absolute value. A ZeroDivisionError of
  the resolution is not caught: it ends the loop of \<^verbatim>\<open>main\<close>.
\<close>

theorem episode_runtime_truncated_mean:
  "(episode_run_time info \<noteq> [] \<and> \<bar>sum_list (episode_run_time info)\<bar> < 2 ^ 53 \<longrightarrow>
      SeriesEpisode_get_runtime info = Inr (truncated_mean (episode_run_time info))) \<and>
   (episode_run_time info = [] \<longrightarrow> SeriesEpisode_get_runtime info = Inl ZeroDivisionError) \<and>
   (SeriesEpisode cat imdb_id calls = (Inr c, calls') \<and> tmdb_id c \<noteq> PyNone \<longrightarrow>
      (\<exists>sid response.
         show_id c = Val sid \<and>
         tv_response cat (calls @ [GetInfoFromImdbId imdb_id]) sid = Inr response \<and>
         episode_run_time (json response) \<noteq> [] \<and>
         (\<bar>sum_list (episode_run_time (json response))\<bar> < 2 ^ 53 \<longrightarrow>
            runtime c = Val (truncated_mean (episode_run_time (json response)))))) \<and>
   (make_content cat r (calls_made s) = (Inl ZeroDivisionError, calls2) \<longrightarrow>
      build_loop f cat (r # rs) s = (Some ZeroDivisionError, s\<lparr>calls_made := calls2\<rparr>))"
proof (intro conjI impI)
  assume "episode_run_time info \<noteq> [] \<and> \<bar>sum_list (episode_run_time info)\<bar> < 2 ^ 53"
  then show "SeriesEpisode_get_runtime info = Inr (truncated_mean (episode_run_time info))"
    by (simp add: SeriesEpisode_get_runtime_nonempty)
next
  assume "episode_run_time info = []"
  then show "SeriesEpisode_get_runtime info = Inl ZeroDivisionError"
    by (rule SeriesEpisode_get_runtime_empty)
next
  assume "SeriesEpisode cat imdb_id calls = (Inr c, calls') \<and> tmdb_id c \<noteq> PyNone"
  then obtain sid response rt where
    sid: "show_id c = Val sid" and
    tv: "tv_response cat (calls @ [GetInfoFromImdbId imdb_id]) sid = Inr response" and
    ne: "episode_run_time (json response) \<noteq> []" and
    rt: "SeriesEpisode_get_runtime (json response) = Inr rt" and
    c: "runtime c = Val rt"
    using SeriesEpisode_resolved_runtime by blast
  have "runtime c = Val (truncated_mean (episode_run_time (json response)))"
    if "\<bar>sum_list (episode_run_time (json response))\<bar> < 2 ^ 53"
    using SeriesEpisode_get_runtime_nonempty [OF ne that] rt c by simp
  with sid tv ne show "\<exists>sid response.
         show_id c = Val sid \<and>
         tv_response cat (calls @ [GetInfoFromImdbId imdb_id]) sid = Inr response \<and>
         episode_run_time (json response) \<noteq> [] \<and>
         (\<bar>sum_list (episode_run_time (json response))\<bar> < 2 ^ 53 \<longrightarrow>
            runtime c = Val (truncated_mean (episode_run_time (json response))))"
    by blast
next
  assume "make_content cat r (calls_made s) = (Inl ZeroDivisionError, calls2)"
  then show "build_loop f cat (r # rs) s = (Some ZeroDivisionError, s\<lparr>calls_made := calls2\<rparr>)"
    by (simp add: build_step_raises)
qed

theorem episode_runtime_truncated_mean_witness:
  "\<bar>sum_list (episode_run_time show_1396)\<bar> < 2 ^ 53 \<and>
   SeriesEpisode_get_runtime show_1396 = Inr 45 \<and>
   truncated_mean [45, 46] = 45 \<and>
   SeriesEpisode_get_runtime show_1399 = Inl ZeroDivisionError \<and>
   runtime example_episode = Val 45 \<and>
   build_loop example_float example_catalog [empty_runtime_record, movie_record]
     \<lparr>watched_list = [], diagnostics = [], calls_made = []\<rparr> =
   (Some ZeroDivisionError,
    \<lparr>watched_list = [], diagnostics = [],
     calls_made = [GetInfoFromImdbId ''tt1480055'', GetShowInfo ''1399'',
                   GetEpisodeInfo ''1399'' ''1'' ''1'', GetEpisodeInfo ''1399'' ''1'' ''1'']\<rparr>)"
proof -
  let ?s0 = "\<lparr>watched_list = [], diagnostics = [], calls_made = []\<rparr>"
  let ?calls = "[GetInfoFromImdbId ''tt1480055'', GetShowInfo ''1399'',
                 GetEpisodeInfo ''1399'' ''1'' ''1'', GetEpisodeInfo ''1399'' ''1'' ''1'']"
  have ne: "episode_run_time show_1396 \<noteq> [] \<and> \<bar>sum_list (episode_run_time show_1396)\<bar> < 2 ^ 53"
    and e: "episode_run_time show_1399 = []"
    by (simp_all add: show_1396_def show_1399_def)
  have m: "truncated_mean (episode_run_time show_1396) = 45" "truncated_mean [45, 46] = 45"
    by (simp_all add: show_1396_def truncated_mean_def)
  have ep: "SeriesEpisode example_catalog ''tt0959621'' [] =
      (Inr example_episode,
       [GetInfoFromImdbId ''tt0959621'', GetShowInfo ''1396'',
        GetEpisodeInfo ''1396'' ''1'' ''1'', GetEpisodeInfo ''1396'' ''1'' ''1'']) \<and>
      tmdb_id example_episode \<noteq> PyNone"
    by (simp add: SeriesEpisode_example) (simp add: example_episode_def)
  have z: "make_content example_catalog empty_runtime_record (calls_made ?s0) =
      (Inl ZeroDivisionError, ?calls)"
    by (simp add: make_content_def empty_runtime_record_def SeriesEpisode_empty_runtime)
  have tv: "tv_response example_catalog calls ''1396'' = ok_response show_1396" for calls
    by (simp add: example_catalog_def)
  from episode_runtime_truncated_mean [of show_1396 example_catalog "''tt0959621''" "[]"
      example_episode _ empty_runtime_record ?s0 ?calls example_float "[movie_record]"] ne ep z
  have a: "SeriesEpisode_get_runtime show_1396 = Inr (truncated_mean (episode_run_time show_1396))"
    and b: "\<exists>sid response. show_id example_episode = Val sid \<and>
         tv_response example_catalog ([] @ [GetInfoFromImdbId ''tt0959621'']) sid = Inr response \<and>
         (\<bar>sum_list (episode_run_time (json response))\<bar> < 2 ^ 53 \<longrightarrow>
            runtime example_episode = Val (truncated_mean (episode_run_time (json response))))"
    and c: "build_loop example_float example_catalog (empty_runtime_record # [movie_record]) ?s0 =
      (Some ZeroDivisionError, ?s0\<lparr>calls_made := ?calls\<rparr>)"
    by blast+
  from b obtain response where
    r: "tv_response example_catalog ([] @ [GetInfoFromImdbId ''tt0959621'']) ''1396'' = Inr response"
    and i: "\<bar>sum_list (episode_run_time (json response))\<bar> < 2 ^ 53 \<longrightarrow>
            runtime example_episode = Val (truncated_mean (episode_run_time (json response)))"
    by (auto simp: example_episode_def)
  from r have "json response = show_1396"
    by (auto simp: tv ok_response_def)
  with i ne m(1) have rt: "runtime example_episode = Val 45"
    by simp
  from episode_runtime_truncated_mean [of show_1399] e
  have d: "SeriesEpisode_get_runtime show_1399 = Inl ZeroDivisionError"
    by blast
  from ne a m d rt c show ?thesis by simp
qed

text \<open>
  C5 as stated (the runtime of an episode is the truncated mean of every non-empty list)
  fails on the example: the series declares the single runtime \<open>2 ^ 53 + 1\<close>, whose
  truncated mean is the number itself, and the episode resolved from it has the runtime
  \<open>2 ^ 53\<close>, the float nearest to the quotient.
\<close>

theorem episode_runtime_precision_counterexample:
  "SeriesEpisode wide_catalog ''tt0959621'' [] =
     (Inr wide_episode,
      [GetInfoFromImdbId ''tt0959621'', GetShowInfo ''1396'',
       GetEpisodeInfo ''1396'' ''1'' ''1'', GetEpisodeInfo ''1396'' ''1'' ''1'']) \<and>
   tmdb_id wide_episode = Val ''62085'' \<and>
   tv_response wide_catalog [GetInfoFromImdbId ''tt0959621''] ''1396'' = ok_response wide_show \<and>
   episode_run_time wide_show = [9007199254740993] \<and>
   truncated_mean (episode_run_time wide_show) = 9007199254740993 \<and>
   SeriesEpisode_get_runtime wide_show = Inr 9007199254740992 \<and>
   runtime wide_episode = Val 9007199254740992"
  by (simp add: SeriesEpisode_wide [of "[]", simplified] runtime_wide_show)
    (simp add: wide_episode_def example_episode_def wide_catalog_def wide_show_def
      truncated_mean_def)

text \<open>
  C6. When the catalog has no entry for the external id of a record (movie or episode),
  the construction of the content returns after the one find request, with \<^verbatim>\<open>tmdb_id\<close>
  \<^verbatim>\<open>None\<close>; the pass through the loop body raises nothing, adds no watched content, prints
  exactly one diagnostic (name and external id), and the loop goes on with the next
  record.
\<close>

theorem zero_matches_record_skipped:
  assumes "zero_matches cat (calls_made s) r"
  shows "\<exists>c s'. make_content cat r (calls_made s) =
                  (Inr c, calls_made s @ [GetInfoFromImdbId (IMDB_ID r)]) \<and>
           tmdb_id c = PyNone \<and>
           build_step f cat r s = (None, s') \<and>
           watched_list s' = watched_list s \<and>
           diagnostics s' = diagnostics s @ [(Name r, IMDB_ID r)] \<and>
           calls_made s' = calls_made s @ [GetInfoFromImdbId (IMDB_ID r)] \<and>
           build_loop f cat (r # rs) s = build_loop f cat rs s'"
proof -
  let ?c = "if Movie_or_Series r = ''Movie'' then unresolved_movie else unresolved_episode"
  let ?s = "s\<lparr>calls_made := calls_made s @ [GetInfoFromImdbId (IMDB_ID r)],
               diagnostics := diagnostics s @ [(Name r, IMDB_ID r)]\<rparr>"
  have c: "make_content cat r (calls_made s) =
      (Inr ?c, calls_made s @ [GetInfoFromImdbId (IMDB_ID r)])"
    by (rule make_content_zero_matches [OF assms])
  have t: "tmdb_id ?c = PyNone"
    by (simp add: unresolved_movie_def unresolved_episode_def)
  have step: "build_step f cat r s = (None, ?s)"
    unfolding build_step_def c using t by (simp add: Let_def)
  then have loop: "build_loop f cat (r # rs) s = build_loop f cat rs ?s"
    by simp
  from c t step loop show ?thesis
    by (intro exI [of _ ?c] exI [of _ ?s]) simp
qed

theorem zero_matches_record_skipped_witness:
  "zero_matches example_catalog [] unknown_record \<and>
   build_loop example_float example_catalog [unknown_record, movie_record]
     \<lparr>watched_list = [], diagnostics = [], calls_made = []\<rparr> =
   (None, \<lparr>watched_list = [example_movie_event],
           diagnostics = [(''Home video'', ''tt0000000'')],
           calls_made = [GetInfoFromImdbId ''tt0000000'', GetInfoFromImdbId ''tt0120815'',
                         GetMovieInfo ''857'']\<rparr>)"
proof -
  let ?s0 = "\<lparr>watched_list = [], diagnostics = [], calls_made = []\<rparr>"
  have z: "zero_matches example_catalog (calls_made ?s0) unknown_record"
    by (rule zero_matches_unknown_record)
  from zero_matches_record_skipped [OF z, of example_float "[movie_record]"]
  obtain s' where
    w: "watched_list s' = watched_list ?s0" and
    d: "diagnostics s' = diagnostics ?s0 @ [(Name unknown_record, IMDB_ID unknown_record)]" and
    c: "calls_made s' = calls_made ?s0 @ [GetInfoFromImdbId (IMDB_ID unknown_record)]" and
    l: "build_loop example_float example_catalog (unknown_record # [movie_record]) ?s0 =
          build_loop example_float example_catalog [movie_record] s'"
    by blast
  from w d c have "s' = \<lparr>watched_list = [], diagnostics = [(''Home video'', ''tt0000000'')],
      calls_made = [GetInfoFromImdbId ''tt0000000'']\<rparr>"
    by (cases s') (simp add: unknown_record_def)
  with l zero_matches_unknown_record [of "[]"] show ?thesis
    by (simp add: build_step_movie_record)
qed

end
